(* ===== verification/Prelude.thy ===== *)
theory Prelude
  imports Main "HOL-Library.Sublist" "HOL-Library.AList"
begin

text \<open>
  The parts of Go and of its standard library that every component uses, and the lemmas
  the components share. A Go string is a list of bytes, so it is a HOL \<open>string\<close> (each
  \<open>char\<close> is one byte). \<open>time.Time\<close> is the number of nanoseconds since Go's zero time, so
  that \<open>IsZero t\<close> is \<open>t = 0\<close>; \<open>time.Duration\<close> is a number of nanoseconds, and
  \<open>time_Sub\<close> saturates at the int64 range as \<open>Time.Sub\<close> does. A Go map is an association
  list with distinct keys, whose order stands for one iteration order of the map.
  Package \<open>strings\<close> is modelled bytewise; \<open>ToLower\<close> and \<open>EqualFold\<close> fold the ASCII
  letters and leave every other byte as it is. \<open>TrimSpace\<close> and \<open>Fields\<close> decode UTF-8 and
  know the Unicode spaces, as Go's do.
\<close>

named_theorems go_eval \<open>equations that evaluate the string library on concrete strings\<close>
named_theorems go_splits \<open>case splits on the library's result types\<close>

type_synonym time = int
type_synonym duration = int
type_synonym ('k, 'v) gomap = "('k \<times> 'v) list"

section \<open>Time\<close>

definition IsZero :: "time \<Rightarrow> bool" where
  "IsZero t \<longleftrightarrow> t = 0"

definition minDuration :: duration where
  "minDuration = - (2 ^ 63)"

definition maxDuration :: duration where
  "maxDuration = 2 ^ 63 - 1"

definition time_Sub :: "time \<Rightarrow> time \<Rightarrow> duration" where
  "time_Sub t u = max minDuration (min maxDuration (t - u))"

abbreviation (input) nsSecond :: duration where
  "nsSecond \<equiv> 1000000000"

abbreviation (input) nsHour :: duration where
  "nsHour \<equiv> 3600 * 1000000000"

section \<open>Package strings\<close>

definition HasPrefix :: "string \<Rightarrow> string \<Rightarrow> bool" where
  "HasPrefix s p \<longleftrightarrow> prefix p s"

definition HasSuffix :: "string \<Rightarrow> string \<Rightarrow> bool" where
  "HasSuffix s p \<longleftrightarrow> prefix (rev p) (rev s)"

definition TrimPrefix :: "string \<Rightarrow> string \<Rightarrow> string" where
  "TrimPrefix s p = (if HasPrefix s p then drop (length p) s else s)"

definition TrimSuffix :: "string \<Rightarrow> string \<Rightarrow> string" where
  "TrimSuffix s p = (if HasSuffix s p then take (length s - length p) s else s)"

definition TrimLeft :: "string \<Rightarrow> string \<Rightarrow> string" where
  "TrimLeft s cutset = dropWhile (\<lambda>c. List.member cutset c) s"

definition TrimRight :: "string \<Rightarrow> string \<Rightarrow> string" where
  "TrimRight s cutset = rev (dropWhile (\<lambda>c. List.member cutset c) (rev s))"

definition Trim :: "string \<Rightarrow> string \<Rightarrow> string" where
  "Trim s cutset = TrimRight (TrimLeft s cutset) cutset"

fun Split :: "string \<Rightarrow> char \<Rightarrow> string list" where
  "Split [] sep = [[]]"
| "Split (c # s) sep =
     (if c = sep then [] # Split s sep
      else (case Split s sep of [] \<Rightarrow> [[c]] | p # ps \<Rightarrow> (c # p) # ps))"

fun Join :: "string list \<Rightarrow> string \<Rightarrow> string" where
  "Join [] sep = []"
| "Join [p] sep = p"
| "Join (p # q # ps) sep = p @ sep @ Join (q # ps) sep"

definition Cut :: "string \<Rightarrow> char \<Rightarrow> string \<times> string \<times> bool" where
  "Cut s sep =
     (case dropWhile (\<lambda>c. c \<noteq> sep) s of
        [] \<Rightarrow> (s, [], False)
      | _ # rest \<Rightarrow> (takeWhile (\<lambda>c. c \<noteq> sep) s, rest, True))"

definition CutPrefix :: "string \<Rightarrow> string \<Rightarrow> string \<times> bool" where
  "CutPrefix s p = (if HasPrefix s p then (drop (length p) s, True) else (s, False))"

fun Index :: "string \<Rightarrow> string \<Rightarrow> nat option" where
  "Index [] sub = (if sub = [] then Some 0 else None)"
| "Index (c # s) sub =
     (if prefix sub (c # s) then Some 0 else map_option Suc (Index s sub))"

fun LastIndexByte :: "string \<Rightarrow> char \<Rightarrow> nat option" where
  "LastIndexByte [] c = None"
| "LastIndexByte (x # s) c =
     (case LastIndexByte s c of
        Some i \<Rightarrow> Some (Suc i)
      | None \<Rightarrow> (if x = c then Some 0 else None))"

definition Contains :: "string \<Rightarrow> string \<Rightarrow> bool" where
  "Contains s sub \<longleftrightarrow> Index s sub \<noteq> None"

definition ContainsAny :: "string \<Rightarrow> string \<Rightarrow> bool" where
  "ContainsAny s chars \<longleftrightarrow> list_ex (\<lambda>c. List.member chars c) s"

definition upper_letters :: string where
  "upper_letters = ''ABCDEFGHIJKLMNOPQRSTUVWXYZ''"

definition lower_letters :: string where
  "lower_letters = ''abcdefghijklmnopqrstuvwxyz''"

definition lower_char :: "char \<Rightarrow> char" where
  "lower_char c = (case map_of (zip upper_letters lower_letters) c of Some l \<Rightarrow> l | None \<Rightarrow> c)"

definition ToLower :: "string \<Rightarrow> string" where
  "ToLower s = map lower_char s"

definition EqualFold :: "string \<Rightarrow> string \<Rightarrow> bool" where
  "EqualFold s t \<longleftrightarrow> ToLower s = ToLower t"

definition decimal_digits :: string where
  "decimal_digits = ''0123456789''"

definition is_digit :: "char \<Rightarrow> bool" where
  "is_digit c \<longleftrightarrow> List.member decimal_digits c"

fun digits_of :: "nat \<Rightarrow> string" where
  "digits_of n =
     (if n < 10 then [decimal_digits ! n]
      else digits_of (n div 10) @ [decimal_digits ! (n mod 10)])"

declare digits_of.simps [simp del]

definition FormatInt :: "int \<Rightarrow> string" where
  "FormatInt i = (if i < 0 then CHR ''-'' # digits_of (nat (- i)) else digits_of (nat i))"

section \<open>UTF-8, as unicode/utf8 decodes it\<close>

abbreviation (input) byte :: "char \<Rightarrow> nat" where
  "byte c \<equiv> of_char c"

definition cont :: "nat \<Rightarrow> nat \<Rightarrow> char \<Rightarrow> bool" where
  "cont lo hi c \<longleftrightarrow> lo \<le> byte c \<and> byte c \<le> hi"

definition RuneError :: nat where
  "RuneError = 0xFFFD"

text \<open>
  \<open>decode_rune b s\<close> decodes the rune that starts at byte \<open>b\<close>, followed by \<open>s\<close>: the code
  point and how many bytes of \<open>s\<close> belong to it. An invalid or truncated sequence is
  \<open>RuneError\<close> of width one.
\<close>

definition decode_rune :: "char \<Rightarrow> string \<Rightarrow> nat \<times> nat" where
  "decode_rune b s =
     (let n = byte b; bad = (RuneError, 0) in
      if n < 0x80 then (n, 0)
      else if 0xC2 \<le> n \<and> n \<le> 0xDF then
        (case s of c1 # _ \<Rightarrow>
           if cont 0x80 0xBF c1 then ((n - 0xC0) * 64 + (byte c1 - 0x80), 1) else bad
         | [] \<Rightarrow> bad)
      else if 0xE0 \<le> n \<and> n \<le> 0xEF then
        (case s of c1 # c2 # _ \<Rightarrow>
           if cont (if n = 0xE0 then 0xA0 else 0x80) (if n = 0xED then 0x9F else 0xBF) c1
              \<and> cont 0x80 0xBF c2
           then ((n - 0xE0) * 4096 + (byte c1 - 0x80) * 64 + (byte c2 - 0x80), 2) else bad
         | _ \<Rightarrow> bad)
      else if 0xF0 \<le> n \<and> n \<le> 0xF4 then
        (case s of c1 # c2 # c3 # _ \<Rightarrow>
           if cont (if n = 0xF0 then 0x90 else 0x80) (if n = 0xF4 then 0x8F else 0xBF) c1
              \<and> cont 0x80 0xBF c2 \<and> cont 0x80 0xBF c3
           then ((n - 0xF0) * 262144 + (byte c1 - 0x80) * 4096 + (byte c2 - 0x80) * 64
                 + (byte c3 - 0x80), 3)
           else bad
         | _ \<Rightarrow> bad)
      else bad)"

text \<open>The runes of a string, each with the bytes it was decoded from.\<close>

fun rune_chunks :: "string \<Rightarrow> (nat \<times> string) list" where
  "rune_chunks [] = []"
| "rune_chunks (b # s) =
     (let (r, k) = decode_rune b s in (r, b # take k s) # rune_chunks (drop k s))"

definition runes :: "string \<Rightarrow> nat list" where
  "runes s = map fst (rune_chunks s)"

definition is_space_rune :: "nat \<Rightarrow> bool" where
  "is_space_rune r \<longleftrightarrow>
     List.member [0x09, 0x0A, 0x0B, 0x0C, 0x0D, 0x20, 0x85, 0xA0, 0x1680, 0x2028, 0x2029, 0x202F,
       0x205F, 0x3000] r \<or> 0x2000 \<le> r \<and> r \<le> 0x200A"

definition TrimSpace :: "string \<Rightarrow> string" where
  "TrimSpace s =
     concat (map snd (rev (dropWhile (is_space_rune \<circ> fst) (rev
       (dropWhile (is_space_rune \<circ> fst) (rune_chunks s))))))"

fun fields_of :: "(nat \<times> string) list \<Rightarrow> string \<Rightarrow> string list" where
  "fields_of [] cur = (if cur = [] then [] else [cur])"
| "fields_of ((r, b) # cs) cur =
     (if is_space_rune r then (if cur = [] then [] else [cur]) @ fields_of cs []
      else fields_of cs (cur @ b))"

definition Fields :: "string \<Rightarrow> string list" where
  "Fields s = fields_of (rune_chunks s) []"

section \<open>Lemmas on the string library\<close>

lemma HasPrefix_iff: "HasPrefix s p \<longleftrightarrow> (\<exists>t. s = p @ t)"
  by (simp add: HasPrefix_def prefix_def)

lemma HasSuffix_iff: "HasSuffix s p \<longleftrightarrow> (\<exists>t. s = t @ p)"
  by (simp add: HasSuffix_def suffix_to_prefix [symmetric] suffix_def)

lemma HasPrefix_append [simp]: "HasPrefix (p @ t) p"
  by (simp add: HasPrefix_iff)

lemma HasSuffix_append [simp]: "HasSuffix (t @ p) p"
  by (simp add: HasSuffix_iff)

lemma HasPrefix_Nil [simp]: "HasPrefix s []"
  by (simp add: HasPrefix_iff)

lemma TrimPrefix_append [simp]: "TrimPrefix (p @ t) p = t"
  by (simp add: TrimPrefix_def)

lemma TrimSuffix_append [simp]: "TrimSuffix (t @ p) p = t"
  by (simp add: TrimSuffix_def)

lemma TrimPrefix_id: "\<not> HasPrefix s p \<Longrightarrow> TrimPrefix s p = s"
  by (simp add: TrimPrefix_def)

lemma Split_neq_Nil [simp]: "Split s c \<noteq> []"
  by (cases s) (auto split: list.splits)

lemma Split_no_sep: "c \<notin> set s \<Longrightarrow> Split s c = [s]"
  by (induction s) auto

lemma Split_append: "c \<notin> set p \<Longrightarrow> Split (p @ c # s) c = p # Split s c"
  by (induction p) auto

lemma Split_parts: "p \<in> set (Split s c) \<Longrightarrow> c \<notin> set p \<and> set p \<subseteq> set s"
proof (induction s arbitrary: p)
  case (Cons x s)
  then show ?case
    by (cases "Split s c") (fastforce split: if_splits)+
qed simp

lemma Join_Cons: "ps \<noteq> [] \<Longrightarrow> Join (p # ps) sep = p @ sep @ Join ps sep"
  by (cases ps) auto

lemma Join_Split: "Join (Split s c) [c] = s"
proof (induction s)
  case (Cons x s)
  obtain p ps where "Split s c = p # ps"
    by (cases "Split s c") auto
  with Cons show ?case
    by (cases ps) auto
qed simp

lemma Split_Join:
  "ps \<noteq> [] \<Longrightarrow> \<forall>p \<in> set ps. c \<notin> set p \<Longrightarrow> Split (Join ps [c]) c = ps"
proof (induction ps)
  case (Cons p ps)
  then show ?case
    by (cases "ps = []") (auto simp: Join_Cons Split_append Split_no_sep)
qed simp

lemma set_Join: "set (Join ps sep) \<subseteq> \<Union> (set ` set ps) \<union> set sep"
  by (induction ps sep rule: Join.induct) auto

lemma Cut_found: "c \<notin> set a \<Longrightarrow> Cut (a @ c # b) c = (a, b, True)"
proof -
  assume "c \<notin> set a"
  then have "dropWhile (\<lambda>x. x \<noteq> c) (a @ c # b) = c # b"
    and "takeWhile (\<lambda>x. x \<noteq> c) (a @ c # b) = a"
    by (subst dropWhile_append2 takeWhile_append2; auto)+
  then show ?thesis by (simp add: Cut_def)
qed

lemma Cut_absent: "c \<notin> set s \<Longrightarrow> Cut s c = (s, [], False)"
proof -
  assume "c \<notin> set s"
  then have "dropWhile (\<lambda>x. x \<noteq> c) s = []" by auto
  then show ?thesis by (simp only: Cut_def list.case)
qed

lemma Cut_cases:
  obtains (absent) "c \<notin> set s" "Cut s c = (s, [], False)"
  | (found) a b where "s = a @ c # b" "c \<notin> set a" "Cut s c = (a, b, True)"
  by (metis Cut_absent Cut_found split_list_first)

lemma Index_Some: "Index s sub = Some i \<Longrightarrow> i \<le> length s \<and> prefix sub (drop i s)"
  by (induction s sub arbitrary: i rule: Index.induct) (auto split: if_splits)

lemma Index_first: "Index s sub = Some i \<Longrightarrow> j < i \<Longrightarrow> \<not> prefix sub (drop j s)"
proof (induction s sub arbitrary: i j rule: Index.induct)
  case (2 c s sub)
  then show ?case
    by (cases j) (auto split: if_splits)
qed (auto split: if_splits)

lemma Index_None: "Index s sub = None \<longleftrightarrow> \<not> sublist sub s"
proof (induction s sub rule: Index.induct)
  case (1 sub)
  then show ?case by (cases sub) auto
next
  case (2 c s sub)
  then show ?case by (auto simp: sublist_Cons_right)
qed

lemma Contains_iff: "Contains s sub \<longleftrightarrow> sublist sub s"
  by (simp add: Contains_def Index_None del: not_None_eq)

lemma ContainsAny_iff: "ContainsAny s cs \<longleftrightarrow> set s \<inter> set cs \<noteq> {}"
  by (auto simp: ContainsAny_def list_ex_iff)

lemma LastIndexByte_None: "LastIndexByte s c = None \<longleftrightarrow> c \<notin> set s"
  by (induction s) (auto split: option.splits)

lemma LastIndexByte_append:
  "c \<notin> set b \<Longrightarrow> LastIndexByte (a @ c # b) c = Some (length a)"
  by (induction a) (auto split: option.splits simp: LastIndexByte_None)

lemma LastIndexByte_Some:
  "LastIndexByte s c = Some i \<Longrightarrow> i < length s \<and> s ! i = c \<and> c \<notin> set (drop (Suc i) s)"
proof (induction s arbitrary: i)
  case (Cons x s)
  then show ?case
    by (cases i) (auto split: option.splits if_splits simp: LastIndexByte_None)
qed simp

lemma concat_rune_chunks: "concat (map snd (rune_chunks s)) = s"
proof (induction s rule: rune_chunks.induct)
  case (2 b s)
  obtain r k where "decode_rune b s = (r, k)" by (cases "decode_rune b s")
  with 2 show ?case by simp
qed simp

lemma rune_chunks_ascii:
  "\<forall>c \<in> set s. byte c < 0x80 \<Longrightarrow> rune_chunks s = map (\<lambda>c. (byte c, [c])) s"
  by (induction s) (auto simp: decode_rune_def)

lemma runes_ascii: "\<forall>c \<in> set s. byte c < 0x80 \<Longrightarrow> runes s = map of_char s"
  by (simp add: runes_def rune_chunks_ascii comp_def)

lemma runes_Nil [simp]: "runes s = [] \<longleftrightarrow> s = []"
  by (cases s) (auto simp: runes_def split: prod.splits)

lemma runes_ascii_inject:
  assumes "\<forall>c \<in> set s. byte c < 0x80" and "\<forall>c \<in> set t. byte c < 0x80"
  shows "runes s = runes t \<longleftrightarrow> s = t"
proof -
  have "inj (of_char :: char \<Rightarrow> nat)" by (rule inj_of_char)
  then show ?thesis using assms by (simp add: runes_ascii inj_map_eq_map)
qed

section \<open>Go maps as association lists\<close>

lemma distinct_keys_update:
  "distinct (map fst m) \<Longrightarrow> distinct (map fst (AList.update k v m))"
  by (simp add: distinct_update)

lemma length_update:
  "length (AList.update k v m) = (if k \<in> fst ` set m then length m else Suc (length m))"
  by (induction m) auto

lemma map_of_update [simp]: "map_of (AList.update k v m) k' = (if k' = k then Some v else map_of m k')"
  by (simp add: update_conv')

lemma map_of_delete [simp]: "map_of (AList.delete k m) k' = (if k' = k then None else map_of m k')"
  by (simp add: delete_conv')

lemmas go_string_defs [go_eval] =
  HasPrefix_def HasSuffix_def TrimPrefix_def TrimSuffix_def TrimLeft_def TrimRight_def Trim_def
  Cut_def CutPrefix_def Contains_def ContainsAny_def ToLower_def lower_char_def upper_letters_def
  lower_letters_def EqualFold_def is_digit_def decimal_digits_def FormatInt_def digits_of.simps
  TrimSpace_def decode_rune_def is_space_rune_def Fields_def cont_def RuneError_def runes_def

end
