(* ===== verification/GoRegexp.thy ===== *)
theory GoRegexp
  imports Prelude
begin

text \<open>
  The regular expressions the program compiles, with the matching Go's package regexp
  gives them: leftmost-first, so a greedy repetition prefers more, a lazy one prefers less and
  an alternative prefers its left branch. Every repetition in the program is over a single
  character class, which is why \<open>Rep\<close> takes a class. \<open>re_run e s\<close> lists every way \<open>e\<close>
  can match a prefix of \<open>s\<close>, in the order of preference: the captured groups, what was
  consumed and what is left. \<open>re_match\<close> is the match of \<open>^e$\<close>. \<open>re_lang\<close> is the
  language of the expression, against which the matcher is proved sound and complete.
\<close>

datatype (dead 'a) re =
    Eps
  | Cls "'a \<Rightarrow> bool"
  | Rep bool nat "'a \<Rightarrow> bool"
  | Cat "'a re" "'a re"
  | Alt "'a re" "'a re"
  | Opt "'a re"
  | Grp nat "'a re"

type_synonym 'a captures = "(nat \<times> 'a list) list"

definition rep_counts :: "bool \<Rightarrow> nat \<Rightarrow> ('a \<Rightarrow> bool) \<Rightarrow> 'a list \<Rightarrow> nat list" where
  "rep_counts greedy lo p s =
     (let ks = [lo..<Suc (length (takeWhile p s))] in if greedy then rev ks else ks)"

primrec re_run :: "'a re \<Rightarrow> 'a list \<Rightarrow> ('a captures \<times> 'a list \<times> 'a list) list" where
  "re_run Eps s = [([], [], s)]"
| "re_run (Cls p) s = (case s of [] \<Rightarrow> [] | c # r \<Rightarrow> if p c then [([], [c], r)] else [])"
| "re_run (Rep greedy lo p) s = map (\<lambda>k. ([], take k s, drop k s)) (rep_counts greedy lo p s)"
| "re_run (Cat a b) s =
     concat (map (\<lambda>(c1, u1, r1). map (\<lambda>(c2, u2, r2). (c1 @ c2, u1 @ u2, r2)) (re_run b r1))
       (re_run a s))"
| "re_run (Alt a b) s = re_run a s @ re_run b s"
| "re_run (Opt a) s = re_run a s @ [([], [], s)]"
| "re_run (Grp n a) s = map (\<lambda>(c, u, r). ((n, u) # c, u, r)) (re_run a s)"

definition re_match :: "'a re \<Rightarrow> 'a list \<Rightarrow> 'a captures option" where
  "re_match e s = map_option fst (find (\<lambda>(c, u, r). r = []) (re_run e s))"

definition re_matches :: "'a re \<Rightarrow> 'a list \<Rightarrow> bool" where
  "re_matches e s \<longleftrightarrow> re_match e s \<noteq> None"

fun re_seq :: "'a re list \<Rightarrow> 'a re" where
  "re_seq [] = Eps"
| "re_seq (e # es) = Cat e (re_seq es)"

definition re_lit :: "'a list \<Rightarrow> 'a re" where
  "re_lit s = re_seq (map (\<lambda>c. Cls (\<lambda>x. x = c)) s)"

section \<open>The language of an expression\<close>

primrec re_lang :: "'a re \<Rightarrow> 'a list \<Rightarrow> bool" where
  "re_lang Eps w \<longleftrightarrow> w = []"
| "re_lang (Cls p) w \<longleftrightarrow> (\<exists>c. w = [c] \<and> p c)"
| "re_lang (Rep greedy lo p) w \<longleftrightarrow> lo \<le> length w \<and> list_all p w"
| "re_lang (Cat a b) w \<longleftrightarrow> (\<exists>u v. w = u @ v \<and> re_lang a u \<and> re_lang b v)"
| "re_lang (Alt a b) w \<longleftrightarrow> re_lang a w \<or> re_lang b w"
| "re_lang (Opt a) w \<longleftrightarrow> re_lang a w \<or> w = []"
| "re_lang (Grp n a) w \<longleftrightarrow> re_lang a w"

lemma set_rep_counts: "k \<in> set (rep_counts g lo p s) \<longleftrightarrow> lo \<le> k \<and> k \<le> length (takeWhile p s)"
  by (auto simp: rep_counts_def Let_def)

lemma take_le_takeWhile: "k \<le> length (takeWhile p s) \<Longrightarrow> list_all p (take k s)"
proof -
  assume k: "k \<le> length (takeWhile p s)"
  have "take k s = take k (takeWhile p s)"
    using k by (metis takeWhile_eq_take take_take min.absorb1)
  then show ?thesis
    by (auto simp: list_all_iff dest: in_set_takeD set_takeWhileD)
qed

lemma length_takeWhile_append: "list_all p u \<Longrightarrow> length u \<le> length (takeWhile p (u @ r))"
  by (induction u) auto

lemma re_run_sound: "(c, u, r) \<in> set (re_run e s) \<Longrightarrow> re_lang e u \<and> s = u @ r"
proof (induction e arbitrary: c u r s)
  case (Cls p)
  then show ?case by (auto split: list.splits if_splits)
next
  case (Rep g lo p)
  then obtain k where k: "k \<in> set (rep_counts g lo p s)" "u = take k s" "r = drop k s"
    by auto
  moreover have "length (takeWhile p s) \<le> length s"
    by (rule length_takeWhile_le)
  ultimately show ?case
    by (auto simp: set_rep_counts take_le_takeWhile)
next
  case (Cat a b)
  then show ?case by fastforce
qed fastforce+

lemma re_run_complete: "re_lang e u \<Longrightarrow> \<exists>c. (c, u, r) \<in> set (re_run e (u @ r))"
proof (induction e arbitrary: u r)
  case (Rep g lo p)
  then have "length u \<in> set (rep_counts g lo p (u @ r))"
    by (simp add: set_rep_counts length_takeWhile_append)
  then show ?case by (force simp: image_iff)
next
  case (Cat a b)
  then obtain v w where u: "u = v @ w" and "re_lang a v" "re_lang b w" by auto
  then obtain c1 c2 where "(c1, v, w @ r) \<in> set (re_run a (v @ w @ r))"
    and "(c2, w, r) \<in> set (re_run b (w @ r))"
    using Cat.IH by blast
  then show ?case using u by (force intro!: bexI)
next
  case (Alt a b)
  then have "(\<exists>c. (c, u, r) \<in> set (re_run a (u @ r))) \<or> (\<exists>c. (c, u, r) \<in> set (re_run b (u @ r)))"
    by auto
  then show ?case by auto
next
  case (Grp n a)
  then obtain c where "(c, u, r) \<in> set (re_run a (u @ r))" by auto
  then have "((n, u) # c, u, r) \<in> set (re_run (Grp n a) (u @ r))" by force
  then show ?case by blast
qed auto

theorem re_matches_iff: "re_matches e s \<longleftrightarrow> re_lang e s"
proof
  assume "re_matches e s"
  then obtain c u where "(c, u, []) \<in> set (re_run e s)"
    by (auto simp: re_matches_def re_match_def find_Some_iff in_set_conv_nth)
  then show "re_lang e s" by (auto dest: re_run_sound)
next
  assume "re_lang e s"
  then obtain c where "(c, s, []) \<in> set (re_run e s)"
    using re_run_complete [of e s "[]"] by auto
  then show "re_matches e s"
    by (force simp: re_matches_def re_match_def find_None_iff)
qed

lemma re_match_run: "re_match e s = Some c \<Longrightarrow> \<exists>u. (c, u, []) \<in> set (re_run e s)"
  by (auto simp: re_match_def find_Some_iff in_set_conv_nth) (metis nth_mem)

lemma re_lang_Cat_Cls:
  "re_lang (Cat (Cls p) e) t \<longleftrightarrow> (case t of [] \<Rightarrow> False | c # t' \<Rightarrow> p c \<and> re_lang e t')"
proof -
  have "re_lang (Cat (Cls p) e) t \<longleftrightarrow> (\<exists>c v. t = c # v \<and> p c \<and> re_lang e v)"
    by (auto intro: exI [of _ "[_]"])
  then show ?thesis by (auto split: list.splits)
qed

lemma re_lang_star:
  "re_lang (Cat (Rep g 0 p) e) t \<longleftrightarrow>
     re_lang e t \<or> (case t of [] \<Rightarrow> False | c # t' \<Rightarrow> p c \<and> re_lang (Cat (Rep g 0 p) e) t')"
  (is "?L t \<longleftrightarrow> _")
proof
  assume "?L t"
  then obtain u v where t: "t = u @ v" and u: "list_all p u" and v: "re_lang e v" by auto
  show "re_lang e t \<or> (case t of [] \<Rightarrow> False | c # t' \<Rightarrow> p c \<and> ?L t')"
  proof (cases u)
    case Nil
    with t v show ?thesis by simp
  next
    case (Cons c u')
    with u have "p c" and "list_all p u'" by simp_all
    moreover from this v have "?L (u' @ v)" by auto
    ultimately show ?thesis using t Cons by simp
  qed
next
  assume r: "re_lang e t \<or> (case t of [] \<Rightarrow> False | c # t' \<Rightarrow> p c \<and> ?L t')"
  show "?L t"
  proof (cases "re_lang e t")
    case True
    then have "t = [] @ t \<and> re_lang (Rep g 0 p) [] \<and> re_lang e t" by simp
    then show ?thesis unfolding re_lang.simps(4) by blast
  next
    case False
    with r obtain c t' u v where "t = c # t'" "p c" "t' = u @ v" "list_all p u" "re_lang e v"
      by (auto split: list.splits)
    then have "t = (c # u) @ v \<and> re_lang (Rep g 0 p) (c # u) \<and> re_lang e v" by simp
    then show ?thesis unfolding re_lang.simps(4) by blast
  qed
qed

lemma re_lang_lit [simp]: "re_lang (re_lit s) w \<longleftrightarrow> w = s"
  unfolding re_lit_def by (induction s arbitrary: w) auto

lemma re_lang_CatI: "re_lang a u \<Longrightarrow> re_lang b v \<Longrightarrow> re_lang (Cat a b) (u @ v)"
  by auto

section \<open>Which match is preferred\<close>

lemma find_concat:
  "find P (concat (map f xs)) =
     (case find (\<lambda>x. find P (f x) \<noteq> None) xs of None \<Rightarrow> None | Some x \<Rightarrow> find P (f x))"
proof (induction xs)
  case (Cons x xs)
  have app: "find P (ys @ zs) = (case find P ys of Some y \<Rightarrow> Some y | None \<Rightarrow> find P zs)" for ys zs
    by (induction ys) auto
  show ?case using Cons by (auto simp: app split: option.split)
qed simp

lemma find_map: "find P (map f xs) = map_option f (find (P \<circ> f) xs)"
  by (induction xs) auto

text \<open>A group over a repetition followed by e: the first count in the order of preference
  after which e matches the rest.\<close>

lemma re_match_group:
  "re_match (Cat (Grp n (Rep g lo p)) e) s =
     (case find (\<lambda>k. re_matches e (drop k s)) (rep_counts g lo p s) of
        None \<Rightarrow> None
      | Some k \<Rightarrow> map_option ((#) (n, take k s)) (re_match e (drop k s)))"
proof -
  let ?f = "\<lambda>k. map (\<lambda>(c2, u2, r2). ((n, take k s) # c2, take k s @ u2, r2)) (re_run e (drop k s))"
  have run: "re_run (Cat (Grp n (Rep g lo p)) e) s = concat (map ?f (rep_counts g lo p s))"
    by (simp add: comp_def)
  have step: "map_option fst (find (\<lambda>(c, u, r). r = []) (?f k)) =
      map_option ((#) (n, take k s)) (re_match e (drop k s))" for k
  proof -
    have eq: "(\<lambda>(c, u, r). r = []) \<circ> (\<lambda>(c2, u2, r2). ((n, take k s) # c2, take k s @ u2, r2)) =
      (\<lambda>(c, u, r). r = [])" by auto
    show ?thesis
      unfolding re_match_def find_map eq by (simp add: option.map_comp comp_def case_prod_beta)
  qed
  then have "find (\<lambda>(c, u, r). r = []) (?f k) \<noteq> None \<longleftrightarrow> re_matches e (drop k s)" for k
    by (metis (no_types, lifting) option.map_disc_iff re_matches_def)
  then show ?thesis
    unfolding re_match_def [of "Cat _ _"] run find_concat
    using step by (simp split: option.split)
qed

text \<open>A greedy repetition prefers the largest count that works.\<close>

lemma find_rep_greedy:
  assumes "k \<in> set (rep_counts True lo p s)" and "P k" and "\<And>j. k < j \<Longrightarrow> \<not> P j"
  shows "find P (rep_counts True lo p s) = Some k"
proof -
  let ?ks = "rep_counts True lo p s"
  have desc: "sorted_wrt (>) ?ks" by (simp add: rep_counts_def Let_def sorted_wrt_rev del: upt_Suc)
  obtain l where l: "l < length ?ks" "?ks ! l = k" using assms(1) by (metis in_set_conv_nth)
  have "\<not> P (?ks ! j)" if "j < l" for j
    using desc l that assms(3) by (metis sorted_wrt_iff_nth_less)
  with l assms(2) show ?thesis by (auto simp: find_Some_iff)
qed

lemma re_run_lit: "(c, u, r) \<in> set (re_run (re_lit l) s) \<Longrightarrow> c = [] \<and> u = l \<and> s = l @ r"
  unfolding re_lit_def
  by (induction l arbitrary: c u r s) (force split: list.splits if_splits)+

lemmas re_eval [go_eval] = re_match_def rep_counts_def re_lit_def re_matches_def

end
