(* ===== verification/GoFloat.thy ===== *)
theory GoFloat
  imports Prelude Complex_Main
begin

text \<open>
  float64 values as the program uses them: it compares severities and thresholds and prints
  them with \<open>%.1f\<close>, so a value is a rational number, an infinity or NaN, and comparisons with NaN
  are false. The sign of a zero is not kept.
\<close>

datatype float64 = NaN | NegInf | Fin rat | PosInf

fun f64_less :: "float64 \<Rightarrow> float64 \<Rightarrow> bool" where
  "f64_less NaN y = False"
| "f64_less x NaN = False"
| "f64_less (Fin a) (Fin b) = (a < b)"
| "f64_less NegInf y = (y \<noteq> NegInf)"
| "f64_less (Fin a) y = (y = PosInf)"
| "f64_less PosInf y = False"

definition f64_le :: "float64 \<Rightarrow> float64 \<Rightarrow> bool" where
  "f64_le x y \<longleftrightarrow> f64_less x y \<or> x = y \<and> x \<noteq> NaN"

definition round_half_even :: "rat \<Rightarrow> int" where
  "round_half_even x =
     (let f = floor x; d = x - of_int f in
      if d < 1 / 2 then f else if d > 1 / 2 then f + 1 else if even f then f else f + 1)"

fun fmt_f1 :: "float64 \<Rightarrow> string" where
  "fmt_f1 NaN = ''NaN''"
| "fmt_f1 NegInf = ''-Inf''"
| "fmt_f1 PosInf = ''+Inf''"
| "fmt_f1 (Fin q) =
     (let n = nat (round_half_even (\<bar>q\<bar> * 10)) in
      (if q < 0 then ''-'' else []) @ digits_of (n div 10) @ ''.'' @ [decimal_digits ! (n mod 10)])"

lemma f64_less_irrefl [simp]: "\<not> f64_less x x"
  by (cases x) auto

lemma f64_less_trans: "f64_less x y \<Longrightarrow> f64_less y z \<Longrightarrow> f64_less x z"
  by (cases x; cases y; cases z) auto

lemma f64_le_refl: "x \<noteq> NaN \<Longrightarrow> f64_le x x"
  by (simp add: f64_le_def)

lemma f64_le_trans: "f64_le x y \<Longrightarrow> f64_le y z \<Longrightarrow> f64_le x z"
  by (auto simp: f64_le_def dest: f64_less_trans)

lemma f64_le_less_trans: "f64_le x y \<Longrightarrow> f64_less y z \<Longrightarrow> f64_less x z"
  by (auto simp: f64_le_def dest: f64_less_trans)

lemma f64_less_imp_le: "f64_less x y \<Longrightarrow> f64_le x y"
  by (simp add: f64_le_def)

lemma f64_not_less: "x \<noteq> NaN \<Longrightarrow> y \<noteq> NaN \<Longrightarrow> \<not> f64_less x y \<longleftrightarrow> f64_le y x"
  by (cases x; cases y) (auto simp: f64_le_def)

lemma f64_le_not_NaN: "f64_le x y \<Longrightarrow> x \<noteq> NaN \<and> y \<noteq> NaN"
  by (cases x; cases y) (auto simp: f64_le_def)

lemma f64_less_not_NaN: "f64_less x y \<Longrightarrow> x \<noteq> NaN \<and> y \<noteq> NaN"
  by (cases x; cases y) auto

end
