(* ===== verification/Policy.thy ===== *)
theory Policy
  imports GoRegexp GoFloat
begin

text \<open>
  internal/policy/policy.go: packages, decisions and advisories, the compilation of a
  PURL glob into a regular expression, the rule engine (\<open>New\<close>, \<open>Load\<close>, \<open>Evaluate\<close>) with its
  release cooldown, and \<open>ExemptsMalware\<close>. Reading a file and decoding its YAML are parameters
  (\<open>read_file\<close>, \<open>unmarshal\<close>, \<open>parse_duration\<close>); the clock is the argument \<open>now\<close>.
  The lemmas show that the compiled glob is glob matching, that deny rules take
  precedence, when the cooldown blocks and when it ends, and that an allow rule exempting
  malware names exactly the package it matched.
\<close>

type_synonym Action = string
type_synonym BlockKind = string

definition ActionAllow :: Action where "ActionAllow = ''allow''"
definition ActionWarn :: Action where "ActionWarn = ''warn''"
definition ActionBlock :: Action where "ActionBlock = ''block''"
definition ActionMonitor :: Action where "ActionMonitor = ''monitor''"
definition ActionUnknown :: Action where "ActionUnknown = ''unknown''"

lemmas Action_defs [go_eval] =
  ActionAllow_def ActionWarn_def ActionBlock_def ActionMonitor_def ActionUnknown_def

definition KindPolicyRule :: BlockKind where "KindPolicyRule = ''policy_rule''"
definition KindCooldown :: BlockKind where "KindCooldown = ''cooldown''"
definition KindUnknownPackage :: BlockKind where "KindUnknownPackage = ''unknown_package''"
definition KindVulnerability :: BlockKind where "KindVulnerability = ''vulnerability''"
definition KindMalware :: BlockKind where "KindMalware = ''malware''"
definition KindIntelError :: BlockKind where "KindIntelError = ''intel_error''"

lemmas Kind_defs [go_eval] =
  KindPolicyRule_def KindCooldown_def KindUnknownPackage_def KindVulnerability_def
  KindMalware_def KindIntelError_def

record Package =
  pkg_Ecosystem :: string
  pkg_Name :: string
  pkg_Version :: string
  pkg_PURL :: string
  pkg_PublishedAt :: time

record Advisory =
  adv_ID :: string
  adv_Aliases :: "string list"
  adv_Summary :: string
  adv_Severity :: float64
  adv_Threshold :: float64
  adv_Affected :: "string list"
  adv_Fixed :: "string list"
  adv_URL :: string

record Decision =
  dec_Action :: Action
  dec_Reason :: string
  dec_MatchedRule :: string
  dec_Kind :: BlockKind
  dec_Advisory :: "Advisory option"
  dec_AllowedAfter :: time

record CooldownConfig =
  cd_Enabled :: bool
  cd_MinAge :: duration

record policy_Config =
  pc_Allow :: "string list"
  pc_Warn :: "string list"
  pc_Deny :: "string list"
  pc_Cooldown :: CooldownConfig

record engineRule =
  rule_action :: Action
  rule_pattern :: string
  rule_re :: "nat re"

record Engine =
  eng_rules :: "engineRule list"
  eng_cooldown :: CooldownConfig

text \<open>Go's zero values.\<close>

definition emptyPackage :: Package where
  "emptyPackage = \<lparr>pkg_Ecosystem = [], pkg_Name = [], pkg_Version = [], pkg_PURL = [],
     pkg_PublishedAt = 0\<rparr>"

definition plainDecision :: "Action \<Rightarrow> string \<Rightarrow> BlockKind \<Rightarrow> Decision" where
  "plainDecision a reason kind =
     \<lparr>dec_Action = a, dec_Reason = reason, dec_MatchedRule = [], dec_Kind = kind,
      dec_Advisory = None, dec_AllowedAfter = 0\<rparr>"

definition emptyConfig :: policy_Config where
  "emptyConfig = \<lparr>pc_Allow = [], pc_Warn = [], pc_Deny = [],
     pc_Cooldown = \<lparr>cd_Enabled = False, cd_MinAge = 0\<rparr>\<rparr>"

section \<open>Decoding the cooldown\<close>

text \<open>What a YAML scalar of type \<open>any\<close> can hold.\<close>

datatype yaml_any = YNil | YInt int | YString string | YOther string

definition CooldownConfig_UnmarshalYAML ::
  "(string \<Rightarrow> string + duration) \<Rightarrow> string + (bool \<times> yaml_any) \<Rightarrow> CooldownConfig
     \<Rightarrow> string + CooldownConfig" where
  "CooldownConfig_UnmarshalYAML parse_duration unmarshalled c =
     (case unmarshalled of
        Inl err \<Rightarrow> Inl err
      | Inr (enabled, minAge) \<Rightarrow>
          let c' = c\<lparr>cd_Enabled := enabled\<rparr> in
          (case minAge of
             YNil \<Rightarrow> Inr c'
           | YInt value \<Rightarrow> Inr (c'\<lparr>cd_MinAge := value\<rparr>)
           | YString value \<Rightarrow>
               (case parse_duration value of
                  Inl err \<Rightarrow> Inl err
                | Inr parsed \<Rightarrow> Inr (c'\<lparr>cd_MinAge := parsed\<rparr>))
           | YOther type_name \<Rightarrow> Inl (''unsupported cooldown.min_age type '' @ type_name)))"

section \<open>Globs\<close>

definition glob_atom :: "nat \<Rightarrow> nat re" where
  "glob_atom r =
     (if r = of_char (CHR ''*'') then Rep True 0 (\<lambda>c. c \<noteq> 10)
      else if r = of_char (CHR ''?'') then Cls (\<lambda>c. c \<noteq> 10)
      else Cls (\<lambda>c. c = r))"

definition compileGlob :: "string \<Rightarrow> string + nat re" where
  "compileGlob pattern =
     (if TrimSpace pattern = [] then Inl ''empty pattern''
      else Inr (re_seq (map glob_atom (runes pattern))))"

definition MatchString :: "nat re \<Rightarrow> string \<Rightarrow> bool" where
  "MatchString e s \<longleftrightarrow> re_matches e (runes s)"

section \<open>The engine\<close>

text \<open>One rejected pattern of the joined error: the action, the pattern and the cause.\<close>

type_synonym rule_error = "Action \<times> string \<times> string"

fun add_rules :: "Action \<Rightarrow> string list \<Rightarrow> engineRule list \<times> rule_error list
    \<Rightarrow> engineRule list \<times> rule_error list" where
  "add_rules action [] acc = acc"
| "add_rules action (pattern # patterns) (rules, errs) =
     (case compileGlob pattern of
        Inl err \<Rightarrow> add_rules action patterns
          (rules, errs @ [(action, pattern, err)])
      | Inr e \<Rightarrow> add_rules action patterns
          (rules @ [\<lparr>rule_action = action, rule_pattern = pattern, rule_re = e\<rparr>], errs))"

text \<open>The engine, and the errors joined into the returned error (none: it is nil).\<close>

definition policy_New :: "policy_Config \<Rightarrow> Engine \<times> rule_error list" where
  "policy_New cfg =
     (let acc = add_rules ActionBlock (pc_Deny cfg) ([], []);
          acc = add_rules ActionAllow (pc_Allow cfg) acc;
          (rules, errs) = add_rules ActionWarn (pc_Warn cfg) acc;
          cd = pc_Cooldown cfg;
          cd = (if cd_MinAge cd = 0 then cd\<lparr>cd_MinAge := 24 * nsHour\<rparr> else cd)
      in (\<lparr>eng_rules = rules, eng_cooldown = cd\<rparr>, errs))"

definition merge_config :: "policy_Config \<Rightarrow> policy_Config \<Rightarrow> policy_Config" where
  "merge_config merged cfg =
     \<lparr>pc_Allow = pc_Allow merged @ pc_Allow cfg,
      pc_Warn = pc_Warn merged @ pc_Warn cfg,
      pc_Deny = pc_Deny merged @ pc_Deny cfg,
      pc_Cooldown = (if cd_Enabled (pc_Cooldown cfg) then pc_Cooldown cfg else pc_Cooldown merged)\<rparr>"

fun load_files :: "(string \<Rightarrow> string + string) \<Rightarrow> (string \<Rightarrow> string + policy_Config)
    \<Rightarrow> string list \<Rightarrow> policy_Config \<Rightarrow> string + policy_Config" where
  "load_files read_file unmarshal [] merged = Inr merged"
| "load_files read_file unmarshal (file # files) merged =
     (case read_file file of
        Inl err \<Rightarrow> Inl err
      | Inr raw \<Rightarrow>
          (case unmarshal raw of
             Inl err \<Rightarrow> Inl (file @ '': '' @ err)
           | Inr cfg \<Rightarrow> load_files read_file unmarshal files (merge_config merged cfg)))"

definition policy_Load :: "(string \<Rightarrow> string + string) \<Rightarrow> (string \<Rightarrow> string + policy_Config)
    \<Rightarrow> string list \<Rightarrow> string + (Engine \<times> rule_error list)" where
  "policy_Load read_file unmarshal files =
     (case load_files read_file unmarshal files emptyConfig of
        Inl err \<Rightarrow> Inl err
      | Inr merged \<Rightarrow> Inr (policy_New merged))"

definition ExemptsMalware :: "Decision \<Rightarrow> bool" where
  "ExemptsMalware d \<longleftrightarrow>
     dec_Action d = ActionAllow \<and> dec_MatchedRule d \<noteq> [] \<and> \<not> ContainsAny (dec_MatchedRule d) ''*?''"

definition CooldownEnabled :: "Engine \<Rightarrow> bool" where
  "CooldownEnabled e = cd_Enabled (eng_cooldown e)"

definition matching_rule :: "engineRule list \<Rightarrow> string \<Rightarrow> engineRule option" where
  "matching_rule rules purl = find (\<lambda>r. MatchString (rule_re r) purl) rules"

definition Evaluate :: "Engine \<Rightarrow> time \<Rightarrow> Package \<Rightarrow> Decision" where
  "Evaluate e now pkg =
     (if pkg_PURL pkg = [] then
        plainDecision ActionUnknown ''package version could not be identified'' KindUnknownPackage
      else
        (case matching_rule (eng_rules e) (pkg_PURL pkg) of
           Some r \<Rightarrow>
             (plainDecision (rule_action r) (''matched '' @ rule_action r @ '' policy'') KindPolicyRule)
               \<lparr>dec_MatchedRule := rule_pattern r\<rparr>
         | None \<Rightarrow>
             if cd_Enabled (eng_cooldown e) \<and> \<not> IsZero (pkg_PublishedAt pkg)
                \<and> time_Sub now (pkg_PublishedAt pkg) < cd_MinAge (eng_cooldown e)
             then (plainDecision ActionBlock ''package is newer than cooldown policy'' KindCooldown)
                    \<lparr>dec_AllowedAfter := pkg_PublishedAt pkg + cd_MinAge (eng_cooldown e)\<rparr>
             else plainDecision ActionAllow ''no policy rule matched'' []))"

section \<open>Glob matching\<close>

text \<open>The reference: \<open>*\<close> is any run of characters but newlines, \<open>?\<close> any one of them.\<close>

fun glob :: "nat list \<Rightarrow> nat list \<Rightarrow> bool" where
  "glob [] t \<longleftrightarrow> t = []"
| "glob (r # p) t \<longleftrightarrow>
     (if r = 42 then glob p t \<or> (case t of [] \<Rightarrow> False | c # t' \<Rightarrow> c \<noteq> 10 \<and> glob (r # p) t')
      else (case t of [] \<Rightarrow> False
            | c # t' \<Rightarrow> (if r = 63 then c \<noteq> 10 else c = r) \<and> glob p t'))"

lemma glob_atom_simps:
  "glob_atom 42 = Rep True 0 (\<lambda>c. c \<noteq> 10)"
  "glob_atom 63 = Cls (\<lambda>c. c \<noteq> 10)"
  "r \<noteq> 42 \<Longrightarrow> r \<noteq> 63 \<Longrightarrow> glob_atom r = Cls (\<lambda>c. c = r)"
  by (simp_all add: glob_atom_def)

lemma re_lang_glob: "re_lang (re_seq (map glob_atom p)) t \<longleftrightarrow> glob p t"
proof (induction p t rule: glob.induct)
  case (2 r p t)
  consider "r = 42" | "r = 63" | "r \<noteq> 42" "r \<noteq> 63" by blast
  then show ?case
  proof cases
    case 1
    have "re_lang (re_seq (map glob_atom (r # p))) t \<longleftrightarrow>
      re_lang (re_seq (map glob_atom p)) t \<or>
      (case t of [] \<Rightarrow> False
       | c # t' \<Rightarrow> c \<noteq> 10 \<and> re_lang (re_seq (map glob_atom (r # p))) t')"
      unfolding list.map re_seq.simps 1 glob_atom_simps by (rule re_lang_star)
    with 1 2(1,2) show ?thesis by (cases t) simp_all
  qed (use 2(3) in \<open>simp add: glob_atom_simps re_lang_Cat_Cls del: re_lang.simps split: list.split\<close>)+
qed simp

lemma glob_literal: "42 \<notin> set p \<Longrightarrow> 63 \<notin> set p \<Longrightarrow> glob p t \<longleftrightarrow> t = p"
proof (induction p arbitrary: t)
  case (Cons r p)
  then show ?case by (cases t) auto
qed simp

lemma MatchString_glob:
  "compileGlob pattern = Inr e \<Longrightarrow> MatchString e s \<longleftrightarrow> glob (runes pattern) (runes s)"
  by (auto simp: compileGlob_def MatchString_def re_matches_iff re_lang_glob split: if_splits)

lemma rune_of_ascii_byte:
  assumes "r \<in> set (runes s)" and "r < 0x80"
  shows "\<exists>c \<in> set s. of_char c = r"
  using assms unfolding runes_def
proof (induction s rule: rune_chunks.induct)
  case (2 b s)
  obtain q k where dec: "decode_rune b s = (q, k)" by (cases "decode_rune b s")
  show ?case
  proof (cases "r = q")
    case True
    have "q < 0x80 \<Longrightarrow> of_char b = q"
      using dec by (auto simp: decode_rune_def Let_def RuneError_def cont_def
          split: if_splits list.splits)
    with True 2(3) show ?thesis by auto
  next
    case False
    with 2(2) dec have "r \<in> set (map fst (rune_chunks (drop k s)))" by auto
    then obtain c where "c \<in> set (drop k s)" "of_char c = r"
      using 2(1) [OF dec [symmetric] refl] 2(3) by auto
    then show ?thesis by (auto dest: in_set_dropD)
  qed
qed simp

section \<open>The rules of an engine\<close>

definition rule_matches :: "string \<Rightarrow> string \<Rightarrow> bool" where
  "rule_matches pattern purl \<longleftrightarrow>
     (case compileGlob pattern of Inl _ \<Rightarrow> False | Inr e \<Rightarrow> MatchString e purl)"

definition rule_of :: "Action \<Rightarrow> string \<Rightarrow> engineRule" where
  "rule_of a p = \<lparr>rule_action = a, rule_pattern = p, rule_re = re_seq (map glob_atom (runes p))\<rparr>"

definition blank :: "string \<Rightarrow> bool" where
  "blank p \<longleftrightarrow> TrimSpace p = []"

lemma rule_of_sel [simp]:
  "rule_action (rule_of a p) = a" "rule_pattern (rule_of a p) = p"
  by (simp_all add: rule_of_def)

lemma MatchString_rule_of:
  "\<not> blank p \<Longrightarrow> MatchString (rule_re (rule_of a p)) purl \<longleftrightarrow> rule_matches p purl"
  by (simp add: rule_matches_def compileGlob_def blank_def rule_of_def)

lemma not_rule_matches_blank: "blank p \<Longrightarrow> \<not> rule_matches p purl"
  by (simp add: rule_matches_def compileGlob_def blank_def)

lemma rule_matches_glob:
  "rule_matches p purl \<longleftrightarrow> \<not> blank p \<and> glob (runes p) (runes purl)"
  by (auto simp: rule_matches_def blank_def compileGlob_def MatchString_def re_matches_iff
      re_lang_glob)

lemma add_rules_eq:
  "add_rules a ps (rs, es) =
     (rs @ map (rule_of a) (filter (\<lambda>p. \<not> blank p) ps),
      es @ map (\<lambda>p. (a, p, ''empty pattern'')) (filter blank ps))"
proof (induction ps arbitrary: rs es)
  case (Cons p ps)
  then show ?case
    by (cases "blank p") (simp_all add: compileGlob_def blank_def rule_of_def)
qed simp

lemma policy_New_rules:
  "eng_rules (fst (policy_New cfg)) =
     map (rule_of ActionBlock) (filter (\<lambda>p. \<not> blank p) (pc_Deny cfg)) @
     map (rule_of ActionAllow) (filter (\<lambda>p. \<not> blank p) (pc_Allow cfg)) @
     map (rule_of ActionWarn) (filter (\<lambda>p. \<not> blank p) (pc_Warn cfg))"
  by (simp add: policy_New_def add_rules_eq Let_def)

lemma find_append: "find P (xs @ ys) = (case find P xs of Some x \<Rightarrow> Some x | None \<Rightarrow> find P ys)"
  by (induction xs) auto

lemma matching_rule_append:
  "matching_rule (xs @ ys) purl =
     (case matching_rule xs purl of Some r \<Rightarrow> Some r | None \<Rightarrow> matching_rule ys purl)"
  by (simp add: matching_rule_def find_append split: option.split)

lemma matching_rule_map:
  "matching_rule (map (rule_of a) (filter (\<lambda>p. \<not> blank p) ps)) purl =
     map_option (rule_of a) (find (\<lambda>p. rule_matches p purl) ps)"
  by (induction ps)
    (auto simp: matching_rule_def MatchString_rule_of not_rule_matches_blank)

text \<open>
  What an engine promises, read off the configuration: the first deny pattern that matches
  blocks, then the first allow, then the first warn pattern decides, then the cooldown.
\<close>

definition ruledDecision :: "Action \<Rightarrow> string \<Rightarrow> Decision" where
  "ruledDecision a pattern =
     (plainDecision a (''matched '' @ a @ '' policy'') KindPolicyRule)\<lparr>dec_MatchedRule := pattern\<rparr>"

definition evaluate_spec :: "policy_Config \<Rightarrow> time \<Rightarrow> Package \<Rightarrow> Decision" where
  "evaluate_spec cfg now pkg =
     (let first = (\<lambda>ps. find (\<lambda>p. rule_matches p (pkg_PURL pkg)) ps);
          minAge = (if cd_MinAge (pc_Cooldown cfg) = 0 then 24 * nsHour
                    else cd_MinAge (pc_Cooldown cfg)) in
      if pkg_PURL pkg = [] then
        plainDecision ActionUnknown ''package version could not be identified'' KindUnknownPackage
      else case first (pc_Deny cfg) of Some p \<Rightarrow> ruledDecision ActionBlock p
      | None \<Rightarrow> (case first (pc_Allow cfg) of Some p \<Rightarrow> ruledDecision ActionAllow p
      | None \<Rightarrow> (case first (pc_Warn cfg) of Some p \<Rightarrow> ruledDecision ActionWarn p
      | None \<Rightarrow>
          if cd_Enabled (pc_Cooldown cfg) \<and> \<not> IsZero (pkg_PublishedAt pkg)
             \<and> time_Sub now (pkg_PublishedAt pkg) < minAge
          then (plainDecision ActionBlock ''package is newer than cooldown policy'' KindCooldown)
                 \<lparr>dec_AllowedAfter := pkg_PublishedAt pkg + minAge\<rparr>
          else plainDecision ActionAllow ''no policy rule matched'' [])))"

lemma policy_New_cooldown:
  "eng_cooldown (fst (policy_New cfg)) =
     (if cd_MinAge (pc_Cooldown cfg) = 0 then (pc_Cooldown cfg)\<lparr>cd_MinAge := 24 * nsHour\<rparr>
      else pc_Cooldown cfg)"
  by (simp add: policy_New_def add_rules_eq Let_def)

lemma Evaluate_policy_New:
  "Evaluate (fst (policy_New cfg)) now pkg = evaluate_spec cfg now pkg"
  by (simp add: Evaluate_def evaluate_spec_def policy_New_rules matching_rule_append
      matching_rule_map policy_New_cooldown ruledDecision_def Let_def split: option.split)

lemma find_matching:
  "p \<in> set ps \<Longrightarrow> rule_matches p purl \<Longrightarrow>
     \<exists>q \<in> set ps. find (\<lambda>p. rule_matches p purl) ps = Some q \<and> rule_matches q purl"
  by (induction ps) auto

lemma find_matchingD:
  "find (\<lambda>p. rule_matches p purl) ps = Some q \<Longrightarrow> q \<in> set ps \<and> rule_matches q purl"
  by (auto simp: find_Some_iff)

lemma ruledDecision_sel [simp]:
  "dec_Action (ruledDecision a p) = a" "dec_MatchedRule (ruledDecision a p) = p"
  "dec_Kind (ruledDecision a p) = KindPolicyRule"
  by (simp_all add: ruledDecision_def plainDecision_def)

lemma plainDecision_sel [simp]:
  "dec_Action (plainDecision a r k) = a" "dec_MatchedRule (plainDecision a r k) = []"
  "dec_Kind (plainDecision a r k) = k" "dec_AllowedAfter (plainDecision a r k) = 0"
  "dec_Advisory (plainDecision a r k) = None" "dec_Reason (plainDecision a r k) = r"
  by (simp_all add: plainDecision_def)

text \<open>The engine's decision, case by case.\<close>

lemma Evaluate_cases [consumes 1, case_names unknown deny allow warn cooldown unmatched]:
  assumes "d = Evaluate (fst (policy_New cfg)) now pkg"
  obtains "pkg_PURL pkg = []" "dec_Action d = ActionUnknown" "dec_MatchedRule d = []"
  | p where "p \<in> set (pc_Deny cfg)" "rule_matches p (pkg_PURL pkg)"
      "d = ruledDecision ActionBlock p"
  | p where "\<forall>q \<in> set (pc_Deny cfg). \<not> rule_matches q (pkg_PURL pkg)" "p \<in> set (pc_Allow cfg)"
      "rule_matches p (pkg_PURL pkg)" "d = ruledDecision ActionAllow p"
  | p where "p \<in> set (pc_Warn cfg)" "rule_matches p (pkg_PURL pkg)"
      "d = ruledDecision ActionWarn p"
  | "dec_Action d = ActionBlock" "dec_Kind d = KindCooldown" "dec_MatchedRule d = []"
  | "d = plainDecision ActionAllow ''no policy rule matched'' []"
proof (cases "pkg_PURL pkg = []")
  case True
  with assms show ?thesis by (intro that(1)) (simp_all add: Evaluate_policy_New evaluate_spec_def)
next
  case known: False
  let ?first = "\<lambda>ps. find (\<lambda>p. rule_matches p (pkg_PURL pkg)) ps"
  note d = assms [unfolded Evaluate_policy_New evaluate_spec_def Let_def]
  show ?thesis
  proof (cases "?first (pc_Deny cfg)")
    case (Some p)
    then show ?thesis using d known find_matchingD by (intro that(2) [of p]) simp_all
  next
    case deny: None
    show ?thesis
    proof (cases "?first (pc_Allow cfg)")
      case (Some p)
      then show ?thesis using d known deny find_matchingD
        by (intro that(3) [of p]) (simp_all add: find_None_iff)
    next
      case allow: None
      show ?thesis
      proof (cases "?first (pc_Warn cfg)")
        case (Some p)
        then show ?thesis using d known deny allow find_matchingD
          by (intro that(4) [of p]) simp_all
      next
        case None
        then show ?thesis using d known deny allow that(5,6) by (simp split: if_splits)
      qed
    qed
  qed
qed

text \<open>C15: For every configuration, the engine that New builds implements the policy
  specification: unidentified packages are unknown, and otherwise the first matching deny,
  then allow, then warn pattern of the configuration decides, and only then the cooldown.
\<close>

theorem Evaluate_implements_spec:
  "Evaluate (fst (policy_New cfg)) now pkg = evaluate_spec cfg now pkg"
  by (rule Evaluate_policy_New)

text \<open>C23: The regular expression compileGlob builds for a pattern matches a string exactly when
  the pattern, read as a glob over runes, does; the only patterns it rejects are blank ones.
\<close>

theorem compileGlob_is_glob:
  "case compileGlob pattern of
     Inl err \<Rightarrow> TrimSpace pattern = [] \<and> err = ''empty pattern''
   | Inr e \<Rightarrow> TrimSpace pattern \<noteq> [] \<and> (\<forall>s. MatchString e s \<longleftrightarrow> glob (runes pattern) (runes s))"
  by (auto simp: compileGlob_def MatchString_def re_matches_iff re_lang_glob)

text \<open>C5: A deny pattern that matches a package's PURL blocks the package, whatever the allow
  and warn patterns and the cooldown say, and the decision names a matching deny pattern.
\<close>

theorem deny_takes_precedence:
  assumes "pkg_PURL pkg \<noteq> []" and "p \<in> set (pc_Deny cfg)" and "rule_matches p (pkg_PURL pkg)"
  shows "\<exists>q \<in> set (pc_Deny cfg). rule_matches q (pkg_PURL pkg) \<and>
    Evaluate (fst (policy_New cfg)) now pkg = ruledDecision ActionBlock q"
  using find_matching [OF assms(2,3)] assms(1)
  by (auto simp: Evaluate_policy_New evaluate_spec_def)

definition example_policy :: policy_Config where
  "example_policy = emptyConfig\<lparr>pc_Deny := [''p/e@*''], pc_Allow := [''p/*'', ''p/a@1'']\<rparr>"

definition example_pkg :: "string \<Rightarrow> Package" where
  "example_pkg purl = emptyPackage\<lparr>pkg_PURL := purl\<rparr>"

lemmas example_policy_defs [go_eval] =
  example_policy_def example_pkg_def emptyConfig_def emptyPackage_def

lemma deny_takes_precedence_witness:
  "\<exists>q \<in> set (pc_Deny example_policy). rule_matches q ''p/e@2'' \<and>
    Evaluate (fst (policy_New example_policy)) 0 (example_pkg ''p/e@2'') = ruledDecision ActionBlock q"
proof -
  have m: "rule_matches ''p/e@*'' ''p/e@2''"
    by (simp add: rule_matches_glob blank_def go_eval)
  show ?thesis
    using deny_takes_precedence [of "example_pkg ''p/e@2''" "''p/e@*''" example_policy 0] m
    by (simp add: example_policy_defs)
qed

lemma runes_ascii_byte: "c \<in> set s \<Longrightarrow> byte c < 0x80 \<Longrightarrow> of_char c \<in> set (runes s)"
  unfolding runes_def
proof (induction s rule: rune_chunks.induct)
  case (2 b s)
  obtain q k where dec: "decode_rune b s = (q, k)" by (cases "decode_rune b s")
  have b: "c = b \<Longrightarrow> q = of_char b"
    using 2(3) dec by (simp add: decode_rune_def)
  have "c \<noteq> b \<Longrightarrow> c \<in> set (drop k s)"
    using 2(2,3) dec
    by (auto simp: decode_rune_def Let_def cont_def split: if_splits list.splits)
  with b 2(1) [OF dec [symmetric] refl] 2(3) dec show ?case by auto
qed simp

text \<open>A decision that exempts malware comes from an allow pattern that spells, rune for
  rune, the very PURL it was asked about, and from no deny pattern: the exemption covers no
  other package or version.
\<close>

theorem ExemptsMalware_names_one_version:
  assumes "ExemptsMalware (Evaluate (fst (policy_New cfg)) now pkg)"
  shows "\<exists>p \<in> set (pc_Allow cfg). runes p = runes (pkg_PURL pkg) \<and>
    (\<forall>purl. rule_matches p purl \<longleftrightarrow> runes purl = runes (pkg_PURL pkg)) \<and>
    (\<forall>q \<in> set (pc_Deny cfg). \<not> rule_matches q (pkg_PURL pkg))"
  using refl [of "Evaluate (fst (policy_New cfg)) now pkg"]
proof (cases rule: Evaluate_cases)
  case (allow p)
  have no_wild: "42 \<notin> set (runes p) \<and> 63 \<notin> set (runes p)"
  proof -
    have "CHR ''*'' \<notin> set p" "CHR ''?'' \<notin> set p"
      using assms allow by (auto simp: ExemptsMalware_def ContainsAny_iff)
    then have "of_char c \<noteq> (42::nat) \<and> of_char c \<noteq> (63::nat)" if "c \<in> set p" for c
      using that of_char_eq_iff [of c "CHR ''*''", where 'a = nat]
        of_char_eq_iff [of c "CHR ''?''", where 'a = nat] by auto
    then show ?thesis using rune_of_ascii_byte [of 42 p] rune_of_ascii_byte [of 63 p] by auto
  qed
  then have "glob (runes p) t \<longleftrightarrow> t = runes p" for t
    by (simp add: glob_literal)
  with allow show ?thesis by (intro bexI [of _ p]) (auto simp: rule_matches_glob)
qed (use assms in \<open>auto simp: ExemptsMalware_def Action_defs\<close>)

lemma ExemptsMalware_names_one_version_witness:
  "\<exists>p \<in> set [''p/a@1'']. runes p = runes ''p/a@1'' \<and>
    (\<forall>purl. rule_matches p purl \<longleftrightarrow> runes purl = runes ''p/a@1'') \<and>
    (\<forall>q \<in> set [''p/e@*'']. \<not> rule_matches q ''p/a@1'')"
proof -
  let ?cfg = "example_policy\<lparr>pc_Allow := [''p/a@1'']\<rparr>"
  have "ExemptsMalware (Evaluate (fst (policy_New ?cfg)) 0 (example_pkg ''p/a@1''))"
    by (simp add: Evaluate_policy_New evaluate_spec_def ExemptsMalware_def rule_matches_glob
        blank_def go_eval)
  from ExemptsMalware_names_one_version [OF this] show ?thesis
    by (simp add: example_policy_defs)
qed

text \<open>With the cooldown enabled and no rule matching, a version is blocked exactly until its
  publish time plus the minimum age: before that instant it is blocked and the decision names
  the instant, from then on it is allowed.
\<close>

theorem cooldown_ends_at_AllowedAfter:
  assumes "pkg_PURL pkg \<noteq> []" and "matching_rule (eng_rules e) (pkg_PURL pkg) = None"
    and "CooldownEnabled e" and "pkg_PublishedAt pkg \<noteq> 0"
    and "minDuration < cd_MinAge (eng_cooldown e)" and "cd_MinAge (eng_cooldown e) \<le> maxDuration"
  shows "if now < pkg_PublishedAt pkg + cd_MinAge (eng_cooldown e)
    then dec_Action (Evaluate e now pkg) = ActionBlock \<and> dec_Kind (Evaluate e now pkg) = KindCooldown
      \<and> dec_AllowedAfter (Evaluate e now pkg) = pkg_PublishedAt pkg + cd_MinAge (eng_cooldown e)
    else Evaluate e now pkg = plainDecision ActionAllow ''no policy rule matched'' []"
proof -
  have "time_Sub now (pkg_PublishedAt pkg) < cd_MinAge (eng_cooldown e) \<longleftrightarrow>
    now < pkg_PublishedAt pkg + cd_MinAge (eng_cooldown e)"
    using assms(5,6) by (auto simp: time_Sub_def)
  with assms(1-4) show ?thesis
    by (simp add: Evaluate_def CooldownEnabled_def IsZero_def)
qed

lemma cooldown_ends_at_AllowedAfter_witness:
  "dec_AllowedAfter (Evaluate \<lparr>eng_rules = [], eng_cooldown = \<lparr>cd_Enabled = True, cd_MinAge = 100\<rparr>\<rparr>
     1099 ((example_pkg ''p/a@1'')\<lparr>pkg_PublishedAt := 1000\<rparr>)) = 1100 \<and>
   Evaluate \<lparr>eng_rules = [], eng_cooldown = \<lparr>cd_Enabled = True, cd_MinAge = 100\<rparr>\<rparr>
     1100 ((example_pkg ''p/a@1'')\<lparr>pkg_PublishedAt := 1000\<rparr>) =
   plainDecision ActionAllow ''no policy rule matched'' []"
proof -
  let ?e = "\<lparr>eng_rules = [], eng_cooldown = \<lparr>cd_Enabled = True, cd_MinAge = 100\<rparr>\<rparr>"
  let ?p = "(example_pkg ''p/a@1'')\<lparr>pkg_PublishedAt := 1000\<rparr>"
  have h: "pkg_PURL ?p \<noteq> []" "matching_rule (eng_rules ?e) (pkg_PURL ?p) = None" "CooldownEnabled ?e"
    "pkg_PublishedAt ?p \<noteq> 0" "minDuration < cd_MinAge (eng_cooldown ?e)"
    "cd_MinAge (eng_cooldown ?e) \<le> maxDuration"
    by (simp_all add: example_policy_defs matching_rule_def CooldownEnabled_def minDuration_def
        maxDuration_def)
  show ?thesis
    using cooldown_ends_at_AllowedAfter [OF h, of 1099] cooldown_ends_at_AllowedAfter [OF h, of 1100]
    by simp
qed

lemma load_files_deny:
  assumes "load_files read_file unmarshal files merged = Inr cfg"
    and "p \<in> set (pc_Deny merged) \<or> (\<exists>f \<in> set files. \<exists>raw c. read_file f = Inr raw \<and>
      unmarshal raw = Inr c \<and> p \<in> set (pc_Deny c))"
  shows "p \<in> set (pc_Deny cfg)"
  using assms
proof (induction files arbitrary: merged)
  case (Cons g files)
  then obtain raw c where "read_file g = Inr raw" "unmarshal raw = Inr c"
    "load_files read_file unmarshal files (merge_config merged c) = Inr cfg"
    by (auto split: sum.splits)
  with Cons show ?case by (auto simp: merge_config_def)
qed simp

text \<open>Rules accumulate across policy files: when Load succeeds, a deny pattern of any of
  the files blocks the packages it matches, however the other files allow them.
\<close>

theorem Load_keeps_every_deny:
  assumes "policy_Load read_file unmarshal files = Inr (engine, errs)"
    and "f \<in> set files" and "read_file f = Inr raw" and "unmarshal raw = Inr c"
    and "p \<in> set (pc_Deny c)" and "rule_matches p (pkg_PURL pkg)" and "pkg_PURL pkg \<noteq> []"
  shows "dec_Action (Evaluate engine now pkg) = ActionBlock \<and>
    dec_Kind (Evaluate engine now pkg) = KindPolicyRule"
proof -
  obtain cfg where cfg: "load_files read_file unmarshal files emptyConfig = Inr cfg"
    and engine: "engine = fst (policy_New cfg)"
    using assms(1) by (auto simp: policy_Load_def split: sum.splits)
  have "p \<in> set (pc_Deny cfg)"
    using load_files_deny [OF cfg] assms(2-5) by blast
  from find_matching [OF this assms(6)] assms(7) show ?thesis
    by (auto simp: engine Evaluate_policy_New evaluate_spec_def)
qed

lemma Load_keeps_every_deny_witness:
  "let rd = (\<lambda>f. if f = ''a'' \<or> f = ''b'' then Inr f else Inl ''missing'');
       un = (\<lambda>raw. Inr (if raw = ''a'' then example_policy else emptyConfig\<lparr>pc_Allow := [''*'']\<rparr>)) in
   \<exists>engine errs. policy_Load rd un [''b'', ''a''] = Inr (engine, errs) \<and>
     dec_Action (Evaluate engine 0 (example_pkg ''p/e@2'')) = ActionBlock \<and>
     dec_Kind (Evaluate engine 0 (example_pkg ''p/e@2'')) = KindPolicyRule"
proof -
  let ?rd = "\<lambda>f. if f = ''a'' \<or> f = ''b'' then Inr f else Inl ''missing''"
  let ?un = "\<lambda>raw. Inr (if raw = ''a'' then example_policy else emptyConfig\<lparr>pc_Allow := [''*'']\<rparr>)
    :: string + policy_Config"
  obtain cfg where "policy_Load ?rd ?un [''b'', ''a''] = Inr (policy_New cfg)"
    by (auto simp: policy_Load_def)
  then obtain engine errs where l: "policy_Load ?rd ?un [''b'', ''a''] = Inr (engine, errs)"
    by (cases "policy_New cfg") auto
  have m: "rule_matches ''p/e@*'' (pkg_PURL (example_pkg ''p/e@2''))" "pkg_PURL (example_pkg ''p/e@2'') \<noteq> []"
    "''p/e@*'' \<in> set (pc_Deny example_policy)"
    by (simp_all add: rule_matches_glob blank_def go_eval)
  from l show ?thesis
    using Load_keeps_every_deny [OF l, of "''a''" "''a''" example_policy, OF _ _ _ m(3,1,2), of 0]
    by (auto simp: Let_def)
qed

text \<open>New reports one error per blank pattern and no others, in the order deny, allow, warn,
  and still returns an engine holding every pattern that is not blank.
\<close>

theorem policy_New_errors:
  "snd (policy_New cfg) =
     map (\<lambda>p. (ActionBlock, p, ''empty pattern'')) (filter blank (pc_Deny cfg)) @
     map (\<lambda>p. (ActionAllow, p, ''empty pattern'')) (filter blank (pc_Allow cfg)) @
     map (\<lambda>p. (ActionWarn, p, ''empty pattern'')) (filter blank (pc_Warn cfg)) \<and>
   map rule_pattern (eng_rules (fst (policy_New cfg))) =
     filter (\<lambda>p. \<not> blank p) (pc_Deny cfg @ pc_Allow cfg @ pc_Warn cfg)"
  by (simp add: policy_New_rules policy_New_def add_rules_eq Let_def comp_def)

end
