(* ===== verification/Cache.thy ===== *)
theory Cache
  imports Prelude
begin

text \<open>
  internal/cache/cache.go: the in-memory cache with expiry and a bound on its entries.
  The mutex makes each operation atomic, so an operation is a function from the cache (and
  the clock reading it takes) to its result and the cache afterwards. The locale
  \<open>ttl_cache\<close> states what the clients of the cache rely on; the model of the code interprets
  it. The invariant ties the insertion order to the map and bounds their size.
\<close>

record 'v entry =
  ent_value :: 'v
  ent_expiresAt :: time

record 'v Cache =
  cc_items :: "(string, 'v entry) gomap"
  cc_order :: "string list"
  cc_maxEntries :: int

definition NewWithMaxEntries :: "int \<Rightarrow> 'v Cache" where
  "NewWithMaxEntries n = \<lparr>cc_items = [], cc_order = [], cc_maxEntries = n\<rparr>"

definition cache_New :: "'v Cache" where
  "cache_New = NewWithMaxEntries 0"

definition cache_delete :: "string \<Rightarrow> 'v Cache \<Rightarrow> 'v Cache" where
  "cache_delete key c =
     c\<lparr>cc_items := AList.delete key (cc_items c), cc_order := filter (\<lambda>k. k \<noteq> key) (cc_order c)\<rparr>"

definition entry_expired :: "time \<Rightarrow> 'v entry \<Rightarrow> bool" where
  "entry_expired now item \<longleftrightarrow> \<not> IsZero (ent_expiresAt item) \<and> now > ent_expiresAt item"

definition Cache_Get :: "time \<Rightarrow> string \<Rightarrow> 'v Cache \<Rightarrow> 'v option \<times> 'v Cache" where
  "Cache_Get now key c =
     (case map_of (cc_items c) key of
        None \<Rightarrow> (None, c)
      | Some item \<Rightarrow>
          if entry_expired now item then (None, cache_delete key c)
          else (Some (ent_value item), c))"

fun evict :: "int \<Rightarrow> (string, 'v entry) gomap \<Rightarrow> string list
    \<Rightarrow> (string, 'v entry) gomap \<times> string list" where
  "evict n its [] = (its, [])"
| "evict n its (key # keys) =
     (if int (length its) > n then evict n (AList.delete key its) keys else (its, key # keys))"

definition enforceMaxEntries :: "'v Cache \<Rightarrow> 'v Cache" where
  "enforceMaxEntries c =
     (if cc_maxEntries c \<le> 0 then c
      else let (its, ord) = evict (cc_maxEntries c) (cc_items c) (cc_order c)
           in c\<lparr>cc_items := its, cc_order := ord\<rparr>)"

definition new_entry :: "time \<Rightarrow> 'v \<Rightarrow> duration \<Rightarrow> 'v entry" where
  "new_entry now value ttl =
     \<lparr>ent_value = value, ent_expiresAt = (if ttl > 0 then now + ttl else 0)\<rparr>"

definition Cache_Set :: "time \<Rightarrow> string \<Rightarrow> 'v \<Rightarrow> duration \<Rightarrow> 'v Cache \<Rightarrow> 'v Cache" where
  "Cache_Set now key value ttl c =
     (let item = new_entry now value ttl;
          c' = (if map_of (cc_items c) key = None then c\<lparr>cc_order := cc_order c @ [key]\<rparr> else c)
      in enforceMaxEntries (c'\<lparr>cc_items := AList.update key item (cc_items c')\<rparr>))"

definition Cache_Delete :: "string \<Rightarrow> 'v Cache \<Rightarrow> 'v Cache" where
  "Cache_Delete key c = cache_delete key c"

definition Cache_Purge :: "'v Cache \<Rightarrow> 'v Cache" where
  "Cache_Purge c = c\<lparr>cc_items := [], cc_order := []\<rparr>"

section \<open>The interface\<close>

text \<open>
  What a client may rely on. \<open>lookup c k\<close> is the stored value with its expiry, 0 for
  never. Storing may drop other entries, never the one stored.
\<close>

definition live :: "time \<Rightarrow> ('v \<times> time) option \<Rightarrow> 'v option" where
  "live now e = (case e of None \<Rightarrow> None | Some (v, t) \<Rightarrow> if t \<noteq> 0 \<and> now > t then None else Some v)"

locale ttl_cache =
  fixes get :: "time \<Rightarrow> string \<Rightarrow> 'c \<Rightarrow> 'v option \<times> 'c"
    and put :: "time \<Rightarrow> string \<Rightarrow> 'v \<Rightarrow> duration \<Rightarrow> 'c \<Rightarrow> 'c"
    and del :: "string \<Rightarrow> 'c \<Rightarrow> 'c"
    and lookup :: "'c \<Rightarrow> string \<Rightarrow> ('v \<times> time) option"
    and invar :: "'c \<Rightarrow> bool"
  assumes get_result: "invar c \<Longrightarrow> fst (get now k c) = live now (lookup c k)"
    and get_lookup: "invar c \<Longrightarrow> lookup (snd (get now k c)) k' =
      (if k' = k \<and> live now (lookup c k) = None then None else lookup c k')"
    and put_same: "invar c \<Longrightarrow> lookup (put now k v ttl c) k = Some (v, if ttl > 0 then now + ttl else 0)"
    and put_other: "invar c \<Longrightarrow> k' \<noteq> k \<Longrightarrow>
      lookup (put now k v ttl c) k' = lookup c k' \<or> lookup (put now k v ttl c) k' = None"
    and del_lookup: "invar c \<Longrightarrow> lookup (del k c) k' = (if k' = k then None else lookup c k')"
    and invar_get: "invar c \<Longrightarrow> invar (snd (get now k c))"
    and invar_put: "invar c \<Longrightarrow> invar (put now k v ttl c)"
    and invar_del: "invar c \<Longrightarrow> invar (del k c)"
begin

lemma get_put:
  assumes "invar c" and "ttl \<le> 0 \<or> now' \<le> now + ttl" and "now + ttl \<noteq> 0 \<or> ttl \<le> 0"
  shows "fst (get now' k (put now k v ttl c)) = Some v"
  using assms by (auto simp: get_result invar_put put_same live_def)

lemma get_expired:
  assumes "invar c" and "ttl > 0" and "now + ttl \<noteq> 0" and "now' > now + ttl"
  shows "fst (get now' k (put now k v ttl c)) = None"
  using assms by (auto simp: get_result invar_put put_same live_def)

lemma get_put_other:
  assumes "invar c" and "k' \<noteq> k" and "fst (get now' k' (put now k v ttl c)) = Some w"
  shows "fst (get now' k' c) = Some w"
  using put_other [OF assms(1,2), of now v ttl] assms(3)
  by (auto simp: get_result assms(1) invar_put live_def)

lemma get_del: "invar c \<Longrightarrow> fst (get now k (del k' c)) = (if k = k' then None else fst (get now k c))"
  by (simp add: get_result invar_del del_lookup live_def)

lemma get_get: "invar c \<Longrightarrow> fst (get now k (snd (get now k' c))) = fst (get now k c)"
  by (auto simp: get_result invar_get get_lookup live_def split: option.splits if_splits)

end

section \<open>The invariant\<close>

definition cache_inv :: "'v Cache \<Rightarrow> bool" where
  "cache_inv c \<longleftrightarrow> distinct (map fst (cc_items c)) \<and> distinct (cc_order c)
     \<and> set (cc_order c) = fst ` set (cc_items c)
     \<and> (cc_maxEntries c > 0 \<longrightarrow> int (length (cc_items c)) \<le> cc_maxEntries c)"

definition cache_lookup :: "'v Cache \<Rightarrow> string \<Rightarrow> ('v \<times> time) option" where
  "cache_lookup c k = map_option (\<lambda>e. (ent_value e, ent_expiresAt e)) (map_of (cc_items c) k)"

lemma keys_delete: "fst ` set (AList.delete k m) = fst ` set m - {k}"
  by (simp add: dom_map_of_conv_image_fst [symmetric] delete_conv')

lemma keys_update: "fst ` set (AList.update k v m) = insert k (fst ` set m)"
  by (simp add: dom_map_of_conv_image_fst [symmetric] update_conv')

lemma length_delete_distinct:
  "distinct (map fst m) \<Longrightarrow> k \<in> fst ` set m \<Longrightarrow> Suc (length (AList.delete k m)) = length m"
proof -
  assume d: "distinct (map fst m)" and k: "k \<in> fst ` set m"
  have "length (AList.delete k m) = card (fst ` set (AList.delete k m))"
    using distinct_delete [OF d, of k] by (metis distinct_card length_map set_map)
  also have "\<dots> = card (fst ` set m) - 1"
    using k by (simp add: keys_delete)
  also have "card (fst ` set m) = length m"
    using d by (metis distinct_card length_map set_map)
  finally show ?thesis using k by (cases m) auto
qed

lemma cache_inv_New: "cache_inv (NewWithMaxEntries n)"
  by (simp add: cache_inv_def NewWithMaxEntries_def)

lemma cache_inv_delete: "cache_inv c \<Longrightarrow> cache_inv (cache_delete k c)"
proof -
  assume i: "cache_inv c"
  have "length (AList.delete k (cc_items c)) \<le> length (cc_items c)"
    by (simp add: length_delete_le)
  with i show ?thesis
    by (auto simp: cache_inv_def cache_delete_def distinct_delete keys_delete)
qed

lemma cache_inv_Get: "cache_inv c \<Longrightarrow> cache_inv (snd (Cache_Get now k c))"
  by (simp add: Cache_Get_def cache_inv_delete split: option.split)

lemma update_absent: "k \<notin> fst ` set m \<Longrightarrow> AList.update k v m = m @ [(k, v)]"
  by (induction m) auto

lemma delete_append: "AList.delete k (m @ m') = AList.delete k m @ AList.delete k m'"
  by (simp add: AList.delete_eq)

lemma evict_noop: "int (length its) \<le> n \<Longrightarrow> evict n its ord = (its, ord)"
  by (cases ord) auto

text \<open>Storing evicts at most one entry, the one inserted first.\<close>

lemma Cache_Set_eq:
  assumes i: "cache_inv c"
  shows "Cache_Set now k v ttl c =
    (if map_of (cc_items c) k \<noteq> None then c\<lparr>cc_items := AList.update k (new_entry now v ttl) (cc_items c)\<rparr>
     else if cc_maxEntries c > 0 \<and> int (length (cc_items c)) = cc_maxEntries c then
       c\<lparr>cc_items := AList.delete (hd (cc_order c)) (cc_items c) @ [(k, new_entry now v ttl)],
         cc_order := tl (cc_order c) @ [k]\<rparr>
     else c\<lparr>cc_items := cc_items c @ [(k, new_entry now v ttl)], cc_order := cc_order c @ [k]\<rparr>)"
proof (cases "map_of (cc_items c) k")
  case (Some e)
  then have k: "k \<in> fst ` set (cc_items c)" by (force dest: map_of_SomeD)
  have "length (AList.update k (new_entry now v ttl) (cc_items c)) = length (cc_items c)"
    using k by (simp add: length_update)
  with i have "cc_maxEntries c \<le> 0 \<or> int (length (AList.update k (new_entry now v ttl) (cc_items c))) \<le> cc_maxEntries c"
    by (auto simp: cache_inv_def)
  with Some show ?thesis
    by (auto simp: Cache_Set_def enforceMaxEntries_def Let_def evict_noop)
next
  case None
  then have k: "k \<notin> fst ` set (cc_items c)" by (simp add: map_of_eq_None_iff)
  note upd = update_absent [OF k]
  show ?thesis
  proof (cases "cc_maxEntries c > 0 \<and> int (length (cc_items c)) = cc_maxEntries c")
    case True
    then obtain h t where ord: "cc_order c = h # t"
      using i by (cases "cc_order c") (auto simp: cache_inv_def)
    with i have h: "h \<in> fst ` set (cc_items c)" by (auto simp: cache_inv_def)
    with k have hk: "h \<noteq> k" by auto
    have "Suc (length (AList.delete h (cc_items c))) = length (cc_items c)"
      using i h by (intro length_delete_distinct) (auto simp: cache_inv_def)
    with True have "int (length (AList.delete h (cc_items c) @ [(k, new_entry now v ttl)])) \<le> cc_maxEntries c"
      by simp
    with True None ord hk show ?thesis
      by (cases t) (auto simp: Cache_Set_def enforceMaxEntries_def upd delete_append)
  next
    case False
    with i have "cc_maxEntries c \<le> 0 \<or> int (length (cc_items c @ [(k, new_entry now v ttl)])) \<le> cc_maxEntries c"
      by (auto simp: cache_inv_def)
    then show ?thesis
      using None False
      by (cases "cc_order c") (auto simp: Cache_Set_def enforceMaxEntries_def upd)
  qed
qed

lemma cache_inv_Set: "cache_inv c \<Longrightarrow> cache_inv (Cache_Set now k v ttl c)"
proof -
  assume i: "cache_inv c"
  show ?thesis
  proof (cases "map_of (cc_items c) k")
    case (Some e)
    then have "k \<in> fst ` set (cc_items c)" by (force dest: map_of_SomeD)
    with i Some show ?thesis
      by (auto simp: Cache_Set_eq cache_inv_def distinct_update keys_update length_update)
  next
    case None
    then have k: "k \<notin> fst ` set (cc_items c)" by (simp add: map_of_eq_None_iff)
    show ?thesis
    proof (cases "cc_maxEntries c > 0 \<and> int (length (cc_items c)) = cc_maxEntries c")
      case True
      then obtain h t where ord: "cc_order c = h # t"
        using i by (cases "cc_order c") (auto simp: cache_inv_def)
      with i have h: "h \<in> fst ` set (cc_items c)" by (auto simp: cache_inv_def)
      have "Suc (length (AList.delete h (cc_items c))) = length (cc_items c)"
        using i h by (intro length_delete_distinct) (auto simp: cache_inv_def)
      with i None k ord True show ?thesis
        by (auto simp: Cache_Set_eq cache_inv_def distinct_delete keys_delete)
    next
      case False
      with i None k show ?thesis by (auto simp: Cache_Set_eq cache_inv_def)
    qed
  qed
qed

lemma cache_lookup_Set_same:
  "cache_inv c \<Longrightarrow> cache_lookup (Cache_Set now k v ttl c) k = Some (v, if ttl > 0 then now + ttl else 0)"
  by (auto simp: cache_lookup_def Cache_Set_eq new_entry_def map_add_def map_of_delete
      map_of_append split: option.split)

lemma cache_lookup_Set_other:
  assumes "cache_inv c" and "k' \<noteq> k"
  shows "cache_lookup (Cache_Set now k v ttl c) k' =
    (if map_of (cc_items c) k = None \<and> cc_maxEntries c > 0 \<and> int (length (cc_items c)) = cc_maxEntries c
        \<and> k' = hd (cc_order c) then None else cache_lookup c k')"
  using assms by (simp add: cache_lookup_def Cache_Set_eq map_add_def map_of_append
      split: option.split)

interpretation go_cache: ttl_cache Cache_Get Cache_Set Cache_Delete cache_lookup cache_inv
proof unfold_locales
  fix c :: "'a Cache" and k k' :: string and now ttl :: int and v :: 'a
  assume i: "cache_inv c"
  show "fst (Cache_Get now k c) = live now (cache_lookup c k)"
    by (auto simp: Cache_Get_def cache_lookup_def live_def entry_expired_def IsZero_def
        split: option.split)
  show "cache_lookup (snd (Cache_Get now k c)) k' =
    (if k' = k \<and> live now (cache_lookup c k) = None then None else cache_lookup c k')"
    by (auto simp: Cache_Get_def cache_lookup_def live_def entry_expired_def IsZero_def
        cache_delete_def split: option.split)
  show "cache_lookup (Cache_Set now k v ttl c) k = Some (v, if ttl > 0 then now + ttl else 0)"
    using i by (rule cache_lookup_Set_same)
  show "cache_lookup (Cache_Delete k c) k' = (if k' = k then None else cache_lookup c k')"
    by (simp add: Cache_Delete_def cache_delete_def cache_lookup_def)
  show "cache_inv (snd (Cache_Get now k c))" "cache_inv (Cache_Set now k v ttl c)"
    "cache_inv (Cache_Delete k c)"
    using i by (simp_all add: cache_inv_Get cache_inv_Set Cache_Delete_def cache_inv_delete)
next
  fix c :: "'a Cache" and k k' :: string and now ttl :: int and v :: 'a
  assume "cache_inv c" "k' \<noteq> k"
  then show "cache_lookup (Cache_Set now k v ttl c) k' = cache_lookup c k' \<or>
    cache_lookup (Cache_Set now k v ttl c) k' = None"
    by (simp add: cache_lookup_Set_other)
qed

section \<open>Every run of the cache\<close>

datatype 'v cache_op = OpGet time string | OpSet time string 'v duration | OpDelete string | OpPurge

primrec run_op :: "'v cache_op \<Rightarrow> 'v Cache \<Rightarrow> 'v Cache" where
  "run_op (OpGet now k) c = snd (Cache_Get now k c)"
| "run_op (OpSet now k v ttl) c = Cache_Set now k v ttl c"
| "run_op (OpDelete k) c = Cache_Delete k c"
| "run_op OpPurge c = Cache_Purge c"

lemma cache_inv_Purge: "cache_inv (Cache_Purge c)"
  by (simp add: Cache_Purge_def cache_inv_def)

lemma cache_inv_op: "cache_inv c \<Longrightarrow> cache_inv (run_op oper c)"
  by (cases oper) (simp_all add: cache_inv_Get cache_inv_Set Cache_Delete_def cache_inv_delete
      cache_inv_Purge)

lemma cache_inv_run: "cache_inv c \<Longrightarrow> cache_inv (fold run_op ops c)"
  by (induction ops arbitrary: c) (auto intro: cache_inv_op)

lemma maxEntries_op [simp]: "cc_maxEntries (run_op oper c) = cc_maxEntries c"
  by (cases oper) (auto simp: Cache_Get_def Cache_Set_def enforceMaxEntries_def Cache_Delete_def
      cache_delete_def Cache_Purge_def Let_def split: option.split prod.split)

lemma maxEntries_run [simp]: "cc_maxEntries (fold run_op ops c) = cc_maxEntries c"
  by (induction ops arbitrary: c) auto

text \<open>C22: Whatever operations a cache made by NewWithMaxEntries has seen, its map and its
  insertion order hold the same keys, each once, and a positive bound is never exceeded.\<close>

theorem cache_invariant:
  "cache_inv (fold run_op ops (NewWithMaxEntries n)) \<and>
   (let c = fold run_op ops (NewWithMaxEntries n)
    in set (cc_order c) = fst ` set (cc_items c) \<and> length (cc_order c) = length (cc_items c) \<and>
       (0 < n \<longrightarrow> int (length (cc_items c)) \<le> n))"
proof -
  let ?c = "fold run_op ops (NewWithMaxEntries n)"
  have i: "cache_inv ?c" by (simp add: cache_inv_New cache_inv_run)
  have m: "cc_maxEntries ?c = n" by (simp add: NewWithMaxEntries_def)
  from i have "length (cc_order ?c) = length (cc_items ?c)"
    unfolding cache_inv_def by (metis distinct_card length_map set_map)
  with i m show ?thesis by (simp add: cache_inv_def Let_def)
qed

theorem cache_invariant_witness:
  "0 < (1::int) \<and> int (length (cc_items (fold run_op
     [OpSet 5 ''a'' (1::int) 0, OpSet 6 ''b'' 2 10] (NewWithMaxEntries 1)))) \<le> 1"
  using cache_invariant [of "[OpSet 5 ''a'' (1::int) 0, OpSet 6 ''b'' 2 10]" 1]
  by (simp add: Let_def)

text \<open>A stored value is what Get returns until its time to live has passed and is gone
  afterwards; a value stored with no time to live stays. Storing one key never changes the
  value of another, and loses another only when the cache is full and that one was inserted
  first.\<close>

theorem cache_set_then_get:
  assumes "cache_inv c" and "0 \<le> now"
  shows "fst (Cache_Get now' k (Cache_Set now k v ttl c)) =
      (if 0 < ttl \<and> now + ttl < now' then None else Some v) \<and>
    (k' \<noteq> k \<longrightarrow> fst (Cache_Get now' k' (Cache_Set now k v ttl c)) =
      (if map_of (cc_items c) k = None \<and> 0 < cc_maxEntries c \<and> int (length (cc_items c)) = cc_maxEntries c
          \<and> k' = hd (cc_order c) then None else fst (Cache_Get now' k' c)))"
proof (intro conjI impI)
  show "fst (Cache_Get now' k (Cache_Set now k v ttl c)) =
      (if 0 < ttl \<and> now + ttl < now' then None else Some v)"
  proof (cases "0 < ttl \<and> now + ttl < now'")
    case True
    with assms show ?thesis by (simp add: go_cache.get_expired)
  next
    case False
    then have "ttl \<le> 0 \<or> now' \<le> now + ttl" by auto
    moreover have "now + ttl \<noteq> 0 \<or> ttl \<le> 0" using assms(2) by auto
    ultimately show ?thesis using assms(1) False by (simp add: go_cache.get_put)
  qed
next
  assume "k' \<noteq> k"
  with assms show "fst (Cache_Get now' k' (Cache_Set now k v ttl c)) =
      (if map_of (cc_items c) k = None \<and> 0 < cc_maxEntries c \<and> int (length (cc_items c)) = cc_maxEntries c
          \<and> k' = hd (cc_order c) then None else fst (Cache_Get now' k' c))"
    by (simp add: go_cache.get_result go_cache.invar_put cache_lookup_Set_other live_def)
qed

theorem cache_set_then_get_witness:
  "cache_inv (Cache_Set 5 ''a'' (7::int) 10 (NewWithMaxEntries 1)) \<and> (0::int) \<le> 6 \<and> ''a'' \<noteq> ''b'' \<and>
   fst (Cache_Get 16 ''a'' (Cache_Set 6 ''b'' 8 0 (Cache_Set 5 ''a'' (7::int) 10 (NewWithMaxEntries 1)))) = None \<and>
   fst (Cache_Get 16 ''b'' (Cache_Set 6 ''b'' 8 0 (Cache_Set 5 ''a'' (7::int) 10 (NewWithMaxEntries 1)))) = Some 8"
proof -
  have i: "cache_inv (Cache_Set 5 ''a'' (7::int) 10 (NewWithMaxEntries 1))"
    by (simp add: cache_inv_Set cache_inv_New)
  show ?thesis
    using i cache_set_then_get [OF i, of 6 16 "''b''" 8 0 "''a''"]
    by (simp add: Cache_Set_def enforceMaxEntries_def NewWithMaxEntries_def)
qed

end
