(* ===== verification/Intel.thy ===== *)
theory Intel
  imports Policy Cache
begin

text \<open>
  internal/intel: findings and the decision taken from them (intel.go, decision.go), and the
  OSV provider (osv.go) with its two in-memory caches. What lies outside the repository is the
  record \<open>osv_lib\<close>: the CVSS calculators, the semver package, number parsing, the JSON decoder
  and the HTTP exchange with OSV. A query takes the clock readings \<open>now\<close> (when it looks into the
  caches) and \<open>now'\<close> (once the answer has arrived). The lemmas show that malware is
  always blocked, which finding a threshold block names, and that a known malicious result
  survives an outage of OSV until OSV gives another answer.
\<close>

record Finding =
  fnd_ID :: string
  fnd_Aliases :: "string list"
  fnd_Summary :: string
  fnd_Severity :: float64
  fnd_CWEs :: "string list"
  fnd_Affected :: "string list"
  fnd_Fixed :: "string list"

record Result =
  res_Findings :: "Finding list"

definition emptyResult :: Result where
  "emptyResult = \<lparr>res_Findings = []\<rparr>"

definition NoopProvider_Query :: "Package \<Rightarrow> string + Result" where
  "NoopProvider_Query pkg = Inr emptyResult"

section \<open>The decision\<close>

definition malAlias :: "Finding \<Rightarrow> string" where
  "malAlias finding =
     (if HasPrefix (fnd_ID finding) ''MAL-'' then fnd_ID finding
      else case find (\<lambda>alias. HasPrefix alias ''MAL-'') (fnd_Aliases finding) of
             Some alias \<Rightarrow> alias
           | None \<Rightarrow> [])"

definition malicious :: "Finding \<Rightarrow> bool" where
  "malicious finding \<longleftrightarrow> malAlias finding \<noteq> [] \<or> ''CWE-506'' \<in> set (fnd_CWEs finding)"

definition findingKind :: "Finding \<Rightarrow> BlockKind" where
  "findingKind finding = (if malicious finding then KindMalware else KindVulnerability)"

definition advisory :: "Finding \<Rightarrow> float64 \<Rightarrow> Advisory" where
  "advisory finding threshold =
     \<lparr>adv_ID = fnd_ID finding, adv_Aliases = fnd_Aliases finding, adv_Summary = fnd_Summary finding,
      adv_Severity = fnd_Severity finding, adv_Threshold = threshold,
      adv_Affected = fnd_Affected finding, adv_Fixed = fnd_Fixed finding,
      adv_URL = ''https://osv.dev/vulnerability/'' @ fnd_ID finding\<rparr>"

definition malware_reason :: "Finding \<Rightarrow> string" where
  "malware_reason finding = ''malicious package '' @ fnd_ID finding @
     (let mal = malAlias finding
      in if mal \<noteq> [] \<and> mal \<noteq> fnd_ID finding then '' ('' @ mal @ '')'' else [])"

definition MalwareDecision :: "Result \<Rightarrow> float64 \<Rightarrow> Decision option" where
  "MalwareDecision result blockThreshold =
     (case find malicious (res_Findings result) of
        Some finding \<Rightarrow>
          Some ((plainDecision ActionBlock (malware_reason finding) KindMalware)
                  \<lparr>dec_Advisory := Some (advisory finding blockThreshold)\<rparr>)
      | None \<Rightarrow> None)"

fun blocking_loop :: "float64 \<Rightarrow> Finding option \<Rightarrow> Finding list \<Rightarrow> Finding option" where
  "blocking_loop t blocking [] = blocking"
| "blocking_loop t blocking (finding # rest) =
     blocking_loop t
       (if f64_less (Fin 0) t \<and> f64_le t (fnd_Severity finding) \<and>
           (case blocking of None \<Rightarrow> True | Some b \<Rightarrow> f64_less (fnd_Severity b) (fnd_Severity finding))
        then Some finding else blocking) rest"

fun worst_loop :: "Finding \<Rightarrow> Finding list \<Rightarrow> Finding" where
  "worst_loop worst [] = worst"
| "worst_loop worst (finding # rest) =
     worst_loop (if f64_less (fnd_Severity worst) (fnd_Severity finding) then finding else worst) rest"

definition Decide :: "Result \<Rightarrow> Action \<Rightarrow> float64 \<Rightarrow> Decision" where
  "Decide result defaultAction t =
     (case res_Findings result of
        [] \<Rightarrow> plainDecision ActionAllow ''no vulnerability findings'' []
      | first # rest \<Rightarrow>
          (case MalwareDecision result t of
             Some d \<Rightarrow> d
           | None \<Rightarrow>
               (case blocking_loop t None (first # rest) of
                  Some b \<Rightarrow>
                    (plainDecision ActionBlock
                       (''vulnerability '' @ fnd_ID b @ '' severity '' @ fmt_f1 (fnd_Severity b) @
                        '' exceeds threshold '' @ fmt_f1 t) (findingKind b))
                      \<lparr>dec_Advisory := Some (advisory b t)\<rparr>
                | None \<Rightarrow>
                    (let worst = worst_loop first rest in
                     (plainDecision (if defaultAction = [] then ActionWarn else defaultAction)
                        (''vulnerability findings: '' @ Join (map fnd_ID (first # rest)) '','')
                        (findingKind worst))
                       \<lparr>dec_Advisory := Some (advisory worst t)\<rparr>))))"

section \<open>OSV records\<close>

record osvPackageRef =
  opr_Name :: string
  opr_Ecosystem :: string

record osvQuery =
  oq_Version :: string
  oq_Package :: osvPackageRef

record osvEvent =
  ev_Introduced :: string
  ev_Fixed :: string
  ev_LastAffected :: string
  ev_Limit :: string

record osvRange =
  rng_Type :: string
  rng_Events :: "osvEvent list"

record osvAffected =
  aff_Package :: osvPackageRef
  aff_Ranges :: "osvRange list"

record osvSeverity =
  sev_Type :: string
  sev_Score :: string

record osvVulnerability =
  vul_ID :: string
  vul_Aliases :: "string list"
  vul_Summary :: string
  vul_Severity :: "osvSeverity list"
  vul_Affected :: "osvAffected list"
  vul_Withdrawn :: "time option"
  vul_CWEIDs :: "string list"

record osvResponse =
  osv_Vulns :: "osvVulnerability list"

text \<open>An answer over HTTP: its status, the bytes of its body, and the error that ends the body
  early, if one does.\<close>

record http_answer =
  ans_Status :: int
  ans_Body :: string
  ans_BodyErr :: "string option"

record osv_lib =
  lib_ParseFloat :: "string \<Rightarrow> float64 option"
  lib_cvss20 :: "string \<Rightarrow> float64 option"
  lib_cvss30 :: "string \<Rightarrow> float64 option"
  lib_cvss31 :: "string \<Rightarrow> float64 option"
  lib_cvss40 :: "string \<Rightarrow> float64 option"
  lib_semver_IsValid :: "string \<Rightarrow> bool"
  lib_semver_Compare :: "string \<Rightarrow> string \<Rightarrow> int"
  lib_unmarshal :: "string \<Rightarrow> string + osvResponse"

type_synonym osv_post = "string \<Rightarrow> osvQuery \<Rightarrow> string + http_answer"

section \<open>Ranges, names and scores\<close>

definition osvPackage :: "Package \<Rightarrow> string \<times> string" where
  "osvPackage pkg =
     (if pkg_Ecosystem pkg = ''npm'' then (''npm'', pkg_Name pkg)
      else if pkg_Ecosystem pkg = ''pypi'' then (''PyPI'', pkg_Name pkg)
      else if pkg_Ecosystem pkg = ''maven'' then (''Maven'', pkg_Name pkg)
      else if pkg_Ecosystem pkg = ''go'' then (''Go'', pkg_Name pkg)
      else ([], []))"

definition rangeText :: "string \<Rightarrow> string \<Rightarrow> string" where
  "rangeText introduced0 upper =
     (let introduced = (if introduced0 = ''0'' then [] else introduced0) in
      if introduced = [] \<and> upper = [] then ''all versions''
      else if introduced = [] then upper
      else if upper = [] then ''>='' @ introduced
      else ''>='' @ introduced @ '', '' @ upper)"

definition normalizeOSVName :: "string \<Rightarrow> string \<Rightarrow> string" where
  "normalizeOSVName ecosystem name =
     (let name = ToLower name in
      if ecosystem = ''PyPI'' then
        map (\<lambda>c. if c = CHR ''_'' \<or> c = CHR ''.'' then CHR ''-'' else c) name
      else name)"

text \<open>The loop over the events of a range: \<open>lower\<close> is the open lower bound, \<open>aff\<close> and \<open>fixed\<close> are
  what has been collected. The set seenFixed holds exactly the members of \<open>fixed\<close>.\<close>

fun range_events :: "string \<Rightarrow> string list \<Rightarrow> string list \<Rightarrow> osvEvent list
    \<Rightarrow> string \<times> string list \<times> string list" where
  "range_events lower aff fixed [] = (lower, aff, fixed)"
| "range_events lower aff fixed (e # es) =
     (if ev_Introduced e \<noteq> [] then range_events (ev_Introduced e) aff fixed es
      else if ev_Fixed e \<noteq> [] then
        range_events [] (aff @ [rangeText lower (''<'' @ ev_Fixed e)])
          (if ev_Fixed e \<in> set fixed then fixed else fixed @ [ev_Fixed e]) es
      else if ev_LastAffected e \<noteq> [] then
        range_events [] (aff @ [rangeText lower (''<='' @ ev_LastAffected e)]) fixed es
      else if ev_Limit e \<noteq> [] then
        range_events [] (aff @ [rangeText lower (''<'' @ ev_Limit e)]) fixed es
      else range_events lower aff fixed es)"

fun collect_ranges :: "string list \<Rightarrow> string list \<Rightarrow> osvRange list \<Rightarrow> string list \<times> string list" where
  "collect_ranges aff fixed [] = (aff, fixed)"
| "collect_ranges aff fixed (r # rs) =
     (if rng_Type r = ''GIT'' then collect_ranges aff fixed rs
      else let (lower, aff', fixed') = range_events [] aff fixed (rng_Events r) in
        collect_ranges (if lower \<noteq> [] then aff' @ [rangeText lower []] else aff') fixed' rs)"

definition matching_affected :: "osvAffected list \<Rightarrow> string \<Rightarrow> string \<Rightarrow> osvAffected list" where
  "matching_affected entries ecosystem name =
     (let m = filter (\<lambda>entry. EqualFold (opr_Ecosystem (aff_Package entry)) ecosystem \<and>
                normalizeOSVName ecosystem (opr_Name (aff_Package entry))
                  = normalizeOSVName ecosystem name) entries
      in if m = [] then entries else m)"

definition affectedRanges :: "osvAffected list \<Rightarrow> string \<Rightarrow> string \<Rightarrow> string list \<times> string list" where
  "affectedRanges entries ecosystem name =
     collect_ranges [] [] (concat (map aff_Ranges (matching_affected entries ecosystem name)))"

definition semverOrdered :: "string \<Rightarrow> bool" where
  "semverOrdered ecosystem \<longleftrightarrow> ecosystem = ''npm'' \<or> ecosystem = ''Go''"

definition semverOf :: "osv_lib \<Rightarrow> string \<Rightarrow> string" where
  "semverOf lib version =
     (let version = (if HasPrefix version ''v'' then version else ''v'' @ version)
      in if \<not> lib_semver_IsValid lib version then [] else version)"

definition fixesAfter :: "osv_lib \<Rightarrow> string list \<Rightarrow> string \<Rightarrow> string list" where
  "fixesAfter lib fixed version =
     (let current = semverOf lib version in
      if current = [] then fixed
      else filter (\<lambda>candidate. let v = semverOf lib candidate in
                     v = [] \<or> lib_semver_Compare lib v current > 0) fixed)"

definition severityScore :: "osv_lib \<Rightarrow> string \<Rightarrow> float64" where
  "severityScore lib raw0 =
     (let raw = TrimSpace raw0; or0 = (\<lambda>s. case s of Some x \<Rightarrow> x | None \<Rightarrow> Fin 0) in
      if raw = [] then Fin 0
      else case lib_ParseFloat lib raw of
        Some parsed \<Rightarrow> parsed
      | None \<Rightarrow>
          if HasPrefix raw ''CVSS:3.0'' then or0 (lib_cvss30 lib raw)
          else if HasPrefix raw ''CVSS:3.1'' then or0 (lib_cvss31 lib raw)
          else if HasPrefix raw ''CVSS:4.0'' then or0 (lib_cvss40 lib raw)
          else or0 (lib_cvss20 lib raw))"

fun max_loop :: "float64 \<Rightarrow> float64 list \<Rightarrow> float64" where
  "max_loop m [] = m"
| "max_loop m (s # ss) = max_loop (if f64_less m s then s else m) ss"

definition maxSeverity :: "osv_lib \<Rightarrow> osvSeverity list \<Rightarrow> float64" where
  "maxSeverity lib items = max_loop (Fin 0) (map (\<lambda>item. severityScore lib (sev_Score item)) items)"

section \<open>The provider\<close>

definition maxOSVResponseBytes :: nat where "maxOSVResponseBytes = 4194304"
definition maxOSVFindings :: nat where "maxOSVFindings = 1024"
definition defaultOSVCacheEntries :: int where "defaultOSVCacheEntries = 4096"
definition maliciousRetention :: duration where "maliciousRetention = 7 * 24 * nsHour"

record OSVProvider =
  osv_apiURL :: string
  osv_cache :: "Result Cache"
  osv_malicious :: "Result Cache"
  osv_ttl :: duration

definition NewOSVProvider :: "string \<Rightarrow> duration \<Rightarrow> OSVProvider" where
  "NewOSVProvider apiURL ttl =
     \<lparr>osv_apiURL = apiURL, osv_cache = NewWithMaxEntries defaultOSVCacheEntries,
      osv_malicious = NewWithMaxEntries defaultOSVCacheEntries, osv_ttl = ttl\<rparr>"

text \<open>Reading all of a body through a LimitReader: past the limit an error is not seen.\<close>

definition ReadAll_limited :: "nat \<Rightarrow> http_answer \<Rightarrow> string + string" where
  "ReadAll_limited n a =
     (if length (ans_Body a) \<ge> n then Inr (take n (ans_Body a))
      else case ans_BodyErr a of Some e \<Rightarrow> Inl e | None \<Rightarrow> Inr (ans_Body a))"

datatype osv_error = OSVTransport string | OSVStatus int string | OSVTooLarge
  | OSVJSON string | OSVTooMany nat

definition decodeOSVResponse :: "osv_lib \<Rightarrow> http_answer \<Rightarrow> osv_error + osvResponse" where
  "decodeOSVResponse lib a =
     (case ReadAll_limited (maxOSVResponseBytes + 1) a of
        Inl e \<Rightarrow> Inl (OSVTransport e)
      | Inr raw \<Rightarrow>
          if length raw > maxOSVResponseBytes then Inl OSVTooLarge
          else case lib_unmarshal lib raw of
            Inl e \<Rightarrow> Inl (OSVJSON e)
          | Inr decoded \<Rightarrow>
              if length (osv_Vulns decoded) > maxOSVFindings
              then Inl (OSVTooMany (length (osv_Vulns decoded))) else Inr decoded)"

definition finding_of :: "osv_lib \<Rightarrow> string \<Rightarrow> string \<Rightarrow> string \<Rightarrow> osvVulnerability \<Rightarrow> Finding" where
  "finding_of lib ecosystem name version vuln =
     (let (aff, fixed) = affectedRanges (vul_Affected vuln) ecosystem name;
          fixed = (if semverOrdered ecosystem then fixesAfter lib fixed version else fixed)
      in \<lparr>fnd_ID = vul_ID vuln, fnd_Aliases = vul_Aliases vuln, fnd_Summary = vul_Summary vuln,
          fnd_Severity = maxSeverity lib (vul_Severity vuln), fnd_CWEs = vul_CWEIDs vuln,
          fnd_Affected = aff, fnd_Fixed = fixed\<rparr>)"

definition withdrawn :: "time \<Rightarrow> osvVulnerability \<Rightarrow> bool" where
  "withdrawn now vuln \<longleftrightarrow> (case vul_Withdrawn vuln of None \<Rightarrow> False | Some w \<Rightarrow> \<not> w > now)"

definition limited_text :: "http_answer \<Rightarrow> string" where
  "limited_text a = TrimSpace (take 1024 (ans_Body a))"

definition osv_fetch :: "osv_lib \<Rightarrow> osv_post \<Rightarrow> time \<Rightarrow> OSVProvider \<Rightarrow> string \<Rightarrow> string \<Rightarrow> string
    \<Rightarrow> osv_error + Result" where
  "osv_fetch lib post now p ecosystem name version =
     (case post (osv_apiURL p)
        \<lparr>oq_Version = version, oq_Package = \<lparr>opr_Name = name, opr_Ecosystem = ecosystem\<rparr>\<rparr> of
        Inl e \<Rightarrow> Inl (OSVTransport e)
      | Inr a \<Rightarrow>
          if ans_Status a < 200 \<or> ans_Status a \<ge> 300
          then Inl (OSVStatus (ans_Status a) (limited_text a))
          else case decodeOSVResponse lib a of
            Inl e \<Rightarrow> Inl e
          | Inr decoded \<Rightarrow>
              Inr \<lparr>res_Findings = map (finding_of lib ecosystem name version)
                     (filter (\<lambda>v. \<not> withdrawn now v) (osv_Vulns decoded))\<rparr>)"

definition query_key :: "string \<Rightarrow> string \<Rightarrow> string \<Rightarrow> string" where
  "query_key ecosystem name version = ecosystem @ ''|'' @ name @ ''|'' @ version"

definition OSVProvider_Query :: "osv_lib \<Rightarrow> osv_post \<Rightarrow> time \<Rightarrow> time \<Rightarrow> Package \<Rightarrow> OSVProvider
    \<Rightarrow> (osv_error + Result) \<times> OSVProvider" where
  "OSVProvider_Query lib post now now' pkg p =
     (let (ecosystem, name) = osvPackage pkg in
      if ecosystem = [] \<or> name = [] \<or> pkg_Version pkg = [] then (Inr emptyResult, p)
      else
        let key = query_key ecosystem name (pkg_Version pkg);
            (cached, c) = Cache_Get now key (osv_cache p);
            p = p\<lparr>osv_cache := c\<rparr>
        in case cached of
          Some r \<Rightarrow> (Inr r, p)
        | None \<Rightarrow>
            (case osv_fetch lib post now' p ecosystem name (pkg_Version pkg) of
               Inl err \<Rightarrow>
                 (let (known, m) = Cache_Get now' key (osv_malicious p);
                      p = p\<lparr>osv_malicious := m\<rparr>
                  in case known of Some r \<Rightarrow> (Inr r, p) | None \<Rightarrow> (Inl err, p))
             | Inr result \<Rightarrow>
                 (Inr result,
                  p\<lparr>osv_cache := Cache_Set now' key result (osv_ttl p) (osv_cache p),
                    osv_malicious :=
                      (if MalwareDecision result (Fin 0) \<noteq> None
                       then Cache_Set now' key result maliciousRetention (osv_malicious p)
                       else Cache_Delete key (osv_malicious p))\<rparr>)))"

section \<open>What the decision says\<close>

lemma worst_loop_in: "worst_loop w fs \<in> set (w # fs)"
proof (induction fs arbitrary: w)
  case (Cons f fs)
  then show ?case using Cons.IH [of f] Cons.IH [of w] by auto
qed simp

lemma worst_loop_max:
  "fnd_Severity w \<noteq> NaN \<Longrightarrow> fnd_Severity (worst_loop w fs) \<noteq> NaN \<and>
     (\<forall>f \<in> set (w # fs). \<not> f64_less (fnd_Severity (worst_loop w fs)) (fnd_Severity f))"
proof (induction fs arbitrary: w)
  case (Cons g fs)
  let ?w = "if f64_less (fnd_Severity w) (fnd_Severity g) then g else w"
  have "fnd_Severity ?w \<noteq> NaN" using Cons.prems by (auto dest: f64_less_not_NaN)
  note IH = Cons.IH [OF this]
  have "\<not> f64_less (fnd_Severity (worst_loop ?w fs)) (fnd_Severity w)"
  proof (cases "f64_less (fnd_Severity w) (fnd_Severity g)")
    case True
    with IH show ?thesis using f64_less_trans by fastforce
  next
    case False
    with IH show ?thesis by simp
  qed
  moreover have "\<not> f64_less (fnd_Severity (worst_loop ?w fs)) (fnd_Severity g)"
  proof (cases "f64_less (fnd_Severity w) (fnd_Severity g)")
    case True
    with IH show ?thesis by simp
  next
    case False
    show ?thesis
    proof
      assume lt: "f64_less (fnd_Severity (worst_loop ?w fs)) (fnd_Severity g)"
      then have "f64_le (fnd_Severity g) (fnd_Severity w)"
        using False Cons.prems f64_not_less f64_less_not_NaN by blast
      with lt have "f64_less (fnd_Severity (worst_loop ?w fs)) (fnd_Severity w)"
        by (auto simp: f64_le_def dest: f64_less_trans)
      with IH False show False by simp
    qed
  qed
  ultimately show ?case using IH by simp
qed simp

text \<open>The loop of \<open>Decide\<close> finds the worst among the findings that reach the threshold.\<close>

definition reaches :: "float64 \<Rightarrow> Finding \<Rightarrow> bool" where
  "reaches t f \<longleftrightarrow> f64_less (Fin 0) t \<and> f64_le t (fnd_Severity f)"

lemma blocking_loop_Some:
  "reaches t b \<Longrightarrow> blocking_loop t (Some b) fs = Some (worst_loop b (filter (reaches t) fs))"
  by (induction fs arbitrary: b) (auto simp: reaches_def)

lemma blocking_loop_eq:
  "blocking_loop t None fs =
     (case filter (reaches t) fs of [] \<Rightarrow> None | b # bs \<Rightarrow> Some (worst_loop b bs))"
proof (induction fs)
  case (Cons f fs)
  have "blocking_loop t None (f # fs) =
    (if reaches t f then blocking_loop t (Some f) fs else blocking_loop t None fs)"
    by (simp add: reaches_def)
  with Cons show ?case by (simp add: blocking_loop_Some)
qed simp

lemma Decide_malware: "f \<in> set (res_Findings r) \<Longrightarrow> malicious f \<Longrightarrow>
  \<exists>g \<in> set (res_Findings r). malicious g \<and> Decide r d t =
    (plainDecision ActionBlock (malware_reason g) KindMalware)\<lparr>dec_Advisory := Some (advisory g t)\<rparr>"
proof -
  assume f: "f \<in> set (res_Findings r)" "malicious f"
  then obtain g where g: "find malicious (res_Findings r) = Some g"
    by (cases "find malicious (res_Findings r)") (auto simp: find_None_iff)
  then have "g \<in> set (res_Findings r)" "malicious g" by (auto simp: find_Some_iff)
  moreover from f(1) obtain x xs where "res_Findings r = x # xs" by (cases "res_Findings r") auto
  ultimately show ?thesis using g by (auto simp: Decide_def MalwareDecision_def)
qed

lemma MalwareDecision_None_iff:
  "MalwareDecision r t = None \<longleftrightarrow> (\<forall>f \<in> set (res_Findings r). \<not> malicious f)"
  by (auto simp: MalwareDecision_def find_None_iff [of malicious] split: option.split)
    (metis find_None_iff option.distinct(1))

lemma Decide_over:
  assumes "\<forall>f \<in> set (res_Findings r). \<not> malicious f"
    and "filter (reaches t) (res_Findings r) = b # bs" and "w = worst_loop b bs"
  shows "Decide r d t =
    (plainDecision ActionBlock (''vulnerability '' @ fnd_ID w @ '' severity '' @
       fmt_f1 (fnd_Severity w) @ '' exceeds threshold '' @ fmt_f1 t) KindVulnerability)
      \<lparr>dec_Advisory := Some (advisory w t)\<rparr>"
proof -
  have none: "MalwareDecision r t = None" using assms(1) by (simp add: MalwareDecision_None_iff)
  have loop: "blocking_loop t None (res_Findings r) = Some w" using assms(2,3) by (simp add: blocking_loop_eq)
  have "set (b # bs) \<subseteq> set (res_Findings r)" by (metis assms(2) filter_is_subset)
  then have "findingKind w = KindVulnerability"
    using assms(1,3) worst_loop_in [of b bs] by (auto simp: findingKind_def)
  with none loop show ?thesis by (cases "res_Findings r") (auto simp: Decide_def)
qed

lemma Decide_below:
  assumes "\<forall>f \<in> set (res_Findings r). \<not> malicious f"
    and "filter (reaches t) (res_Findings r) = []" and "res_Findings r = x # xs"
  shows "Decide r d t = (plainDecision (if d = [] then ActionWarn else d)
       (''vulnerability findings: '' @ Join (map fnd_ID (res_Findings r)) '','') KindVulnerability)
      \<lparr>dec_Advisory := Some (advisory (worst_loop x xs) t)\<rparr>"
proof -
  have none: "MalwareDecision r t = None" using assms(1) by (simp add: MalwareDecision_None_iff)
  have loop: "blocking_loop t None (res_Findings r) = None" using assms(2) by (simp add: blocking_loop_eq)
  have "findingKind (worst_loop x xs) = KindVulnerability"
    using assms(1,3) worst_loop_in [of x xs] by (auto simp: findingKind_def)
  with none loop assms(3) show ?thesis by (auto simp: Decide_def)
qed

text \<open>C1: A finding that marks malware (a MAL- record, an alias of one, or CWE-506) blocks the
  package whatever the severities, the threshold and the default action are, and the
  decision names a finding that is malware; a package without one is never blocked as malware.\<close>

theorem malware_always_blocks:
  "(\<exists>f \<in> set (res_Findings r). malicious f) \<Longrightarrow>
     dec_Action (Decide r d t) = ActionBlock \<and> dec_Kind (Decide r d t) = KindMalware \<and>
     (\<exists>g \<in> set (res_Findings r). malicious g \<and> dec_Reason (Decide r d t) = malware_reason g \<and>
        dec_Advisory (Decide r d t) = Some (advisory g t))"
  using Decide_malware [of _ r d t] by (fastforce simp: plainDecision_sel)

definition example_finding :: "string \<Rightarrow> rat \<Rightarrow> Finding" where
  "example_finding i s = \<lparr>fnd_ID = i, fnd_Aliases = [], fnd_Summary = [], fnd_Severity = Fin s,
     fnd_CWEs = [], fnd_Affected = [], fnd_Fixed = []\<rparr>"

theorem malware_always_blocks_witness:
  "(\<exists>f \<in> set (res_Findings \<lparr>res_Findings = [example_finding ''GHSA-a'' 9, example_finding ''MAL-1'' 0]\<rparr>). malicious f) \<and>
   dec_Action (Decide \<lparr>res_Findings = [example_finding ''GHSA-a'' 9, example_finding ''MAL-1'' 0]\<rparr>
     ActionMonitor (Fin 0)) = ActionBlock"
proof -
  let ?r = "\<lparr>res_Findings = [example_finding ''GHSA-a'' 9, example_finding ''MAL-1'' 0]\<rparr>"
  have m: "\<exists>f \<in> set (res_Findings ?r). malicious f"
    by (simp add: example_finding_def malicious_def malAlias_def HasPrefix_def)
  from malware_always_blocks [OF m, of ActionMonitor "Fin 0"] m show ?thesis by blast
qed

text \<open>C19: Without malware, a package is blocked for its severity exactly when the threshold is
  positive and some finding reaches it. The decision then names a finding over the
  threshold such that no finding is more severe. Otherwise the default action decides, or
  a warning when there is none. A severity or threshold that is not a number never blocks.\<close>

theorem threshold_decision:
  assumes "\<forall>f \<in> set (res_Findings r). \<not> malicious f" and "res_Findings r \<noteq> []"
  shows "if \<exists>f \<in> set (res_Findings r). f64_less (Fin 0) t \<and> f64_le t (fnd_Severity f)
    then dec_Action (Decide r d t) = ActionBlock \<and>
      (\<exists>b \<in> set (res_Findings r). dec_Advisory (Decide r d t) = Some (advisory b t) \<and>
         f64_le t (fnd_Severity b) \<and>
         (\<forall>f \<in> set (res_Findings r). \<not> f64_less (fnd_Severity b) (fnd_Severity f)))
    else dec_Action (Decide r d t) = (if d = [] then ActionWarn else d)"
proof (cases "filter (reaches t) (res_Findings r)")
  case Nil
  then have "\<not> (\<exists>f \<in> set (res_Findings r). reaches t f)" by (auto simp: filter_empty_conv)
  moreover obtain x xs where "res_Findings r = x # xs" using assms(2) by (cases "res_Findings r") auto
  ultimately show ?thesis
    using Decide_below [OF assms(1) Nil, of x xs d] by (auto simp: reaches_def)
next
  case (Cons b bs)
  let ?w = "worst_loop b bs"
  have sub: "set (b # bs) = {f \<in> set (res_Findings r). reaches t f}" using Cons by (metis set_filter)
  have w: "?w \<in> set (res_Findings r)" "reaches t ?w" using worst_loop_in [of b bs] sub by auto
  then have lew: "f64_le t (fnd_Severity ?w)" by (simp add: reaches_def)
  from sub have "fnd_Severity b \<noteq> NaN" by (auto simp: reaches_def dest: f64_le_not_NaN)
  then have max: "\<forall>f \<in> set (b # bs). \<not> f64_less (fnd_Severity ?w) (fnd_Severity f)"
    using worst_loop_max by blast
  have "\<not> f64_less (fnd_Severity ?w) (fnd_Severity f)" if "f \<in> set (res_Findings r)" for f
  proof
    assume lt: "f64_less (fnd_Severity ?w) (fnd_Severity f)"
    then have "reaches t f"
      using w(2) f64_le_less_trans [OF lew lt] by (simp add: reaches_def f64_less_imp_le)
    with that sub max lt show False by blast
  qed
  then show ?thesis
    using Decide_over [OF assms(1) Cons refl, of d] w lew by (auto simp: reaches_def)
qed

theorem threshold_decision_witness:
  "list_all (\<lambda>f. \<not> malicious f) [example_finding ''GHSA-a'' 9, example_finding ''GHSA-b'' 10] \<and>
   dec_Action (Decide \<lparr>res_Findings = [example_finding ''GHSA-a'' 9, example_finding ''GHSA-b'' 10]\<rparr>
     ActionWarn (Fin 7)) = ActionBlock"
proof -
  let ?r = "\<lparr>res_Findings = [example_finding ''GHSA-a'' 9, example_finding ''GHSA-b'' 10]\<rparr>"
  have m: "\<forall>f \<in> set (res_Findings ?r). \<not> malicious f" "res_Findings ?r \<noteq> []"
    by (simp_all add: example_finding_def malicious_def malAlias_def HasPrefix_def)
  from threshold_decision [OF m, of "Fin 7" ActionWarn] m(1)
  show ?thesis
    by (simp add: example_finding_def f64_le_def)
qed

section \<open>What the provider remembers\<close>

lemma max_loop_max: "m \<noteq> NaN \<Longrightarrow> max_loop m ss \<noteq> NaN \<and> f64_le m (max_loop m ss) \<and>
  (\<forall>s \<in> set ss. \<not> f64_less (max_loop m ss) s)"
proof (induction ss arbitrary: m)
  case Nil
  then show ?case by (simp add: f64_le_refl)
next
  case (Cons s ss)
  let ?m = "if f64_less m s then s else m"
  have m: "?m \<noteq> NaN" using Cons.prems by (auto dest: f64_less_not_NaN)
  note IH = Cons.IH [OF m]
  have le: "f64_le m ?m" using Cons.prems by (auto simp: f64_le_refl f64_less_imp_le)
  then have "f64_le m (max_loop ?m ss)" using IH f64_le_trans by blast
  moreover have "\<not> f64_less (max_loop ?m ss) s"
  proof
    assume lt: "f64_less (max_loop ?m ss) s"
    then have "f64_less ?m s" using IH f64_le_less_trans by blast
    then show False by (cases "f64_less m s") simp_all
  qed
  ultimately show ?case using IH by simp
qed

text \<open>The severity of a vulnerability is a number, at least 0, and at least every score
  its entries have: an entry that cannot be parsed counts as 0, one that is not a number
  is passed over.\<close>

theorem maxSeverity_is_maximum:
  "maxSeverity lib sevs \<noteq> NaN \<and> f64_le (Fin 0) (maxSeverity lib sevs) \<and>
   \<not> (\<exists>s \<in> set sevs. f64_less (maxSeverity lib sevs) (severityScore lib (sev_Score s)))"
  using max_loop_max [of "Fin 0" "map (\<lambda>s. severityScore lib (sev_Score s)) sevs"]
  by (auto simp: maxSeverity_def)

definition osv_inv :: "OSVProvider \<Rightarrow> bool" where
  "osv_inv p \<longleftrightarrow> cache_inv (osv_cache p) \<and> cache_inv (osv_malicious p) \<and>
     cc_maxEntries (osv_cache p) = defaultOSVCacheEntries \<and>
     cc_maxEntries (osv_malicious p) = defaultOSVCacheEntries"

definition pkg_key :: "Package \<Rightarrow> string" where
  "pkg_key pkg = query_key (fst (osvPackage pkg)) (snd (osvPackage pkg)) (pkg_Version pkg)"

definition queried :: "Package \<Rightarrow> bool" where
  "queried pkg \<longleftrightarrow> fst (osvPackage pkg) \<noteq> [] \<and> snd (osvPackage pkg) \<noteq> [] \<and> pkg_Version pkg \<noteq> []"

abbreviation fetch_pkg :: "osv_lib \<Rightarrow> osv_post \<Rightarrow> time \<Rightarrow> OSVProvider \<Rightarrow> Package \<Rightarrow> osv_error + Result" where
  "fetch_pkg lib post now p pkg \<equiv>
     osv_fetch lib post now p (fst (osvPackage pkg)) (snd (osvPackage pkg)) (pkg_Version pkg)"

lemma osv_fetch_cache [simp]:
  "osv_fetch lib post now (p\<lparr>osv_cache := c\<rparr>) e n v = osv_fetch lib post now p e n v"
  "osv_fetch lib post now (p\<lparr>osv_malicious := c\<rparr>) e n v = osv_fetch lib post now p e n v"
  by (simp_all add: osv_fetch_def)

text \<open>A query, case by case.\<close>

lemma Query_eq:
  "OSVProvider_Query lib post now now' pkg p =
    (if \<not> queried pkg then (Inr emptyResult, p)
     else let k = pkg_key pkg; p1 = p\<lparr>osv_cache := snd (Cache_Get now k (osv_cache p))\<rparr> in
       case fst (Cache_Get now k (osv_cache p)) of
         Some r \<Rightarrow> (Inr r, p1)
       | None \<Rightarrow>
         (case fetch_pkg lib post now' p pkg of
            Inl err \<Rightarrow>
              (case fst (Cache_Get now' k (osv_malicious p)) of Some r \<Rightarrow> Inr r | None \<Rightarrow> Inl err,
               p1\<lparr>osv_malicious := snd (Cache_Get now' k (osv_malicious p))\<rparr>)
          | Inr r \<Rightarrow>
              (Inr r, p1\<lparr>osv_cache := Cache_Set now' k r (osv_ttl p) (osv_cache p1),
                osv_malicious := (if \<exists>f \<in> set (res_Findings r). malicious f
                  then Cache_Set now' k r maliciousRetention (osv_malicious p)
                  else Cache_Delete k (osv_malicious p))\<rparr>)))"
proof -
  have mal: "(\<exists>y. MalwareDecision r t = Some y) \<longleftrightarrow> (\<exists>f \<in> set (res_Findings r). malicious f)" for r t
    using MalwareDecision_None_iff [of r t] by (metis not_Some_eq)
  show ?thesis
    by (simp add: OSVProvider_Query_def pkg_key_def queried_def Let_def case_prod_beta mal
        split: option.split sum.split)
qed

lemma Cache_Get_max [simp]: "cc_maxEntries (snd (Cache_Get now k c)) = cc_maxEntries c"
  using maxEntries_op [of "OpGet now k"] by simp

lemma Cache_Set_max [simp]: "cc_maxEntries (Cache_Set now k v ttl c) = cc_maxEntries c"
  using maxEntries_op [of "OpSet now k v ttl"] by simp

lemma Cache_Delete_max [simp]: "cc_maxEntries (Cache_Delete k c) = cc_maxEntries c"
  using maxEntries_op [of "OpDelete k"] by simp

lemmas cache_op_inv = go_cache.invar_get go_cache.invar_put go_cache.invar_del

lemma Query_apiURL [simp]: "osv_apiURL (snd (OSVProvider_Query lib post now now' pkg p)) = osv_apiURL p"
  by (simp add: Query_eq Let_def split: option.split sum.split)

lemma osv_inv_Query: "osv_inv p \<Longrightarrow> osv_inv (snd (OSVProvider_Query lib post now now' pkg p))"
  by (simp add: Query_eq Let_def osv_inv_def cache_op_inv split: option.split sum.split)

lemma osv_inv_New: "osv_inv (NewOSVProvider url ttl)"
  by (simp add: osv_inv_def NewOSVProvider_def cache_inv_New) (simp add: NewWithMaxEntries_def)

text \<open>The provider retains the result r under the key k until t, and remembers no other.\<close>

definition retains :: "string \<Rightarrow> Result \<Rightarrow> time \<Rightarrow> OSVProvider \<Rightarrow> bool" where
  "retains k r t p \<longleftrightarrow> osv_inv p \<and> cache_lookup (osv_malicious p) k = Some (r, t) \<and>
     (\<forall>r' t'. cache_lookup (osv_cache p) k = Some (r', t') \<longrightarrow> r' = r)"

lemma Query_miss:
  assumes "queried pkg" and "fst (Cache_Get now (pkg_key pkg) (osv_cache p)) = None"
    and "fetch_pkg lib post now' p pkg = Inr r"
  shows "OSVProvider_Query lib post now now' pkg p = (Inr r,
    p\<lparr>osv_cache := Cache_Set now' (pkg_key pkg) r (osv_ttl p) (snd (Cache_Get now (pkg_key pkg) (osv_cache p))),
      osv_malicious := (if \<exists>f \<in> set (res_Findings r). malicious f
        then Cache_Set now' (pkg_key pkg) r maliciousRetention (osv_malicious p)
        else Cache_Delete (pkg_key pkg) (osv_malicious p))\<rparr>)"
  using assms by (simp add: Query_eq Let_def)

lemma retains_fresh:
  assumes "osv_inv p" and "queried pkg" and "fst (Cache_Get now (pkg_key pkg) (osv_cache p)) = None"
    and "fetch_pkg lib post now' p pkg = Inr r" and "\<exists>f \<in> set (res_Findings r). malicious f"
  shows "retains (pkg_key pkg) r (now' + maliciousRetention)
    (snd (OSVProvider_Query lib post now now' pkg p))"
  using assms osv_inv_Query [OF assms(1)]
  by (auto simp: Query_miss retains_def osv_inv_def go_cache.put_same cache_op_inv maliciousRetention_def)

lemma length_Set_le: "cache_inv c \<Longrightarrow> length (cc_items (Cache_Set now k v ttl c)) \<le> Suc (length (cc_items c))"
  by (simp add: Cache_Set_eq length_update map_of_eq_None_iff [symmetric] length_delete_le)

lemma length_Get_le: "length (cc_items (snd (Cache_Get now k c))) \<le> length (cc_items c)"
  by (simp add: Cache_Get_def cache_delete_def length_delete_le split: option.split)

lemma length_Delete_le: "length (cc_items (Cache_Delete k c)) \<le> length (cc_items c)"
  by (simp add: Cache_Delete_def cache_delete_def length_delete_le)

lemma Query_grows_by_one:
  "osv_inv p \<Longrightarrow> length (cc_items (osv_malicious (snd (OSVProvider_Query lib post now now' pkg p))))
     \<le> Suc (length (cc_items (osv_malicious p)))"
  using length_Get_le [of now' "pkg_key pkg" "osv_malicious p"]
    length_Delete_le [of "pkg_key pkg" "osv_malicious p"]
  by (auto simp: Query_eq Let_def osv_inv_def length_Set_le split: option.split sum.split)

lemma cache_put_other_room:
  assumes "cache_inv c" and "k' \<noteq> k" and "int (length (cc_items c)) < cc_maxEntries c"
  shows "cache_lookup (Cache_Set now k v ttl c) k' = cache_lookup c k'"
  using assms by (simp add: cache_lookup_Set_other)

lemma retains_other:
  assumes "retains k r t p" and "pkg_key pkg \<noteq> k"
    and "length (cc_items (osv_malicious p)) < nat defaultOSVCacheEntries"
  shows "retains k r t (snd (OSVProvider_Query lib post now now' pkg p))"
proof -
  let ?q = "snd (OSVProvider_Query lib post now now' pkg p)" and ?k = "pkg_key pkg"
  have inv: "osv_inv p" "cache_inv (osv_cache p)" "cache_inv (osv_malicious p)"
    using assms(1) by (auto simp: retains_def osv_inv_def)
  have room: "int (length (cc_items (osv_malicious p))) < cc_maxEntries (osv_malicious p)"
    using assms(1,3) by (simp add: retains_def osv_inv_def defaultOSVCacheEntries_def)
  have get: "cache_lookup (snd (Cache_Get s ?k c)) k = cache_lookup c k"
    if "cache_inv c" for s and c :: "Result Cache"
    using that assms(2) by (simp add: go_cache.get_lookup)
  have mal: "cache_lookup (osv_malicious ?q) k = cache_lookup (osv_malicious p) k"
    using inv assms(2) room
    by (simp add: Query_eq Let_def get cache_put_other_room go_cache.del_lookup
        split: option.split sum.split)
  have "cache_lookup (osv_cache ?q) k = cache_lookup (osv_cache p) k \<or> cache_lookup (osv_cache ?q) k = None"
    using inv assms(2) go_cache.put_other [of "snd (Cache_Get now ?k (osv_cache p))" k ?k]
    by (simp add: Query_eq Let_def get cache_op_inv split: option.split sum.split)
  with mal assms(1) osv_inv_Query [OF inv(1)] show ?thesis by (auto simp: retains_def)
qed

record query =
  qry_post :: osv_post
  qry_now :: time
  qry_now' :: time
  qry_pkg :: Package

definition run_query :: "osv_lib \<Rightarrow> query \<Rightarrow> OSVProvider \<Rightarrow> OSVProvider" where
  "run_query lib q p = snd (OSVProvider_Query lib (qry_post q) (qry_now q) (qry_now' q) (qry_pkg q) p)"

lemma run_queries_apiURL [simp]: "osv_apiURL (fold (run_query lib) qs p) = osv_apiURL p"
  by (induction qs arbitrary: p) (auto simp: run_query_def)

lemma retains_run:
  assumes "retains k r t p" and "\<forall>q \<in> set qs. pkg_key (qry_pkg q) \<noteq> k"
    and "length (cc_items (osv_malicious p)) + length qs \<le> nat defaultOSVCacheEntries"
  shows "retains k r t (fold (run_query lib) qs p)"
  using assms
proof (induction qs arbitrary: p)
  case (Cons q qs)
  have "retains k r t (run_query lib q p)"
    using Cons.prems by (simp add: run_query_def retains_other)
  moreover have "length (cc_items (osv_malicious (run_query lib q p))) + length qs \<le> nat defaultOSVCacheEntries"
    using Cons.prems Query_grows_by_one [of p lib "qry_post q" "qry_now q" "qry_now' q" "qry_pkg q"]
    by (simp add: run_query_def retains_def)
  ultimately show ?case using Cons.IH Cons.prems(2) by simp
qed simp

lemma osv_fetch_apiURL:
  "osv_apiURL p = osv_apiURL p' \<Longrightarrow> osv_fetch lib post now p e n v = osv_fetch lib post now p' e n v"
  by (simp add: osv_fetch_def)

lemma retains_outage:
  assumes "retains k r t p" and "k = pkg_key pkg" and "queried pkg"
    and "fetch_pkg lib post now' p pkg = Inl err" and "now' \<le> t"
  shows "fst (OSVProvider_Query lib post now now' pkg p) = Inr r"
proof (cases "fst (Cache_Get now k (osv_cache p))")
  case None
  have "fst (Cache_Get now' k (osv_malicious p)) = Some r"
    using assms(1,5) by (auto simp: retains_def osv_inv_def go_cache.get_result live_def)
  with None assms show ?thesis by (simp add: Query_eq Let_def)
next
  case (Some x)
  then have "x = r" using assms(1)
    by (auto simp: retains_def osv_inv_def go_cache.get_result live_def split: option.splits if_splits)
  with Some assms show ?thesis by (simp add: Query_eq Let_def)
qed

text \<open>Once OSV has answered that a package is malicious, a query for it during an outage of
  OSV in the following seven days still returns that answer, whatever other packages have been
  queried in between, as long as they are too few to fill the cache of malicious results.\<close>

theorem malware_survives_outage:
  assumes "osv_inv p" and "queried pkg" and "fst (Cache_Get now (pkg_key pkg) (osv_cache p)) = None"
    and "fetch_pkg lib post now' p pkg = Inr r" and "\<exists>f \<in> set (res_Findings r). malicious f"
    and "\<forall>q \<in> set qs. pkg_key (qry_pkg q) \<noteq> pkg_key pkg"
    and "length (cc_items (osv_malicious p)) + length qs < nat defaultOSVCacheEntries"
    and "fetch_pkg lib post2 t' p pkg = Inl err" and "t' \<le> now' + maliciousRetention"
  shows "fst (OSVProvider_Query lib post2 t t' pkg
    (fold (run_query lib) qs (snd (OSVProvider_Query lib post now now' pkg p)))) = Inr r"
proof -
  let ?p = "snd (OSVProvider_Query lib post now now' pkg p)"
  have len: "length (cc_items (osv_malicious ?p)) + length qs \<le> nat defaultOSVCacheEntries"
    using assms(7) Query_grows_by_one [OF assms(1), of lib post now now' pkg] by linarith
  have "retains (pkg_key pkg) r (now' + maliciousRetention) (fold (run_query lib) qs ?p)"
    using retains_fresh [OF assms(1-5)] assms(6) len by (rule retains_run)
  moreover have "fetch_pkg lib post2 t' (fold (run_query lib) qs ?p) pkg = Inl err"
    using assms(8) osv_fetch_apiURL [of "fold (run_query lib) qs ?p" p] by simp
  ultimately show ?thesis using assms(2,9) retains_outage by blast
qed

definition example_vuln :: "string \<Rightarrow> osvVulnerability" where
  "example_vuln i = \<lparr>vul_ID = i, vul_Aliases = [], vul_Summary = [], vul_Severity = [],
     vul_Affected = [], vul_Withdrawn = None, vul_CWEIDs = []\<rparr>"

text \<open>A stand-in for the libraries: every body decodes to a record named by the body itself.\<close>

definition example_lib :: osv_lib where
  "example_lib = \<lparr>lib_ParseFloat = \<lambda>_. None, lib_cvss20 = \<lambda>_. None, lib_cvss30 = \<lambda>_. None,
     lib_cvss31 = \<lambda>_. None, lib_cvss40 = \<lambda>_. None, lib_semver_IsValid = \<lambda>_. False,
     lib_semver_Compare = \<lambda>_ _. 0,
     lib_unmarshal = \<lambda>raw. Inr \<lparr>osv_Vulns = [example_vuln raw]\<rparr>\<rparr>"

definition example_post :: "string \<Rightarrow> osv_post" where
  "example_post body = (\<lambda>_ _. Inr \<lparr>ans_Status = 200, ans_Body = body, ans_BodyErr = None\<rparr>)"

definition example_npm :: "string \<Rightarrow> Package" where
  "example_npm n = emptyPackage\<lparr>pkg_Ecosystem := ''npm'', pkg_Name := n, pkg_Version := ''1''\<rparr>"

lemma example_fetch:
  "length body \<le> 100 \<Longrightarrow> fetch_pkg example_lib (example_post body) now p (example_npm n) =
     Inr \<lparr>res_Findings = [example_finding body 0]\<rparr>"
  by (simp add: osv_fetch_def example_post_def decodeOSVResponse_def ReadAll_limited_def
      maxOSVResponseBytes_def maxOSVFindings_def example_lib_def example_vuln_def withdrawn_def
      finding_of_def affectedRanges_def matching_affected_def semverOrdered_def fixesAfter_def
      semverOf_def maxSeverity_def example_finding_def example_npm_def osvPackage_def)

lemma osv_fetch_down: "osv_fetch lib (\<lambda>_ _. Inl e) now p ec n v = Inl (OSVTransport e)"
  by (simp add: osv_fetch_def)

lemma example_ttl: "osv_ttl (NewOSVProvider u ttl) = ttl"
  by (simp add: NewOSVProvider_def)

lemma example_queried: "n \<noteq> [] \<Longrightarrow> queried (example_npm n)"
  by (simp add: queried_def example_npm_def osvPackage_def)

lemma example_cold: "fst (Cache_Get now k (osv_cache (NewOSVProvider u ttl))) = None"
  "length (cc_items (osv_malicious (NewOSVProvider u ttl))) = 0"
  by (simp_all add: NewOSVProvider_def NewWithMaxEntries_def Cache_Get_def)

theorem malware_survives_outage_witness:
  "(\<exists>f \<in> set (res_Findings \<lparr>res_Findings = [example_finding ''MAL-1'' 0]\<rparr>). malicious f) \<and>
   pkg_key (example_npm ''b'') \<noteq> pkg_key (example_npm ''a'') \<and>
   fst (OSVProvider_Query example_lib (\<lambda>_ _. Inl ''down'') 1000 1000 (example_npm ''a'')
     (fold (run_query example_lib) [\<lparr>qry_post = example_post ''MAL-2'', qry_now = 3, qry_now' = 4,
        qry_pkg = example_npm ''b''\<rparr>]
       (snd (OSVProvider_Query example_lib (example_post ''MAL-1'') 1 2 (example_npm ''a'')
          (NewOSVProvider ''u'' 5))))) = Inr \<lparr>res_Findings = [example_finding ''MAL-1'' 0]\<rparr>"
proof -
  have m: "\<exists>f \<in> set (res_Findings \<lparr>res_Findings = [example_finding ''MAL-1'' 0]\<rparr>). malicious f"
    by (simp add: example_finding_def malicious_def malAlias_def HasPrefix_def)
  have k: "pkg_key (example_npm ''b'') \<noteq> pkg_key (example_npm ''a'')"
    by (simp add: pkg_key_def query_key_def example_npm_def osvPackage_def)
  have "fst (OSVProvider_Query example_lib (\<lambda>_ _. Inl ''down'') 1000 1000 (example_npm ''a'')
     (fold (run_query example_lib) [\<lparr>qry_post = example_post ''MAL-2'', qry_now = 3, qry_now' = 4,
        qry_pkg = example_npm ''b''\<rparr>]
       (snd (OSVProvider_Query example_lib (example_post ''MAL-1'') 1 2 (example_npm ''a'')
          (NewOSVProvider ''u'' 5))))) = Inr \<lparr>res_Findings = [example_finding ''MAL-1'' 0]\<rparr>"
    using m k by (intro malware_survives_outage [where err = "OSVTransport ''down''"])
      (simp_all add: osv_inv_New example_queried example_cold example_fetch osv_fetch_down
        maliciousRetention_def defaultOSVCacheEntries_def)
  with m k show ?thesis by blast
qed

text \<open>An answer of OSV that no longer marks the package as malicious is believed at once: when
  OSV is down after that answer's time to live, the query fails instead of returning an old
  malicious result.\<close>

theorem clean_answer_forgets_malware:
  assumes "osv_inv p" and "queried pkg" and "fst (Cache_Get now (pkg_key pkg) (osv_cache p)) = None"
    and "fetch_pkg lib post now' p pkg = Inr r" and "\<not> (\<exists>f \<in> set (res_Findings r). malicious f)"
    and "0 \<le> now'" and "0 < osv_ttl p" and "now' + osv_ttl p < t"
    and "fetch_pkg lib post2 t' p pkg = Inl err"
  shows "fst (OSVProvider_Query lib post2 t t' pkg
    (snd (OSVProvider_Query lib post now now' pkg p))) = Inl err"
proof -
  let ?k = "pkg_key pkg" and ?q = "snd (OSVProvider_Query lib post now now' pkg p)"
  have q: "?q = p\<lparr>osv_cache := Cache_Set now' ?k r (osv_ttl p) (snd (Cache_Get now ?k (osv_cache p))),
      osv_malicious := Cache_Delete ?k (osv_malicious p)\<rparr>"
    using assms(5) by (simp add: Query_miss [OF assms(2-4)])
  have "fst (Cache_Get t ?k (osv_cache ?q)) = None"
    using assms(1,6-8) by (simp add: q osv_inv_def go_cache.get_expired cache_op_inv)
  moreover have "fst (Cache_Get t' ?k (osv_malicious ?q)) = None"
    using assms(1) by (simp add: q osv_inv_def go_cache.get_del)
  moreover have "fetch_pkg lib post2 t' ?q pkg = Inl err"
    using assms(9) osv_fetch_apiURL [of ?q p] by simp
  ultimately show ?thesis using assms(2) by (simp add: Query_eq Let_def)
qed

theorem clean_answer_forgets_malware_witness:
  "\<not> (\<exists>f \<in> set (res_Findings \<lparr>res_Findings = [example_finding ''GHSA-1'' 0]\<rparr>). malicious f) \<and>
   fst (OSVProvider_Query example_lib (\<lambda>_ _. Inl ''down'') 1000 1000 (example_npm ''a'')
     (snd (OSVProvider_Query example_lib (example_post ''GHSA-1'') 3 4 (example_npm ''a'')
       (NewOSVProvider ''u'' 5)))) = Inl (OSVTransport ''down'')"
proof -
  have m: "\<not> (\<exists>f \<in> set (res_Findings \<lparr>res_Findings = [example_finding ''GHSA-1'' 0]\<rparr>). malicious f)"
    by (simp add: example_finding_def malicious_def malAlias_def HasPrefix_def)
  have "fst (OSVProvider_Query example_lib (\<lambda>_ _. Inl ''down'') 1000 1000 (example_npm ''a'')
     (snd (OSVProvider_Query example_lib (example_post ''GHSA-1'') 3 4 (example_npm ''a'')
       (NewOSVProvider ''u'' 5)))) = Inl (OSVTransport ''down'')"
    by (rule clean_answer_forgets_malware [OF _ _ _ _ m])
      (simp_all add: osv_inv_New example_queried example_cold example_fetch osv_fetch_down example_ttl)
  with m show ?thesis by blast
qed

end
