(* ===== verification/Registry.thy ===== *)
theory Registry
  imports Policy
begin

text \<open>
  internal/registry: which package a request path names, for the npm, PyPI, Maven, Go and
  static routes, and the package URLs the policy is matched against. The functions
  \<open>UnescapeVersion\<close> and \<open>CanonicalVersion\<close> of golang.org/x/mod/module are parameters, in the record
  \<open>module_lib\<close>. The regular expressions are run on bytes: each of their literals is ASCII, and an
  ASCII byte is always a character of its own, so this is the match on characters.
\<close>

record Route =
  route_Name :: string
  route_Ecosystem :: string
  route_PathPrefix :: string
  route_UpstreamURL :: string
  route_FileUpstreamURL :: string
  route_UpstreamTokenEnv :: string

record RequestInfo =
  ri_Package :: Package
  ri_Kind :: string
  ri_UpstreamPath :: string
  ri_FileUpstream :: bool
  ri_NeedsDecision :: bool
  ri_Cacheable :: bool
  ri_SkipVulnerabilityCheck :: bool

record module_lib =
  mod_UnescapeVersion :: "string \<Rightarrow> string option"
  mod_CanonicalVersion :: "string \<Rightarrow> string"

section \<open>Paths\<close>

definition splitPath :: "string \<Rightarrow> string list" where
  "splitPath value0 = (let value = Trim value0 ''/'' in if value = [] then [] else Split value CHR ''/'')"

definition lastPathPart :: "string \<Rightarrow> string" where
  "lastPathPart value = (let parts = splitPath value in if parts = [] then [] else last parts)"

text \<open>net/url's PathUnescape: a percent sign and two hexadecimal digits are a byte, anything else
  after a percent sign is an error.\<close>

definition hex_digits :: string where "hex_digits = ''0123456789abcdef''"

definition unhex :: "char \<Rightarrow> nat option" where
  "unhex c = (let c = lower_char c in
     if c \<in> set hex_digits then Some (length (takeWhile (\<lambda>d. d \<noteq> c) hex_digits)) else None)"

fun PathUnescape :: "string \<Rightarrow> string option" where
  "PathUnescape [] = Some []"
| "PathUnescape (c # s) =
     (if c = CHR ''%'' then
        (case s of
           a # b # r \<Rightarrow>
             (case (unhex a, unhex b) of
                (Some x, Some y) \<Rightarrow> map_option ((#) (char_of (16 * x + y))) (PathUnescape r)
              | _ \<Rightarrow> None)
         | _ \<Rightarrow> None)
      else map_option ((#) c) (PathUnescape s))"

definition unescapePathPart :: "string \<Rightarrow> string" where
  "unescapePathPart value = (case PathUnescape value of Some decoded \<Rightarrow> decoded | None \<Rightarrow> value)"

definition trimKnownSuffix :: "string \<Rightarrow> string list \<Rightarrow> string" where
  "trimKnownSuffix value sufs = foldl TrimSuffix value sufs"

text \<open>path.Clean and path.Join of two elements: the stack holds the elements kept, last first.\<close>

fun clean_elems :: "bool \<Rightarrow> string list \<Rightarrow> string list \<Rightarrow> string list" where
  "clean_elems rooted stack [] = rev stack"
| "clean_elems rooted stack (e # es) =
     (if e = [] \<or> e = ''.'' then clean_elems rooted stack es
      else if e = ''..'' then
        (if stack \<noteq> [] \<and> hd stack \<noteq> ''..'' then clean_elems rooted (tl stack) es
         else if rooted then clean_elems rooted stack es
         else clean_elems rooted (''..'' # stack) es)
      else clean_elems rooted (e # stack) es)"

definition path_Clean :: "string \<Rightarrow> string" where
  "path_Clean p =
     (let rooted = HasPrefix p ''/'';
          out = (if rooted then ''/'' else []) @ Join (clean_elems rooted [] (Split p CHR ''/'')) ''/''
      in if out = [] then ''.'' else out)"

definition path_Join :: "string \<Rightarrow> string \<Rightarrow> string" where
  "path_Join a b =
     (if a = [] \<and> b = [] then []
      else if a = [] then path_Clean b
      else if b = [] then path_Clean a
      else path_Clean (a @ ''/'' @ b))"

section \<open>Package URLs\<close>

definition purl :: "string \<Rightarrow> string \<Rightarrow> string \<Rightarrow> string" where
  "purl ecosystem name version =
     (if name = [] \<or> version = [] then []
      else if ecosystem = ''npm'' then ''pkg:npm/'' @ name @ ''@'' @ version
      else if ecosystem = ''pypi'' then ''pkg:pypi/'' @ name @ ''@'' @ version
      else if ecosystem = ''maven'' then ''pkg:maven/'' @ name @ ''@'' @ version
      else if ecosystem = ''go'' then ''pkg:golang/'' @ name @ ''@'' @ version
      else [])"

function replace_runs :: "(char \<Rightarrow> bool) \<Rightarrow> string \<Rightarrow> string \<Rightarrow> string" where
  "replace_runs p r [] = []"
| "replace_runs p r (c # cs) =
     (if p c then r @ replace_runs p r (dropWhile p cs) else c # replace_runs p r cs)"
  by pat_completeness auto
termination
  by (relation "measure (\<lambda>(_, _, s). length s)") (auto simp: less_Suc_eq_le length_dropWhile_le)

definition pypiNormalizeRE :: "char \<Rightarrow> bool" where
  "pypiNormalizeRE c \<longleftrightarrow> c \<in> set ''-_.''"

definition normalizePyPI :: "string \<Rightarrow> string" where
  "normalizePyPI name = ToLower (replace_runs pypiNormalizeRE ''-'' name)"

datatype purl_error = NotPURL | PURLNoName | PURLNeedsVersion | PURLNeedsGroupArtifact
  | UnsupportedPURLType string

definition purl_package :: "string \<Rightarrow> string \<Rightarrow> string \<Rightarrow> string \<Rightarrow> Package" where
  "purl_package ecosystem policyName name version =
     \<lparr>pkg_Ecosystem = ecosystem, pkg_Name = policyName, pkg_Version = version,
      pkg_PURL = purl ecosystem name version, pkg_PublishedAt = 0\<rparr>"

definition PackageFromPURL :: "string \<Rightarrow> purl_error + Package" where
  "PackageFromPURL raw =
     (let (rest, ok) = CutPrefix raw ''pkg:'' in
      if \<not> ok then Inl NotPURL
      else let (purlType, rest, ok) = Cut rest CHR ''/'' in
      if \<not> ok then Inl PURLNoName
      else let rest = fst (Cut rest CHR ''#''); rest = fst (Cut rest CHR ''?'') in
      case LastIndexByte rest CHR ''@'' of
        None \<Rightarrow> Inl PURLNeedsVersion
      | Some i \<Rightarrow>
          if i = 0 \<or> Suc i = length rest then Inl PURLNeedsVersion
          else
            let name = unescapePathPart (take i rest); version = unescapePathPart (drop (i + 1) rest) in
            if purlType = ''npm'' then Inr (purl_package ''npm'' name name version)
            else if purlType = ''pypi'' then
              (let name = normalizePyPI name in Inr (purl_package ''pypi'' name name version))
            else if purlType = ''maven'' then
              (let (grp, art, ok) = Cut name CHR ''/'' in
               if \<not> ok then Inl PURLNeedsGroupArtifact
               else Inr (purl_package ''maven'' (grp @ '':'' @ art) name version))
            else if purlType = ''golang'' then Inr (purl_package ''go'' name name version)
            else Inl (UnsupportedPURLType purlType))"

section \<open>Artifact file names\<close>

definition not_newline :: "char \<Rightarrow> bool" where
  "not_newline c \<longleftrightarrow> c \<noteq> CHR 0x0A"

definition alnum :: "char \<Rightarrow> bool" where
  "alnum c \<longleftrightarrow> is_digit c \<or> c \<in> set upper_letters \<or> c \<in> set lower_letters"

definition npm_pre :: "char \<Rightarrow> bool" where
  "npm_pre c \<longleftrightarrow> alnum c \<or> c = CHR ''.'' \<or> c = CHR ''-''"

definition npm_core :: "char re" where
  "npm_core = re_seq [Rep True 1 is_digit, re_lit ''.'', Rep True 1 is_digit, re_lit ''.'',
     Rep True 1 is_digit]"

definition npm_version_re :: "char re" where
  "npm_version_re = re_seq [npm_core, Opt (Cat (re_lit ''-'') (Rep True 1 npm_pre)),
     Opt (Cat (re_lit ''+'') (Rep True 1 npm_pre))]"

definition npmTarballVersionRE :: "char re" where
  "npmTarballVersionRE =
     re_seq [Grp 1 (Rep True 1 not_newline), re_lit ''-'', Grp 2 npm_version_re, re_lit ''.tgz'']"

definition wheelRE :: "char re" where
  "wheelRE = re_seq [Grp 1 (Rep False 1 not_newline), re_lit ''-'',
     Grp 2 (Cat (Cls is_digit) (Rep True 0 (\<lambda>c. c \<noteq> CHR ''-''))), re_lit ''-'',
     Rep True 0 not_newline, re_lit ''.whl'']"

definition sdistRE :: "char re" where
  "sdistRE = re_seq [Grp 1 (Rep False 1 not_newline), re_lit ''-'',
     Grp 2 (Cat (Cls is_digit) (Rep True 0 (\<lambda>c. alnum c \<or> c \<in> set ''.!+_-''))), re_lit ''.'',
     Alt (re_lit ''tar.gz'') (Alt (re_lit ''zip'') (Alt (re_lit ''tar.bz2'') (re_lit ''tar.xz'')))]"

definition group :: "nat \<Rightarrow> 'a captures \<Rightarrow> 'a list" where
  "group n c = (case map_of c n of Some s \<Rightarrow> s | None \<Rightarrow> [])"

definition npmVersionFromTarball :: "string \<Rightarrow> string" where
  "npmVersionFromTarball filename =
     (case re_match npmTarballVersionRE filename of Some m \<Rightarrow> group 2 m | None \<Rightarrow> [])"

definition parsePyPIFile :: "string \<Rightarrow> string \<times> string" where
  "parsePyPIFile filename =
     (case re_match wheelRE filename of
        Some m \<Rightarrow> (group 1 m, group 2 m)
      | None \<Rightarrow>
          (case re_match sdistRE filename of
             Some m \<Rightarrow> (group 1 m, group 2 m)
           | None \<Rightarrow> ([], [])))"

section \<open>Identification per ecosystem\<close>

definition npmNameFromParts :: "string list \<Rightarrow> string" where
  "npmNameFromParts parts =
     (if parts = [] then []
      else if HasPrefix (parts ! 0) ''@'' \<and> length parts \<ge> 2 then
        path_Join (unescapePathPart (parts ! 0)) (unescapePathPart (parts ! 1))
      else unescapePathPart (parts ! 0))"

definition identifyNPM :: "Route \<Rightarrow> string \<Rightarrow> RequestInfo \<Rightarrow> RequestInfo" where
  "identifyNPM route relative info =
     (let parts = splitPath relative; n = length parts in
      if n = 0 then info
      else if n \<ge> 3 \<and> parts ! (n - 2) = ''-'' \<and> HasSuffix (parts ! (n - 1)) ''.tgz'' then
        let name = npmNameFromParts (take (n - 2) parts);
            version = npmVersionFromTarball (parts ! (n - 1))
        in info\<lparr>ri_Kind := ''artifact'', ri_NeedsDecision := True,
             ri_Package := emptyPackage\<lparr>pkg_Ecosystem := route_Ecosystem route, pkg_Name := name,
               pkg_Version := version, pkg_PURL := purl ''npm'' name version\<rparr>\<rparr>
      else info\<lparr>ri_Package := emptyPackage\<lparr>pkg_Ecosystem := route_Ecosystem route,
             pkg_Name := npmNameFromParts parts\<rparr>\<rparr>)"

definition identifyPyPI :: "Route \<Rightarrow> string \<Rightarrow> RequestInfo \<Rightarrow> RequestInfo" where
  "identifyPyPI route relative info =
     (if HasPrefix relative ''files/'' then
        let (name, version) = parsePyPIFile (lastPathPart relative)
        in info\<lparr>ri_FileUpstream := True, ri_Kind := ''artifact'', ri_NeedsDecision := True,
             ri_Package := emptyPackage\<lparr>pkg_Ecosystem := route_Ecosystem route,
               pkg_Name := normalizePyPI name, pkg_Version := version,
               pkg_PURL := purl ''pypi'' (normalizePyPI name) version\<rparr>,
             ri_UpstreamPath := ''/'' @ TrimPrefix relative ''files/''\<rparr>
      else if HasPrefix relative ''simple/'' then
        let parts = splitPath relative in
        if length parts \<ge> 2 then
          info\<lparr>ri_Package := emptyPackage\<lparr>pkg_Ecosystem := route_Ecosystem route,
            pkg_Name := normalizePyPI (parts ! 1)\<rparr>\<rparr>
        else info
      else info)"

definition identifyMaven :: "Route \<Rightarrow> string \<Rightarrow> RequestInfo \<Rightarrow> RequestInfo" where
  "identifyMaven route relative info =
     (let parts = splitPath relative; n = length parts in
      if n < 4 then info
      else let filename = parts ! (n - 1); version = parts ! (n - 2); artifactID = parts ! (n - 3) in
      if HasPrefix filename ''maven-metadata.xml'' \<or> HasSuffix filename ''.sha1'' \<or>
         HasSuffix filename ''.md5'' \<or> HasSuffix filename ''.sha256'' \<or> HasSuffix filename ''.sha512''
      then info
      else if \<not> HasPrefix filename (artifactID @ ''-'' @ version) then info
      else let groupID = Join (take (n - 3) parts) ''.'' in
        info\<lparr>ri_Kind := ''artifact'', ri_NeedsDecision := True,
          ri_Package := emptyPackage\<lparr>pkg_Ecosystem := route_Ecosystem route,
            pkg_Name := groupID @ '':'' @ artifactID, pkg_Version := version,
            pkg_PURL := purl ''maven'' (groupID @ ''/'' @ artifactID) version\<rparr>\<rparr>)"

definition isCanonicalGoModuleVersion :: "module_lib \<Rightarrow> string \<Rightarrow> bool" where
  "isCanonicalGoModuleVersion lib version =
     (case mod_UnescapeVersion lib version of
        Some unescaped \<Rightarrow> mod_CanonicalVersion lib unescaped = unescaped
      | None \<Rightarrow> False)"

definition upper_of :: "char \<Rightarrow> char" where
  "upper_of c = upper_letters ! length (takeWhile (\<lambda>d. d \<noteq> c) lower_letters)"

fun unescapeGoModule :: "string \<Rightarrow> string" where
  "unescapeGoModule [] = []"
| "unescapeGoModule [c] = [c]"
| "unescapeGoModule (c # next # rest) =
     (if c = CHR ''!'' \<and> next \<in> set lower_letters
      then upper_of next # unescapeGoModule rest
      else c # unescapeGoModule (next # rest))"

definition go_metadata :: "module_lib \<Rightarrow> string \<Rightarrow> RequestInfo \<Rightarrow> RequestInfo" where
  "go_metadata lib version info =
     info\<lparr>ri_Kind := ''metadata'', ri_NeedsDecision := True,
       ri_Cacheable := isCanonicalGoModuleVersion lib version, ri_SkipVulnerabilityCheck := True\<rparr>"

definition identifyGo :: "module_lib \<Rightarrow> Route \<Rightarrow> string \<Rightarrow> RequestInfo \<Rightarrow> RequestInfo" where
  "identifyGo lib route relative info =
     (case Index relative ''/@v/'' of
        None \<Rightarrow> info
      | Some idx \<Rightarrow>
          let moduleName = unescapeGoModule (take idx relative);
              filename = drop (idx + 4) relative;
              identified = (\<lambda>version info.
                let policyVersion = (case mod_UnescapeVersion lib version of Some v \<Rightarrow> v | None \<Rightarrow> version)
                in info\<lparr>ri_Package := emptyPackage\<lparr>pkg_Ecosystem := route_Ecosystem route,
                     pkg_Name := moduleName, pkg_Version := policyVersion,
                     pkg_PURL := purl ''go'' moduleName policyVersion\<rparr>\<rparr>)
          in if HasSuffix filename ''.info'' then
               let version = TrimSuffix filename ''.info''
               in identified version (go_metadata lib version info)
             else if HasSuffix filename ''.mod'' then
               let version = TrimSuffix filename ''.mod''
               in identified version (go_metadata lib version info)
             else if HasSuffix filename ''.zip'' then
               identified (TrimSuffix filename ''.zip'')
                 (info\<lparr>ri_Kind := ''artifact'', ri_NeedsDecision := True\<rparr>)
             else info)"

definition staticAssetVersion :: string where
  "staticAssetVersion = ''static''"

definition identifyStatic :: "Route \<Rightarrow> string \<Rightarrow> RequestInfo \<Rightarrow> RequestInfo" where
  "identifyStatic route relative info =
     (if relative = [] \<or> HasSuffix relative ''/'' then info
      else let parts = splitPath relative in
      if parts = [] then info
      else if (\<exists>part \<in> set parts. part = [] \<or> part = ''.'' \<or> part = ''..'') then info
      else let name = Join parts ''/'' in
        info\<lparr>ri_Kind := ''artifact'', ri_Cacheable := True, ri_NeedsDecision := True,
          ri_SkipVulnerabilityCheck := True,
          ri_Package := emptyPackage\<lparr>pkg_Ecosystem := route_Ecosystem route, pkg_Name := name,
            pkg_Version := staticAssetVersion,
            pkg_PURL := ''pkg:generic/'' @ name @ ''@'' @ staticAssetVersion\<rparr>\<rparr>)"

definition metadataInfo :: "string \<Rightarrow> RequestInfo" where
  "metadataInfo path = \<lparr>ri_Package = emptyPackage, ri_Kind = ''metadata'', ri_UpstreamPath = path,
     ri_FileUpstream = False, ri_NeedsDecision = False, ri_Cacheable = False,
     ri_SkipVulnerabilityCheck = False\<rparr>"

definition Identify :: "module_lib \<Rightarrow> Route \<Rightarrow> string \<Rightarrow> RequestInfo" where
  "Identify lib route requestPath =
     (let relative = TrimPrefix (TrimPrefix requestPath (route_PathPrefix route)) ''/'';
          info = metadataInfo (''/'' @ relative); eco = route_Ecosystem route in
      if eco = ''npm'' then identifyNPM route relative info
      else if eco = ''pypi'' then identifyPyPI route relative info
      else if eco = ''maven'' then identifyMaven route relative info
      else if eco = ''go'' then identifyGo lib route relative info
      else if eco = ''static'' then identifyStatic route relative info
      else info)"

section \<open>Versions of npm tarballs\<close>

abbreviation npm_after :: "char re" where
  "npm_after \<equiv> re_seq [re_lit ''-'', Grp 2 npm_version_re, re_lit ''.tgz'']"

lemma npm_after_lang:
  "re_lang npm_after w \<longleftrightarrow> (\<exists>v. w = ''-'' @ v @ ''.tgz'' \<and> re_lang npm_version_re v)"
  by (auto intro: exI [of _ "''-''"] simp del: append.simps)

lemma npm_after_group:
  assumes "re_match npm_after w = Some c"
  shows "\<exists>v. w = ''-'' @ v @ ''.tgz'' \<and> re_lang npm_version_re v \<and> group 2 c = v"
proof -
  from assms obtain u where run: "(c, u, []) \<in> set (re_run npm_after w)" using re_match_run by blast
  obtain c1 u1 r1 c2 u2 r2 c3 u3 where
    "(c1, u1, r1) \<in> set (re_run (re_lit ''-'') w)" and
    two: "(c2, u2, r2) \<in> set (re_run npm_version_re r1)" and
    "(c3, u3, []) \<in> set (re_run (re_lit ''.tgz'') r2)" and "c = c1 @ ((2, u2) # c2) @ c3"
    using run by fastforce
  then show ?thesis
    using re_run_sound [OF two] by (auto simp: group_def dest!: re_run_lit)
qed

lemma npmTarballVersionRE_eq:
  "npmTarballVersionRE = Cat (Grp 1 (Rep True 1 not_newline)) npm_after"
  by (simp add: npmTarballVersionRE_def)

lemma npmVersionFromTarball_sound:
  assumes "npmVersionFromTarball f = v" and "v \<noteq> []"
  shows "\<exists>n. f = n @ ''-'' @ v @ ''.tgz'' \<and> n \<noteq> [] \<and> re_lang npm_version_re v"
proof -
  from assms obtain m where m: "re_match npmTarballVersionRE f = Some m" and v: "v = group 2 m"
    by (auto simp: npmVersionFromTarball_def split: option.splits)
  from m obtain k c where k: "find (\<lambda>k. re_matches npm_after (drop k f)) (rep_counts True 1 not_newline f) = Some k"
    and c: "re_match npm_after (drop k f) = Some c" and mc: "m = (1, take k f) # c"
    unfolding npmTarballVersionRE_eq re_match_group by (auto split: option.splits)
  from k have "k \<in> set (rep_counts True 1 not_newline f)" by (auto simp: find_Some_iff)
  then have "k \<ge> 1" by (simp add: set_rep_counts)
  moreover from npm_after_group [OF c] mc v
  have "drop k f = ''-'' @ v @ ''.tgz''" and "re_lang npm_version_re v" by (auto simp: group_def)
  ultimately show ?thesis
    by (intro exI [of _ "take k f"]) (metis append_take_drop_id drop_eq_Nil2 append_is_Nil_conv
      not_one_le_zero list.distinct(1) take_eq_Nil)
qed

lemma npmVersionFromTarball_exact:
  assumes n: "n \<noteq> []" "list_all not_newline n" and v: "re_lang npm_version_re v"
    and last: "\<not> (\<exists>u w. v = u @ ''-'' @ w \<and> re_lang npm_version_re w)"
  shows "npmVersionFromTarball (n @ ''-'' @ v @ ''.tgz'') = v"
proof -
  let ?f = "n @ ''-'' @ v @ ''.tgz''" and ?P = "\<lambda>k. re_matches npm_after (drop k (n @ ''-'' @ v @ ''.tgz''))"
  have at_n: "?P (length n)" using v by (auto simp: re_matches_iff npm_after_lang)
  have beyond: "\<not> ?P k" if "length n < k" for k
  proof
    assume "?P k"
    then obtain w where w: "drop k ?f = ''-'' @ w @ ''.tgz''" "re_lang npm_version_re w"
      unfolding re_matches_iff npm_after_lang by blast
    define j where "j = k - length n - 1"
    then have j: "k = length n + Suc j" using that by simp
    from w(1) have "drop j (v @ ''.tgz'') = ''-'' @ w @ ''.tgz''" unfolding j by simp
    then have "v @ ''.tgz'' = take j (v @ ''.tgz'') @ ''-'' @ w @ ''.tgz''" by (metis append_take_drop_id)
    then have "v = take j (v @ ''.tgz'') @ ''-'' @ w" by simp
    with w(2) last show False by blast
  qed
  have len: "length n \<in> set (rep_counts True 1 not_newline ?f)"
    using n length_takeWhile_append [OF n(2), of "''-'' @ v @ ''.tgz''"]
    by (simp add: set_rep_counts Suc_le_eq)
  have "find ?P (rep_counts True 1 not_newline ?f) = Some (length n)"
    using len at_n beyond by (rule find_rep_greedy)
  then have m: "re_match npmTarballVersionRE ?f =
      map_option ((#) (1, n)) (re_match npm_after (''-'' @ v @ ''.tgz''))"
    unfolding npmTarballVersionRE_eq re_match_group by simp
  obtain c where c: "re_match npm_after (''-'' @ v @ ''.tgz'') = Some c"
    using at_n by (auto simp: re_matches_def)
  with npm_after_group [OF c] m show ?thesis by (auto simp: npmVersionFromTarball_def group_def)
qed

text \<open>A version read off an npm tarball is a version number the file name ends with, before
  .tgz and after a dash; it is the version of the tarball name-version.tgz whenever no later
  dash in the version starts a version number of its own.\<close>

theorem npm_tarball_version:
  assumes "n \<noteq> []" and "list_all not_newline n" and "re_lang npm_version_re v"
    and "\<not> (\<exists>u w. v = u @ ''-'' @ w \<and> re_lang npm_version_re w)"
  shows "npmVersionFromTarball (n @ ''-'' @ v @ ''.tgz'') = v \<and>
    (npmVersionFromTarball f = [] \<or>
     (\<exists>m. f = m @ ''-'' @ npmVersionFromTarball f @ ''.tgz'' \<and> re_lang npm_version_re (npmVersionFromTarball f)))"
  using npmVersionFromTarball_exact [OF assms] npmVersionFromTarball_sound [of f] by blast

lemma npm_core_digits:
  "re_lang npm_core (a @ ''.'' @ b @ ''.'' @ c)"
  if "a \<noteq> []" "b \<noteq> []" "c \<noteq> []" "list_all is_digit (a @ b @ c)"
proof -
  have d: "re_lang (Rep True 1 is_digit) a" "re_lang (Rep True 1 is_digit) b"
    "re_lang (Rep True 1 is_digit) c" "re_lang (re_lit ''.'') ''.''" "re_lang Eps []"
    using that by (simp_all add: Suc_le_eq)
  have "re_lang npm_core (a @ ''.'' @ b @ ''.'' @ c @ [])"
    unfolding npm_core_def re_seq.simps by (intro re_lang_CatI d)
  then show ?thesis by simp
qed

lemma npm_version_pre:
  "re_lang npm_core v \<Longrightarrow> re_lang (Opt (Cat (re_lit ''-'') (Rep True 1 npm_pre))) w \<Longrightarrow>
     re_lang npm_version_re (v @ w)"
  using re_lang_CatI [of npm_core v _ "w @ [] @ []"]
  unfolding npm_version_re_def re_seq.simps
  by (metis re_lang_CatI re_lang.simps(1) re_lang.simps(6) append_Nil2)

lemma npm_version_digits:
  "re_lang npm_version_re (a @ ''.'' @ b @ ''.'' @ c)"
  if "a \<noteq> []" "b \<noteq> []" "c \<noteq> []" "list_all is_digit (a @ b @ c)"
  using npm_version_pre [OF npm_core_digits [OF that], of "[]"] by simp

theorem npm_tarball_version_witness:
  "npmVersionFromTarball ''lodash-4.17.21.tgz'' = ''4.17.21''"
proof -
  have v: "re_lang npm_version_re ''4.17.21''"
    using npm_version_digits [of "''4''" "''17''" "''21''"] by (simp add: is_digit_def decimal_digits_def)
  have "\<not> (\<exists>u w. ''4.17.21'' = u @ ''-'' @ w \<and> re_lang npm_version_re w)"
    by (auto simp: Cons_eq_append_conv)
  from npm_tarball_version [OF _ _ v this, of "''lodash''"]
  show ?thesis by (simp add: not_newline_def)
qed

text \<open>A prerelease that itself looks like a version is misread: the tarball of version
  1.0.0-1.2.3 is taken for version 1.2.3, so the policy and OSV are asked about another version
  than the one served.\<close>

theorem npm_prerelease_misread:
  "npmVersionFromTarball ''pkg-1.0.0-1.2.3.tgz'' = ''1.2.3'' \<and>
   re_lang npm_version_re ''1.0.0-1.2.3''"
proof
  have v: "re_lang npm_version_re ''1.2.3''"
    using npm_version_digits [of "''1''" "''2''" "''3''"] by (simp add: is_digit_def decimal_digits_def)
  have "\<not> (\<exists>u w. ''1.2.3'' = u @ ''-'' @ w \<and> re_lang npm_version_re w)"
    by (auto simp: Cons_eq_append_conv)
  from npmVersionFromTarball_exact [OF _ _ v this, of "''pkg-1.0.0''"]
  show "npmVersionFromTarball ''pkg-1.0.0-1.2.3.tgz'' = ''1.2.3''" by (simp add: not_newline_def)
next
  have "re_lang npm_core ''1.0.0''"
    using npm_core_digits [of "''1''" "''0''" "''0''"] by (simp add: is_digit_def decimal_digits_def)
  moreover have "re_lang (Opt (Cat (re_lit ''-'') (Rep True 1 npm_pre))) ''-1.2.3''"
    by (simp add: npm_pre_def alnum_def is_digit_def decimal_digits_def)
  ultimately show "re_lang npm_version_re ''1.0.0-1.2.3''"
    using npm_version_pre [of "''1.0.0''" "''-1.2.3''"] by simp
qed

section \<open>What is decided\<close>

lemma metadataInfo_sel [simp]:
  "ri_Kind (metadataInfo p) = ''metadata''" "\<not> ri_NeedsDecision (metadataInfo p)"
  "\<not> ri_Cacheable (metadataInfo p)" "\<not> ri_SkipVulnerabilityCheck (metadataInfo p)"
  "ri_Package (metadataInfo p) = emptyPackage" "ri_UpstreamPath (metadataInfo p) = p"
  "\<not> ri_FileUpstream (metadataInfo p)"
  by (simp_all add: metadataInfo_def)

lemma emptyPackage_sel [simp]:
  "pkg_Ecosystem emptyPackage = []" "pkg_Name emptyPackage = []" "pkg_Version emptyPackage = []"
  "pkg_PURL emptyPackage = []" "pkg_PublishedAt emptyPackage = 0"
  by (simp_all add: emptyPackage_def)

lemma npm_info: "ri_NeedsDecision (identifyNPM r p (metadataInfo q)) =
    (ri_Kind (identifyNPM r p (metadataInfo q)) = ''artifact'')"
  "\<not> ri_Cacheable (identifyNPM r p (metadataInfo q))"
  "\<not> ri_SkipVulnerabilityCheck (identifyNPM r p (metadataInfo q))"
  by (simp_all add: identifyNPM_def Let_def)

lemma pypi_info: "ri_NeedsDecision (identifyPyPI r p (metadataInfo q)) =
    (ri_Kind (identifyPyPI r p (metadataInfo q)) = ''artifact'')"
  "\<not> ri_Cacheable (identifyPyPI r p (metadataInfo q))"
  "\<not> ri_SkipVulnerabilityCheck (identifyPyPI r p (metadataInfo q))"
  by (simp_all add: identifyPyPI_def Let_def case_prod_beta)

lemma maven_info: "ri_NeedsDecision (identifyMaven r p (metadataInfo q)) =
    (ri_Kind (identifyMaven r p (metadataInfo q)) = ''artifact'')"
  "\<not> ri_Cacheable (identifyMaven r p (metadataInfo q))"
  "\<not> ri_SkipVulnerabilityCheck (identifyMaven r p (metadataInfo q))"
  by (simp_all add: identifyMaven_def Let_def)

lemma go_info: "ri_NeedsDecision (identifyGo lib r p (metadataInfo q)) \<or>
    ri_Kind (identifyGo lib r p (metadataInfo q)) = ''metadata'' \<and> \<not> ri_Cacheable (identifyGo lib r p (metadataInfo q))"
  "ri_SkipVulnerabilityCheck (identifyGo lib r p (metadataInfo q)) \<Longrightarrow>
    ri_Kind (identifyGo lib r p (metadataInfo q)) = ''metadata''"
  by (auto simp: identifyGo_def go_metadata_def Let_def split: option.splits if_splits)

lemma static_info: "ri_NeedsDecision (identifyStatic r p (metadataInfo q)) =
    (ri_Kind (identifyStatic r p (metadataInfo q)) = ''artifact'')"
  "ri_Cacheable (identifyStatic r p (metadataInfo q)) = ri_NeedsDecision (identifyStatic r p (metadataInfo q))"
  by (simp_all add: identifyStatic_def Let_def)

text \<open>C20: Every request for an artifact and every request whose answer may be cached as immutable
  is put before the policy, and the vulnerability check is left out only on static routes and
  for the metadata of a Go module version.\<close>

theorem artifacts_need_decision:
  "(ri_Kind (Identify lib route path) = ''artifact'' \<or> ri_Cacheable (Identify lib route path) \<longrightarrow>
      ri_NeedsDecision (Identify lib route path)) \<and>
   (ri_SkipVulnerabilityCheck (Identify lib route path) \<longrightarrow> route_Ecosystem route = ''static'' \<or>
      route_Ecosystem route = ''go'' \<and> ri_Kind (Identify lib route path) = ''metadata'')"
proof -
  let ?rel = "TrimPrefix (TrimPrefix path (route_PathPrefix route)) ''/''"
  have npm: "ri_Kind (identifyNPM route ?rel (metadataInfo q)) \<in> {''artifact'', ''metadata''}" for q
    by (simp add: identifyNPM_def Let_def)
  have pypi: "ri_Kind (identifyPyPI route ?rel (metadataInfo q)) \<in> {''artifact'', ''metadata''}" for q
    by (simp add: identifyPyPI_def Let_def case_prod_beta)
  have maven: "ri_Kind (identifyMaven route ?rel (metadataInfo q)) \<in> {''artifact'', ''metadata''}" for q
    by (simp add: identifyMaven_def Let_def)
  have static: "ri_Kind (identifyStatic route ?rel (metadataInfo q)) \<in> {''artifact'', ''metadata''}" for q
    by (simp add: identifyStatic_def Let_def)
  show ?thesis
    using npm [of "''/'' @ ?rel"] pypi [of "''/'' @ ?rel"] maven [of "''/'' @ ?rel"] static [of "''/'' @ ?rel"]
      go_info [of lib route ?rel "''/'' @ ?rel"]
    unfolding Identify_def Let_def by (auto simp: npm_info pypi_info maven_info static_info)
qed

definition example_route :: "string \<Rightarrow> string \<Rightarrow> Route" where
  "example_route eco pre = \<lparr>route_Name = eco, route_Ecosystem = eco, route_PathPrefix = pre,
     route_UpstreamURL = ''https://example.org'', route_FileUpstreamURL = [], route_UpstreamTokenEnv = []\<rparr>"

definition example_module_lib :: module_lib where
  "example_module_lib = \<lparr>mod_UnescapeVersion = Some, mod_CanonicalVersion = id\<rparr>"

theorem artifacts_need_decision_witness:
  "ri_Kind (Identify example_module_lib (example_route ''static'' ''/static/'') ''/static/a.zip'') = ''artifact'' \<and>
   ri_SkipVulnerabilityCheck (Identify example_module_lib (example_route ''static'' ''/static/'') ''/static/a.zip'') \<and>
   ri_NeedsDecision (Identify example_module_lib (example_route ''static'' ''/static/'') ''/static/a.zip'')"
proof -
  let ?i = "Identify example_module_lib (example_route ''static'' ''/static/'') ''/static/a.zip''"
  have k: "ri_Kind ?i = ''artifact''" "ri_SkipVulnerabilityCheck ?i"
    by (simp_all add: Identify_def example_route_def identifyStatic_def splitPath_def Let_def go_eval)
  with artifacts_need_decision [of example_module_lib "example_route ''static'' ''/static/''" "''/static/a.zip''"]
  show ?thesis by blast
qed

section \<open>Go module paths\<close>

text \<open>The encoding of the Go module proxy protocol: an upper-case letter is an exclamation mark
  and the letter in lower case.\<close>

definition escapeGoModule :: "string \<Rightarrow> string" where
  "escapeGoModule m = concat (map (\<lambda>c. if c \<in> set upper_letters then [CHR ''!'', lower_char c] else [c]) m)"

lemma upper_of_lower: "c \<in> set upper_letters \<Longrightarrow> lower_char c \<in> set lower_letters \<and> upper_of (lower_char c) = c"
  by (simp add: upper_letters_def, elim disjE;
      simp add: lower_char_def upper_of_def upper_letters_def lower_letters_def)

lemma unescapeGoModule_Cons: "c \<noteq> CHR ''!'' \<Longrightarrow> unescapeGoModule (c # s) = c # unescapeGoModule s"
  by (cases s) auto

text \<open>The module path of a request is read off its encoded form without loss: decoding what
  the protocol encodes gives the module path back, so two modules never share a path.\<close>

theorem unescapeGoModule_escape:
  assumes "CHR ''!'' \<notin> set m"
  shows "unescapeGoModule (escapeGoModule m) = m"
  using assms
proof (induction m)
  case (Cons c m)
  then have "unescapeGoModule (escapeGoModule m) = m" by simp
  moreover have "escapeGoModule (c # m) =
      (if c \<in> set upper_letters then [CHR ''!'', lower_char c] else [c]) @ escapeGoModule m"
    by (simp add: escapeGoModule_def)
  ultimately show ?case
    using Cons.prems upper_of_lower [of c] by (auto simp: unescapeGoModule_Cons)
qed (simp add: escapeGoModule_def)

theorem unescapeGoModule_escape_witness:
  "CHR ''!'' \<notin> set ''github.com/BurntSushi/toml'' \<and>
   escapeGoModule ''github.com/BurntSushi/toml'' = ''github.com/!burnt!sushi/toml'' \<and>
   unescapeGoModule ''github.com/!burnt!sushi/toml'' = ''github.com/BurntSushi/toml''"
proof -
  have e: "escapeGoModule ''github.com/BurntSushi/toml'' = ''github.com/!burnt!sushi/toml''"
    by (simp add: escapeGoModule_def upper_letters_def lower_letters_def lower_char_def)
  have m: "CHR ''!'' \<notin> set ''github.com/BurntSushi/toml''" by simp
  from unescapeGoModule_escape [OF m] e m show ?thesis by simp
qed

section \<open>Package URLs read back\<close>

definition purl_clean :: "string \<Rightarrow> bool" where
  "purl_clean s \<longleftrightarrow> set s \<inter> {CHR ''#'', CHR ''?'', CHR ''%''} = {}"

lemma PathUnescape_id: "CHR ''%'' \<notin> set s \<Longrightarrow> PathUnescape s = Some s"
  by (induction s) auto

lemma unescapePathPart_id [simp]: "purl_clean s \<Longrightarrow> unescapePathPart s = s"
  by (simp add: unescapePathPart_def purl_clean_def PathUnescape_id)

definition purl_type :: "string \<Rightarrow> string" where
  "purl_type ecosystem = (if ecosystem = ''go'' then ''golang'' else ecosystem)"

lemma purl_eq:
  "eco \<in> {''npm'', ''pypi'', ''maven'', ''go''} \<Longrightarrow> name \<noteq> [] \<Longrightarrow> version \<noteq> [] \<Longrightarrow>
     purl eco name version = ''pkg:'' @ purl_type eco @ CHR ''/'' # name @ CHR ''@'' # version"
  by (auto simp: purl_def purl_type_def)

lemma PackageFromPURL_split:
  assumes "CHR ''/'' \<notin> set ty" and "purl_clean name" and "purl_clean version"
    and "CHR ''@'' \<notin> set version" and "name \<noteq> []" and "version \<noteq> []"
  shows "PackageFromPURL (''pkg:'' @ ty @ CHR ''/'' # name @ CHR ''@'' # version) =
    (if ty = ''npm'' then Inr (purl_package ''npm'' name name version)
     else if ty = ''pypi'' then
       Inr (purl_package ''pypi'' (normalizePyPI name) (normalizePyPI name) version)
     else if ty = ''maven'' then
       (case Cut name CHR ''/'' of (grp, art, ok) \<Rightarrow> if \<not> ok then Inl PURLNeedsGroupArtifact
          else Inr (purl_package ''maven'' (grp @ '':'' @ art) name version))
     else if ty = ''golang'' then Inr (purl_package ''go'' name name version)
     else Inl (UnsupportedPURLType ty))"
proof -
  let ?rest = "name @ CHR ''@'' # version"
  have "Cut (ty @ CHR ''/'' # ?rest) CHR ''/'' = (ty, ?rest, True)" using assms(1) by (rule Cut_found)
  moreover have "Cut ?rest CHR ''#'' = (?rest, [], False)" "Cut ?rest CHR ''?'' = (?rest, [], False)"
    using assms(2,3) by (auto intro!: Cut_absent simp: purl_clean_def)
  moreover have "LastIndexByte ?rest CHR ''@'' = Some (length name)"
    using assms(4) by (rule LastIndexByte_append)
  moreover have "CutPrefix (''pkg:'' @ t) ''pkg:'' = (t, True)" for t by (simp add: CutPrefix_def HasPrefix_def)
  ultimately show ?thesis
    using assms(2,3,5,6) unfolding PackageFromPURL_def by (simp add: Let_def)
qed

lemma purl_readback:
  assumes "purl_clean n" and "purl_clean v" and "CHR ''@'' \<notin> set v" and "n \<noteq> []" and "v \<noteq> []"
  shows "PackageFromPURL (purl ''npm'' n v) = Inr (purl_package ''npm'' n n v)"
    "PackageFromPURL (purl ''pypi'' n v) =
       Inr (purl_package ''pypi'' (normalizePyPI n) (normalizePyPI n) v)"
    "PackageFromPURL (purl ''maven'' n v) =
       (case Cut n CHR ''/'' of (grp, art, ok) \<Rightarrow> if \<not> ok then Inl PURLNeedsGroupArtifact
          else Inr (purl_package ''maven'' (grp @ '':'' @ art) n v))"
    "PackageFromPURL (purl ''go'' n v) = Inr (purl_package ''go'' n n v)"
proof -
  have p: "PackageFromPURL (purl e n v) =
      PackageFromPURL (''pkg:'' @ purl_type e @ CHR ''/'' # n @ CHR ''@'' # v)"
    if "e \<in> {''npm'', ''pypi'', ''maven'', ''go''}" for e
    using purl_eq [OF that assms(4,5)] by (rule arg_cong)
  have t: "CHR ''/'' \<notin> set (purl_type e)" if "e \<in> {''npm'', ''pypi'', ''maven'', ''go''}" for e
    using that by (auto simp: purl_type_def)
  note q = PackageFromPURL_split [OF t assms]
  show "PackageFromPURL (purl ''npm'' n v) = Inr (purl_package ''npm'' n n v)"
    using p [of "''npm''"] q [of "''npm''"] by (simp add: purl_type_def)
  show "PackageFromPURL (purl ''pypi'' n v) =
       Inr (purl_package ''pypi'' (normalizePyPI n) (normalizePyPI n) v)"
    using p [of "''pypi''"] q [of "''pypi''"] by (simp add: purl_type_def)
  show "PackageFromPURL (purl ''maven'' n v) =
       (case Cut n CHR ''/'' of (grp, art, ok) \<Rightarrow> if \<not> ok then Inl PURLNeedsGroupArtifact
          else Inr (purl_package ''maven'' (grp @ '':'' @ art) n v))"
    using p [of "''maven''"] q [of "''maven''"] by (simp add: purl_type_def)
  show "PackageFromPURL (purl ''go'' n v) = Inr (purl_package ''go'' n n v)"
    using p [of "''go''"] q [of "''go''"] by (simp add: purl_type_def)
qed

lemma replace_runs_fixed:
  "(\<And>c. p c \<Longrightarrow> \<exists>d. r = [d] \<and> p d) \<Longrightarrow> replace_runs p r (replace_runs p r s) = replace_runs p r s"
proof (induction p r s rule: replace_runs.induct)
  case (2 p r c cs)
  show ?case
  proof (cases "p c")
    case True
    then obtain d where d: "r = [d]" "p d" using "2.prems" by blast
    have head: "dropWhile p (replace_runs p r (dropWhile p cs)) = replace_runs p r (dropWhile p cs)"
    proof (cases "dropWhile p cs")
      case Nil
      show ?thesis unfolding Nil by simp
    next
      case (Cons x xs)
      then have "\<not> p x" by (metis hd_dropWhile list.distinct(1) list.sel(1))
      with Cons show ?thesis by simp
    qed
    show ?thesis using True d head "2.IH"(1) [OF True] "2.prems" by simp
  next
    case False
    then show ?thesis using "2.IH"(2) "2.prems" by simp
  qed
qed simp

lemma lower_char_idem [simp]: "lower_char (lower_char c) = lower_char c"
proof (cases "c \<in> set upper_letters")
  case True
  then show ?thesis
    by (simp add: upper_letters_def, elim disjE;
        simp add: lower_char_def upper_letters_def lower_letters_def)
next
  case False
  then have "map_of (zip upper_letters lower_letters) c = None"
    by (simp add: map_of_eq_None_iff upper_letters_def lower_letters_def)
  then show ?thesis by (simp add: lower_char_def)
qed

lemma lower_char_sep: "pypiNormalizeRE (lower_char c) \<longleftrightarrow> pypiNormalizeRE c"
proof (cases "c \<in> set upper_letters")
  case True
  then show ?thesis
    by (simp add: upper_letters_def, elim disjE;
        simp add: lower_char_def upper_letters_def lower_letters_def pypiNormalizeRE_def)
next
  case False
  then have "map_of (zip upper_letters lower_letters) c = None"
    by (simp add: map_of_eq_None_iff upper_letters_def lower_letters_def)
  then show ?thesis by (simp add: lower_char_def)
qed

lemma ToLower_dropWhile: "dropWhile pypiNormalizeRE (ToLower s) = ToLower (dropWhile pypiNormalizeRE s)"
  by (simp add: ToLower_def dropWhile_map comp_def lower_char_sep)

lemma replace_runs_ToLower:
  "replace_runs pypiNormalizeRE ''-'' (ToLower s) = ToLower (replace_runs pypiNormalizeRE ''-'' s)"
proof (induction pypiNormalizeRE "''-''" s rule: replace_runs.induct)
  case (2 c cs)
  have "lower_char CHR ''-'' = CHR ''-''"
    by (simp add: lower_char_def upper_letters_def lower_letters_def)
  moreover have "ToLower (c # cs) = lower_char c # ToLower cs" by (simp add: ToLower_def)
  ultimately show ?case
    using 2 by (simp add: ToLower_dropWhile lower_char_sep) (simp add: ToLower_def)
qed (simp add: ToLower_def)

lemma normalizePyPI_idem [simp]: "normalizePyPI (normalizePyPI s) = normalizePyPI s"
proof -
  have "replace_runs pypiNormalizeRE ''-'' (replace_runs pypiNormalizeRE ''-'' s) =
      replace_runs pypiNormalizeRE ''-'' s"
    by (rule replace_runs_fixed) (simp add: pypiNormalizeRE_def)
  moreover have "ToLower (ToLower t) = ToLower t" for t by (simp add: ToLower_def)
  ultimately show ?thesis by (simp add: normalizePyPI_def replace_runs_ToLower)
qed

text \<open>The package of a request with a package URL, per ecosystem.\<close>

lemma identified_npm:
  assumes "pkg_PURL (ri_Package (identifyNPM r p (metadataInfo q))) \<noteq> []" and "route_Ecosystem r = ''npm''"
  shows "\<exists>n v. ri_Package (identifyNPM r p (metadataInfo q)) = purl_package ''npm'' n n v"
  using assms by (auto simp: identifyNPM_def Let_def purl_package_def emptyPackage_def split: if_splits)

lemma identified_pypi:
  assumes "pkg_PURL (ri_Package (identifyPyPI r p (metadataInfo q))) \<noteq> []" and "route_Ecosystem r = ''pypi''"
  shows "\<exists>n v. ri_Package (identifyPyPI r p (metadataInfo q)) =
    purl_package ''pypi'' (normalizePyPI n) (normalizePyPI n) v"
  using assms by (auto simp: identifyPyPI_def Let_def case_prod_beta purl_package_def emptyPackage_def
      split: if_splits)

lemma identified_go:
  assumes "pkg_PURL (ri_Package (identifyGo lib r p (metadataInfo q))) \<noteq> []" and "route_Ecosystem r = ''go''"
  shows "\<exists>n v. ri_Package (identifyGo lib r p (metadataInfo q)) = purl_package ''go'' n n v"
  using assms by (auto simp: identifyGo_def Let_def purl_package_def emptyPackage_def split: if_splits option.splits)

lemma splitPath_no_slash: "x \<in> set (splitPath p) \<Longrightarrow> CHR ''/'' \<notin> set x"
  by (auto simp: splitPath_def Let_def dest: Split_parts split: if_splits)

lemma identified_maven:
  assumes "pkg_PURL (ri_Package (identifyMaven r p (metadataInfo q))) \<noteq> []" and "route_Ecosystem r = ''maven''"
  shows "\<exists>g a v. CHR ''/'' \<notin> set g \<and>
    ri_Package (identifyMaven r p (metadataInfo q)) = purl_package ''maven'' (g @ '':'' @ a) (g @ ''/'' @ a) v"
proof -
  let ?parts = "splitPath p"
  let ?g = "Join (take (length ?parts - 3) ?parts) ''.''"
  have "set ?g \<subseteq> \<Union> (set ` set (take (length ?parts - 3) ?parts)) \<union> set ''.''" by (rule set_Join)
  moreover have "CHR ''/'' \<notin> \<Union> (set ` set (take (length ?parts - 3) ?parts))"
    using splitPath_no_slash by (auto dest: in_set_takeD)
  ultimately have "CHR ''/'' \<notin> set ?g" by auto
  moreover have "ri_Package (identifyMaven r p (metadataInfo q)) =
      purl_package ''maven'' (?g @ '':'' @ ?parts ! (length ?parts - 3))
        (?g @ ''/'' @ ?parts ! (length ?parts - 3)) (?parts ! (length ?parts - 2))"
    using assms by (auto simp: identifyMaven_def Let_def purl_package_def emptyPackage_def split: if_splits)
  ultimately show ?thesis by blast
qed

lemma purl_package_sel [simp]:
  "pkg_PURL (purl_package e pn n v) = purl e n v" "pkg_Name (purl_package e pn n v) = pn"
  "pkg_Version (purl_package e pn n v) = v"
  by (simp_all add: purl_package_def)

lemma purl_nonempty: "purl e n v \<noteq> [] \<Longrightarrow> n \<noteq> [] \<and> v \<noteq> []"
  by (simp add: purl_def split: if_splits)

lemma Identify_ecosystem:
  "route_Ecosystem r = ''npm'' \<Longrightarrow> \<exists>p q. Identify lib r path = identifyNPM r p (metadataInfo q)"
  "route_Ecosystem r = ''pypi'' \<Longrightarrow> \<exists>p q. Identify lib r path = identifyPyPI r p (metadataInfo q)"
  "route_Ecosystem r = ''maven'' \<Longrightarrow> \<exists>p q. Identify lib r path = identifyMaven r p (metadataInfo q)"
  "route_Ecosystem r = ''go'' \<Longrightarrow> \<exists>p q. Identify lib r path = identifyGo lib r p (metadataInfo q)"
  by (auto simp: Identify_def Let_def)

text \<open>C21: The package URL of a request identifies its package: read back as a package URL, it
  gives the ecosystem, name and version the request was identified with, for every npm,
  PyPI, Maven and Go request whose name and version hold no character with a meaning in URLs.\<close>

theorem purl_roundtrip:
  assumes "pkg = ri_Package (Identify lib route path)" and "pkg_PURL pkg \<noteq> []"
    and "route_Ecosystem route \<in> {''npm'', ''pypi'', ''maven'', ''go''}"
    and "purl_clean (pkg_Name pkg)" and "purl_clean (pkg_Version pkg)" and "CHR ''@'' \<notin> set (pkg_Version pkg)"
  shows "PackageFromPURL (pkg_PURL pkg) = Inr pkg"
proof -
  consider n v where "pkg = purl_package ''npm'' n n v"
    | n v where "pkg = purl_package ''pypi'' (normalizePyPI n) (normalizePyPI n) v"
    | g a v where "pkg = purl_package ''maven'' (g @ '':'' @ a) (g @ ''/'' @ a) v" "CHR ''/'' \<notin> set g"
    | n v where "pkg = purl_package ''go'' n n v"
    using assms(1-3) identified_npm identified_pypi identified_maven identified_go
      Identify_ecosystem [of route lib path]
    by (metis (no_types, lifting) insertE singletonD)
  then show ?thesis
  proof cases
    case 1
    with assms(2,4-6) purl_readback(1) [of n v] show ?thesis by (auto dest: purl_nonempty)
  next
    case 2
    with assms(2,4-6) purl_readback(2) [of "normalizePyPI n" v] show ?thesis by (auto dest: purl_nonempty)
  next
    case 3
    moreover from this assms(4) have "purl_clean (g @ ''/'' @ a)" by (auto simp: purl_clean_def)
    ultimately show ?thesis
      using assms(2,5,6) purl_readback(3) [of "g @ ''/'' @ a" v] Cut_found [of "CHR ''/''" g a]
      by (auto dest: purl_nonempty)
  next
    case 4
    with assms(2,4-6) purl_readback(4) [of n v] show ?thesis by (auto dest: purl_nonempty)
  qed
qed

lemma example_maven:
  "ri_Package (Identify example_module_lib (example_route ''maven'' ''/maven/'')
     ''/maven/org/acme/lib/1.0/lib-1.0.jar'') = purl_package ''maven'' ''org.acme:lib'' ''org.acme/lib'' ''1.0''"
  by (simp add: Identify_def example_route_def identifyMaven_def splitPath_def purl_package_def
      emptyPackage_def Let_def go_eval)

theorem purl_roundtrip_witness:
  "PackageFromPURL ''pkg:maven/org.acme/lib@1.0'' =
     Inr (ri_Package (Identify example_module_lib (example_route ''maven'' ''/maven/'')
       ''/maven/org/acme/lib/1.0/lib-1.0.jar''))"
proof -
  let ?pkg = "purl_package ''maven'' ''org.acme:lib'' ''org.acme/lib'' ''1.0''"
  have "pkg_PURL ?pkg = ''pkg:maven/org.acme/lib@1.0''" by (simp add: purl_def)
  moreover have "PackageFromPURL (pkg_PURL ?pkg) = Inr ?pkg"
    by (rule purl_roundtrip [OF example_maven [symmetric]])
      (simp_all add: purl_def example_route_def purl_clean_def)
  ultimately show ?thesis using example_maven by metis
qed

section \<open>Static assets\<close>

lemma Trim_Split: "splitPath s \<noteq> [] \<Longrightarrow> Join (splitPath s) ''/'' = Trim s ''/''"
  by (auto simp: splitPath_def Let_def Join_Split split: if_splits)

lemma Trim_no_trailing:
  assumes "\<not> HasSuffix s ''/''"
  shows "Trim s ''/'' = TrimLeft s ''/''"
proof (cases "TrimLeft s ''/''")
  case (Cons c t)
  obtain u where "s = u @ TrimLeft s ''/''" unfolding TrimLeft_def by (metis takeWhile_dropWhile_id)
  with assms Cons have "last (TrimLeft s ''/'') \<noteq> CHR ''/''"
    by (metis HasSuffix_append append_butlast_last_id append.assoc list.distinct(1))
  then have "TrimRight (TrimLeft s ''/'') ''/'' = TrimLeft s ''/''"
    by (cases "TrimLeft s ''/''" rule: rev_cases) (auto simp: TrimRight_def)
  then show ?thesis by (simp add: Trim_def)
qed (simp add: Trim_def TrimRight_def)

lemma static_identified:
  assumes "ri_NeedsDecision (identifyStatic r p (metadataInfo (CHR ''/'' # p)))"
  shows "pkg_Name (ri_Package (identifyStatic r p (metadataInfo (CHR ''/'' # p)))) = TrimLeft p ''/''"
    and "ri_UpstreamPath (identifyStatic r p (metadataInfo (CHR ''/'' # p))) = CHR ''/'' # p"
  using assms
  by (auto simp: identifyStatic_def Let_def Trim_Split Trim_no_trailing split: if_splits)

text \<open>On a static route, requests that share a package identity, and hence a cache entry, ask
  the upstream for the same path, up to the slashes it starts with.\<close>

theorem static_identity_injective:
  assumes "route_Ecosystem route = ''static''"
    and "ri_NeedsDecision (Identify lib route p)" and "ri_NeedsDecision (Identify lib route q)"
    and "pkg_Name (ri_Package (Identify lib route p)) = pkg_Name (ri_Package (Identify lib route q))"
  shows "TrimLeft (ri_UpstreamPath (Identify lib route p)) ''/'' =
    TrimLeft (ri_UpstreamPath (Identify lib route q)) ''/''"
proof -
  have "TrimLeft (CHR ''/'' # x) ''/'' = TrimLeft x ''/''" for x by (simp add: TrimLeft_def)
  with assms show ?thesis
    by (simp add: Identify_def Let_def static_identified)
qed

theorem static_identity_injective_witness:
  "route_Ecosystem (example_route ''static'' ''/static/'') = ''static'' \<and>
   TrimLeft (ri_UpstreamPath (Identify example_module_lib (example_route ''static'' ''/static/'') ''/static/a/b.zip'')) ''/'' =
   TrimLeft (ri_UpstreamPath (Identify example_module_lib (example_route ''static'' ''/static/'') ''/static///a/b.zip'')) ''/''"
proof -
  let ?r = "example_route ''static'' ''/static/''"
  have e: "route_Ecosystem ?r = ''static''" by (simp add: example_route_def)
  have a: "ri_NeedsDecision (Identify example_module_lib ?r ''/static/a/b.zip'')"
    "ri_NeedsDecision (Identify example_module_lib ?r ''/static///a/b.zip'')"
    by (simp_all add: Identify_def example_route_def identifyStatic_def splitPath_def Let_def go_eval)
  have "pkg_Name (ri_Package (Identify example_module_lib ?r ''/static/a/b.zip'')) =
      pkg_Name (ri_Package (Identify example_module_lib ?r ''/static///a/b.zip''))"
    by (simp add: Identify_def example_route_def identifyStatic_def splitPath_def Let_def go_eval)
  from static_identity_injective [OF e a this] e show ?thesis by blast
qed

end
