(* ===== verification/Config.thy ===== *)
theory Config
  imports Registry
begin

text \<open>
  internal/config: the configuration records, the defaults, the environment overrides and
  the validation the server starts with, and the canonical form of an HTTP origin. Reading the
  file, decoding YAML, time.ParseDuration and url.ParseRequestURI are parameters (record
  \<open>config_lib\<close>), the environment is a function from names to values. An error is the format
  of its message with its arguments. The lemmas show that the defaults are accepted, what an
  accepted configuration guarantees (routes, anonymous access, the request time budget), which
  variable an override error names, and that two origins with one canonical form are the same.
\<close>

record ServerConfig =
  srv_ListenAddr :: string
  srv_ReadTimeout :: duration
  srv_WriteTimeout :: duration
  srv_ShutdownTimeout :: duration
  srv_PublicBaseURL :: string

record UpstreamConfig =
  up_RequestTimeout :: duration
  up_ResponseHeaderTimeout :: duration
  up_MaxConcurrentPerRegistry :: int
  up_QueueTimeout :: duration
  up_RateLimitRetries :: int
  up_MaxRetryAfter :: duration

record AuthConfig =
  auth_BearerTokenEnv :: string
  auth_BasicUsernameEnv :: string
  auth_BasicPasswordEnv :: string

record FilesystemCacheConfig =
  fsc_Directory :: string

record S3CacheConfig =
  s3c_Bucket :: string
  s3c_Prefix :: string
  s3c_ExpectedBucketOwner :: string

record CacheConfig =
  cch_Backend :: string
  cch_ArtifactTTL :: duration
  cch_MaxObjectSize :: int
  cch_TempDirectory :: string
  cch_ReadTimeout :: duration
  cch_StoreTimeout :: duration
  cch_Filesystem :: FilesystemCacheConfig
  cch_S3 :: S3CacheConfig

record DynamoDBCoordinationConfig =
  ddb_Table :: string
  ddb_KeyPrefix :: string

record CoordinationConfig =
  crd_Backend :: string
  crd_LeaseDuration :: duration
  crd_PollInterval :: duration
  crd_DynamoDB :: DynamoDBCoordinationConfig

record DecisionConfig =
  dcf_FailOpenIntelErrors :: bool
  dcf_FailOpenUnknownPackage :: bool
  dcf_VulnerabilityBlockThreshold :: float64
  dcf_DefaultVulnerabilityAction :: string
  dcf_ExceptionsURL :: string

record OSVConfig =
  osvc_Enabled :: bool
  osvc_APIURL :: string
  osvc_Timeout :: duration
  osvc_CacheTTL :: duration

record IntelConfig =
  int_OSV :: OSVConfig

record PolicyConfig =
  pol_Files :: "string list"

record RouteConfig =
  rc_Name :: string
  rc_Ecosystem :: string
  rc_PathPrefix :: string
  rc_UpstreamURL :: string
  rc_FileUpstreamURL :: string
  rc_UpstreamTokenEnv :: string
  rc_EnforceRedirectOrigins :: bool
  rc_AllowedRedirectOrigins :: "string list"
  rc_AllowAnonymous :: bool

record Config =
  cfg_Server :: ServerConfig
  cfg_Upstream :: UpstreamConfig
  cfg_Auth :: AuthConfig
  cfg_Cache :: CacheConfig
  cfg_Coordination :: CoordinationConfig
  cfg_Decision :: DecisionConfig
  cfg_Intel :: IntelConfig
  cfg_Policy :: PolicyConfig
  cfg_Routes :: "RouteConfig list"

text \<open>A parsed URL, as far as the program reads it.\<close>

record url =
  u_Scheme :: string
  u_Host :: string
  u_HasUser :: bool
  u_Path :: string
  u_RawQuery :: string
  u_ForceQuery :: bool
  u_Fragment :: string

record config_lib =
  clib_ReadFile :: "string \<Rightarrow> string + string"
  clib_Unmarshal :: "string \<Rightarrow> Config \<Rightarrow> string + Config"
  clib_ParseDuration :: "string \<Rightarrow> string + duration"
  clib_ParseRequestURI :: "string \<Rightarrow> string + url"

type_synonym environ = "string \<Rightarrow> string option"
type_synonym cfg_error = "string \<times> string list"

definition Getenv :: "environ \<Rightarrow> string \<Rightarrow> string" where
  "Getenv env name = (case env name of Some v \<Rightarrow> v | None \<Rightarrow> [])"

section \<open>Defaults\<close>

definition maxS3PutObjectSize :: int where "maxS3PutObjectSize = 5000000000"

abbreviation (input) nsMinute :: duration where "nsMinute \<equiv> 60 * nsSecond"

definition plainRoute :: "string \<Rightarrow> string \<Rightarrow> string \<Rightarrow> string \<Rightarrow> string \<Rightarrow> RouteConfig" where
  "plainRoute name eco pre up fileUp =
     \<lparr>rc_Name = name, rc_Ecosystem = eco, rc_PathPrefix = pre, rc_UpstreamURL = up,
      rc_FileUpstreamURL = fileUp, rc_UpstreamTokenEnv = [], rc_EnforceRedirectOrigins = False,
      rc_AllowedRedirectOrigins = [], rc_AllowAnonymous = False\<rparr>"

definition Default :: Config where
  "Default =
     \<lparr>cfg_Server = \<lparr>srv_ListenAddr = '':8080'', srv_ReadTimeout = 30 * nsSecond,
        srv_WriteTimeout = 10 * nsMinute, srv_ShutdownTimeout = 10 * nsSecond,
        srv_PublicBaseURL = ''http://localhost:8080''\<rparr>,
      cfg_Upstream = \<lparr>up_RequestTimeout = 9 * nsMinute, up_ResponseHeaderTimeout = 30 * nsSecond,
        up_MaxConcurrentPerRegistry = 4, up_QueueTimeout = 15 * nsSecond, up_RateLimitRetries = 1,
        up_MaxRetryAfter = 30 * nsSecond\<rparr>,
      cfg_Auth = \<lparr>auth_BearerTokenEnv = [], auth_BasicUsernameEnv = [], auth_BasicPasswordEnv = []\<rparr>,
      cfg_Cache = \<lparr>cch_Backend = ''none'', cch_ArtifactTTL = 24 * nsHour,
        cch_MaxObjectSize = 536870912, cch_TempDirectory = [], cch_ReadTimeout = 30 * nsSecond,
        cch_StoreTimeout = 10 * nsMinute, cch_Filesystem = \<lparr>fsc_Directory = []\<rparr>,
        cch_S3 = \<lparr>s3c_Bucket = [], s3c_Prefix = [], s3c_ExpectedBucketOwner = []\<rparr>\<rparr>,
      cfg_Coordination = \<lparr>crd_Backend = ''none'', crd_LeaseDuration = 30 * nsSecond,
        crd_PollInterval = nsSecond,
        crd_DynamoDB = \<lparr>ddb_Table = [], ddb_KeyPrefix = ''package-firewall''\<rparr>\<rparr>,
      cfg_Decision = \<lparr>dcf_FailOpenIntelErrors = True, dcf_FailOpenUnknownPackage = True,
        dcf_VulnerabilityBlockThreshold = Fin 9, dcf_DefaultVulnerabilityAction = ''warn'',
        dcf_ExceptionsURL = []\<rparr>,
      cfg_Intel = \<lparr>int_OSV = \<lparr>osvc_Enabled = True, osvc_APIURL = ''https://api.osv.dev/v1/query'',
        osvc_Timeout = 8 * nsSecond, osvc_CacheTTL = 6 * nsHour\<rparr>\<rparr>,
      cfg_Policy = \<lparr>pol_Files = []\<rparr>,
      cfg_Routes =
        [plainRoute ''npm'' ''npm'' ''/npm/'' ''https://registry.npmjs.org/'' [],
         plainRoute ''pypi'' ''pypi'' ''/pypi/'' ''https://pypi.org/'' ''https://files.pythonhosted.org/'',
         plainRoute ''maven'' ''maven'' ''/maven/'' ''https://repo1.maven.org/maven2/'' [],
         plainRoute ''go'' ''go'' ''/go/'' ''https://proxy.golang.org/'' []]\<rparr>"

section \<open>Numbers and truth values\<close>

definition parse_nat :: "string \<Rightarrow> nat option" where
  "parse_nat s = (if s = [] \<or> \<not> list_all is_digit s then None
     else Some (foldl (\<lambda>n c. 10 * n + length (takeWhile (\<lambda>d. d \<noteq> c) decimal_digits)) 0 s))"

text \<open>strconv.ParseInt in base 10 with 64 bits, which Atoi equals on a 64-bit platform.\<close>

definition ParseInt64 :: "string \<Rightarrow> int option" where
  "ParseInt64 s =
     (let neg = HasPrefix s ''-''; digits = (if neg \<or> HasPrefix s ''+'' then tl s else s) in
      case parse_nat digits of
        None \<Rightarrow> None
      | Some n \<Rightarrow> let i = (if neg then - int n else int n) in
          if - (2 ^ 63) \<le> i \<and> i < 2 ^ 63 then Some i else None)"

definition ParseBool :: "string \<Rightarrow> bool option" where
  "ParseBool s =
     (if s \<in> set [''1'', ''t'', ''T'', ''true'', ''TRUE'', ''True''] then Some True
      else if s \<in> set [''0'', ''f'', ''F'', ''false'', ''FALSE'', ''False''] then Some False
      else None)"

definition parseBool :: "string \<Rightarrow> bool \<Rightarrow> bool" where
  "parseBool value fallback = (case ParseBool value of Some b \<Rightarrow> b | None \<Rightarrow> fallback)"

text \<open>A duration of the YAML file: an integer counts nanoseconds, a string is parsed, any other
  value is ignored and leaves the duration as it was.\<close>

definition Duration_UnmarshalYAML :: "(string \<Rightarrow> string + duration) \<Rightarrow> string + yaml_any \<Rightarrow> duration
    \<Rightarrow> string + duration" where
  "Duration_UnmarshalYAML parse_duration raw d =
     (case raw of
        Inl err \<Rightarrow> Inl err
      | Inr (YInt value) \<Rightarrow> Inr value
      | Inr (YString value) \<Rightarrow> parse_duration value
      | Inr _ \<Rightarrow> Inr d)"

section \<open>Environment overrides\<close>

type_synonym override = "string \<times> (string \<Rightarrow> Config \<Rightarrow> cfg_error + Config)"

definition set_text :: "string \<Rightarrow> (string \<Rightarrow> Config \<Rightarrow> Config) \<Rightarrow> override" where
  "set_text name upd = (name, \<lambda>v cfg. Inr (upd v cfg))"

definition set_duration :: "config_lib \<Rightarrow> string \<Rightarrow> (duration \<Rightarrow> Config \<Rightarrow> Config) \<Rightarrow> override" where
  "set_duration lib name upd = (name, \<lambda>v cfg.
     case clib_ParseDuration lib v of
       Inl e \<Rightarrow> Inl (name @ '' is invalid: %w'', [e])
     | Inr d \<Rightarrow> Inr (upd d cfg))"

definition set_int :: "string \<Rightarrow> (int \<Rightarrow> Config \<Rightarrow> Config) \<Rightarrow> override" where
  "set_int name upd = (name, \<lambda>v cfg.
     case ParseInt64 v of
       None \<Rightarrow> Inl (name @ '' is invalid: %w'', [v])
     | Some i \<Rightarrow> Inr (upd i cfg))"

definition env_overrides :: "config_lib \<Rightarrow> override list" where
  "env_overrides lib =
     [set_text ''PFW_LISTEN_ADDR''
        (\<lambda>v. cfg_Server_update (srv_ListenAddr_update (\<lambda>_. v))),
      set_text ''PFW_PUBLIC_BASE_URL''
        (\<lambda>v. cfg_Server_update (srv_PublicBaseURL_update (\<lambda>_. v))),
      set_duration lib ''PFW_UPSTREAM_REQUEST_TIMEOUT''
        (\<lambda>v. cfg_Upstream_update (up_RequestTimeout_update (\<lambda>_. v))),
      set_duration lib ''PFW_UPSTREAM_RESPONSE_HEADER_TIMEOUT''
        (\<lambda>v. cfg_Upstream_update (up_ResponseHeaderTimeout_update (\<lambda>_. v))),
      set_int ''PFW_UPSTREAM_MAX_CONCURRENT_PER_REGISTRY''
        (\<lambda>v. cfg_Upstream_update (up_MaxConcurrentPerRegistry_update (\<lambda>_. v))),
      set_duration lib ''PFW_UPSTREAM_QUEUE_TIMEOUT''
        (\<lambda>v. cfg_Upstream_update (up_QueueTimeout_update (\<lambda>_. v))),
      set_int ''PFW_UPSTREAM_RATE_LIMIT_RETRIES''
        (\<lambda>v. cfg_Upstream_update (up_RateLimitRetries_update (\<lambda>_. v))),
      set_duration lib ''PFW_UPSTREAM_MAX_RETRY_AFTER''
        (\<lambda>v. cfg_Upstream_update (up_MaxRetryAfter_update (\<lambda>_. v))),
      set_text ''PFW_FAIL_OPEN_INTEL_ERRORS''
        (\<lambda>v. cfg_Decision_update (dcf_FailOpenIntelErrors_update (parseBool v))),
      set_text ''PFW_FAIL_OPEN_UNKNOWN_PACKAGE''
        (\<lambda>v. cfg_Decision_update (dcf_FailOpenUnknownPackage_update (parseBool v))),
      set_text ''PFW_EXCEPTIONS_URL''
        (\<lambda>v. cfg_Decision_update (dcf_ExceptionsURL_update (\<lambda>_. v))),
      set_text ''PFW_OSV_ENABLED''
        (\<lambda>v. cfg_Intel_update (int_OSV_update (osvc_Enabled_update (parseBool v)))),
      set_text ''PFW_OSV_API_URL''
        (\<lambda>v. cfg_Intel_update (int_OSV_update (osvc_APIURL_update (\<lambda>_. v)))),
      set_text ''PFW_CACHE_BACKEND''
        (\<lambda>v. cfg_Cache_update (cch_Backend_update (\<lambda>_. v))),
      set_duration lib ''PFW_CACHE_ARTIFACT_TTL''
        (\<lambda>v. cfg_Cache_update (cch_ArtifactTTL_update (\<lambda>_. v))),
      set_int ''PFW_CACHE_MAX_OBJECT_SIZE''
        (\<lambda>v. cfg_Cache_update (cch_MaxObjectSize_update (\<lambda>_. v))),
      set_text ''PFW_CACHE_TEMP_DIRECTORY''
        (\<lambda>v. cfg_Cache_update (cch_TempDirectory_update (\<lambda>_. v))),
      set_duration lib ''PFW_CACHE_READ_TIMEOUT''
        (\<lambda>v. cfg_Cache_update (cch_ReadTimeout_update (\<lambda>_. v))),
      set_duration lib ''PFW_CACHE_STORE_TIMEOUT''
        (\<lambda>v. cfg_Cache_update (cch_StoreTimeout_update (\<lambda>_. v))),
      set_text ''PFW_CACHE_FILESYSTEM_DIRECTORY''
        (\<lambda>v. cfg_Cache_update (cch_Filesystem_update (fsc_Directory_update (\<lambda>_. v)))),
      set_text ''PFW_CACHE_S3_BUCKET''
        (\<lambda>v. cfg_Cache_update (cch_S3_update (s3c_Bucket_update (\<lambda>_. v)))),
      set_text ''PFW_CACHE_S3_PREFIX''
        (\<lambda>v. cfg_Cache_update (cch_S3_update (s3c_Prefix_update (\<lambda>_. v)))),
      set_text ''PFW_CACHE_S3_EXPECTED_BUCKET_OWNER''
        (\<lambda>v. cfg_Cache_update (cch_S3_update (s3c_ExpectedBucketOwner_update (\<lambda>_. v)))),
      set_text ''PFW_COORDINATION_BACKEND''
        (\<lambda>v. cfg_Coordination_update (crd_Backend_update (\<lambda>_. v))),
      set_duration lib ''PFW_COORDINATION_LEASE_DURATION''
        (\<lambda>v. cfg_Coordination_update (crd_LeaseDuration_update (\<lambda>_. v))),
      set_duration lib ''PFW_COORDINATION_POLL_INTERVAL''
        (\<lambda>v. cfg_Coordination_update (crd_PollInterval_update (\<lambda>_. v))),
      set_text ''PFW_COORDINATION_DYNAMODB_TABLE''
        (\<lambda>v. cfg_Coordination_update (crd_DynamoDB_update (ddb_Table_update (\<lambda>_. v)))),
      set_text ''PFW_COORDINATION_DYNAMODB_KEY_PREFIX''
        (\<lambda>v. cfg_Coordination_update (crd_DynamoDB_update (ddb_KeyPrefix_update (\<lambda>_. v))))]"

fun apply_overrides :: "environ \<Rightarrow> override list \<Rightarrow> Config \<Rightarrow> cfg_error + Config" where
  "apply_overrides env [] cfg = Inr cfg"
| "apply_overrides env ((name, upd) # os) cfg =
     (let v = Getenv env name in
      if v = [] then apply_overrides env os cfg
      else case upd v cfg of Inl e \<Rightarrow> Inl e | Inr cfg' \<Rightarrow> apply_overrides env os cfg')"

definition applyEnv :: "config_lib \<Rightarrow> environ \<Rightarrow> Config \<Rightarrow> cfg_error + Config" where
  "applyEnv lib env cfg = apply_overrides env (env_overrides lib) cfg"

section \<open>Origins\<close>

text \<open>net/url's Hostname and Port, and net.JoinHostPort.\<close>

definition validOptionalPort :: "string \<Rightarrow> bool" where
  "validOptionalPort port = (case port of [] \<Rightarrow> True | c # ds \<Rightarrow> c = CHR '':'' \<and> list_all is_digit ds)"

definition splitHostPort :: "string \<Rightarrow> string \<times> string" where
  "splitHostPort hostPort =
     (let (host, port) =
        (case LastIndexByte hostPort CHR '':'' of
           Some colon \<Rightarrow>
             if validOptionalPort (drop colon hostPort)
             then (take colon hostPort, drop (colon + 1) hostPort) else (hostPort, [])
         | None \<Rightarrow> (hostPort, []))
      in (if HasPrefix host ''['' \<and> HasSuffix host '']'' then butlast (tl host) else host, port))"

definition url_Hostname :: "url \<Rightarrow> string" where "url_Hostname u = fst (splitHostPort (u_Host u))"
definition url_Port :: "url \<Rightarrow> string" where "url_Port u = snd (splitHostPort (u_Host u))"

definition JoinHostPort :: "string \<Rightarrow> string \<Rightarrow> string" where
  "JoinHostPort host port =
     (if CHR '':'' \<in> set host then ''['' @ host @ '']:'' @ port else host @ '':'' @ port)"

definition NormalizeHTTPOrigin :: "config_lib \<Rightarrow> string \<Rightarrow> cfg_error + string" where
  "NormalizeHTTPOrigin lib value =
     (case clib_ParseRequestURI lib (TrimSpace value) of
        Inl err \<Rightarrow> Inl (err, [])
      | Inr parsed \<Rightarrow>
          let scheme = ToLower (u_Scheme parsed) in
          if scheme \<noteq> ''http'' \<and> scheme \<noteq> ''https'' then Inl (''origin scheme must be http or https'', [])
          else if u_Host parsed = [] \<or> url_Hostname parsed = [] then Inl (''origin host is required'', [])
          else if u_HasUser parsed then Inl (''origin must not include user information'', [])
          else if u_Path parsed \<noteq> [] \<and> u_Path parsed \<noteq> ''/'' then Inl (''origin must not include a path'', [])
          else if u_RawQuery parsed \<noteq> [] \<or> u_ForceQuery parsed \<or> u_Fragment parsed \<noteq> []
          then Inl (''origin must not include a query or fragment'', [])
          else let port = (if url_Port parsed = [] then (if scheme = ''http'' then ''80'' else ''443'')
                           else url_Port parsed)
               in Inr (scheme @ ''://'' @ JoinHostPort (ToLower (url_Hostname parsed)) port))"

section \<open>Validation\<close>

abbreviation err_if :: "bool \<Rightarrow> string \<Rightarrow> cfg_error list" where
  "err_if c msg \<equiv> (if c then [(msg, [])] else [])"

abbreviation is_err :: "'e + 'a \<Rightarrow> bool" where
  "is_err r \<equiv> (case r of Inl _ \<Rightarrow> True | Inr _ \<Rightarrow> False)"

fun durationBudgetFits :: "duration \<Rightarrow> duration list \<Rightarrow> bool" where
  "durationBudgetFits remaining [] = True"
| "durationBudgetFits remaining (part # parts) =
     (if part \<le> 0 \<or> part \<ge> remaining then False else durationBudgetFits (remaining - part) parts)"

definition validateEnabledCache :: "CacheConfig \<Rightarrow> cfg_error list" where
  "validateEnabledCache cfg =
     err_if (cch_ArtifactTTL cfg \<le> 0) ''cache.artifact_ttl must be positive'' @
     err_if (cch_MaxObjectSize cfg \<le> 0) ''cache.max_object_size must be positive'' @
     err_if (cch_ReadTimeout cfg \<le> 0) ''cache.read_timeout must be positive'' @
     err_if (cch_StoreTimeout cfg \<le> 0) ''cache.store_timeout must be positive''"

definition validAWSAccountID :: "string \<Rightarrow> bool" where
  "validAWSAccountID value \<longleftrightarrow> length value = 12 \<and> list_all is_digit value"

definition validate_server :: "config_lib \<Rightarrow> Config \<Rightarrow> cfg_error list" where
  "validate_server lib cfg =
     (let srv = cfg_Server cfg; up = cfg_Upstream cfg in
      err_if (TrimSpace (srv_ListenAddr srv) = []) ''server.listen_addr is required'' @
      err_if (srv_WriteTimeout srv \<le> 0) ''server.write_timeout must be positive'' @
      err_if (up_RequestTimeout up \<le> 0) ''upstream.request_timeout must be positive'' @
      (if up_ResponseHeaderTimeout up \<le> 0
       then [(''upstream.response_header_timeout must be positive'', [])]
       else err_if (up_RequestTimeout up > 0 \<and> up_ResponseHeaderTimeout up > up_RequestTimeout up)
              ''upstream.response_header_timeout cannot exceed upstream.request_timeout'') @
      err_if (up_MaxConcurrentPerRegistry up \<le> 0) ''upstream.max_concurrent_per_registry must be positive'' @
      err_if (up_QueueTimeout up \<le> 0) ''upstream.queue_timeout must be positive'' @
      err_if (up_RateLimitRetries up < 0 \<or> up_RateLimitRetries up > 3)
        ''upstream.rate_limit_retries must be between 0 and 3'' @
      err_if (up_MaxRetryAfter up \<le> 0) ''upstream.max_retry_after must be positive'' @
      err_if (is_err (clib_ParseRequestURI lib (srv_PublicBaseURL srv))) ''server.public_base_url is invalid: %w'')"

definition validate_cache :: "Config \<Rightarrow> cfg_error list" where
  "validate_cache cfg =
     (let c = cfg_Cache cfg in
      if cch_Backend c = [] \<or> cch_Backend c = ''none'' then []
      else if cch_Backend c = ''filesystem'' then
        validateEnabledCache c @
        err_if (TrimSpace (fsc_Directory (cch_Filesystem c)) = [])
          ''cache.filesystem.directory is required when cache.backend=filesystem''
      else if cch_Backend c = ''s3'' then
        validateEnabledCache c @
        err_if (TrimSpace (s3c_Bucket (cch_S3 c)) = []) ''cache.s3.bucket is required when cache.backend=s3'' @
        err_if (cch_MaxObjectSize c > maxS3PutObjectSize)
          ''cache.max_object_size cannot exceed 5 GB when cache.backend=s3'' @
        (let owner = s3c_ExpectedBucketOwner (cch_S3 c) in
         err_if (owner \<noteq> [] \<and> \<not> validAWSAccountID owner)
           ''cache.s3.expected_bucket_owner must be a 12-digit AWS account ID'')
      else [(''cache.backend %q is unsupported'', [cch_Backend c])])"

definition validate_coordination :: "Config \<Rightarrow> cfg_error list" where
  "validate_coordination cfg =
     (let c = cfg_Coordination cfg in
      if crd_Backend c = [] \<or> crd_Backend c = ''none'' then []
      else if crd_Backend c = ''dynamodb'' then
        err_if (cch_Backend (cfg_Cache cfg) = ''filesystem'')
          ''coordination.backend=dynamodb cannot be used with a replica-local filesystem cache'' @
        err_if (TrimSpace (ddb_Table (crd_DynamoDB c)) = [])
          ''coordination.dynamodb.table is required when coordination.backend=dynamodb'' @
        err_if (Trim (TrimSpace (ddb_KeyPrefix (crd_DynamoDB c))) ''#'' = [])
          ''coordination.dynamodb.key_prefix must not be empty'' @
        err_if (crd_LeaseDuration c < 3 * nsSecond) ''coordination.lease_duration must be at least 3s'' @
        (if crd_PollInterval c \<le> 0 then [(''coordination.poll_interval must be positive'', [])]
         else err_if (crd_LeaseDuration c > 0 \<and> crd_PollInterval c \<ge> crd_LeaseDuration c)
                ''coordination.poll_interval must be shorter than coordination.lease_duration'')
      else [(''coordination.backend %q is unsupported'', [crd_Backend c])])"

definition env_missing :: "environ \<Rightarrow> string \<Rightarrow> bool" where
  "env_missing env name \<longleftrightarrow> (case env name of None \<Rightarrow> True | Some v \<Rightarrow> v = [])"

definition validate_auth :: "environ \<Rightarrow> Config \<Rightarrow> cfg_error list" where
  "validate_auth env cfg =
     (let a = cfg_Auth cfg; d = dcf_DefaultVulnerabilityAction (cfg_Decision cfg) in
      err_if (d \<noteq> ''warn'' \<and> d \<noteq> ''block'' \<and> d \<noteq> ''monitor'')
        ''decision.default_vulnerability_action must be warn, block, or monitor'' @
      (if auth_BearerTokenEnv a \<noteq> [] \<and> env_missing env (auth_BearerTokenEnv a)
       then [(''auth.bearer_token_env %q is not set or is empty'', [auth_BearerTokenEnv a])] else []) @
      err_if ((auth_BasicUsernameEnv a = []) \<noteq> (auth_BasicPasswordEnv a = []))
        ''auth.basic_username_env and auth.basic_password_env must be set together'' @
      (if auth_BasicUsernameEnv a \<noteq> [] then
         (if env_missing env (auth_BasicUsernameEnv a)
          then [(''auth.basic_username_env %q is not set or is empty'', [auth_BasicUsernameEnv a])] else []) @
         (if env_missing env (auth_BasicPasswordEnv a)
          then [(''auth.basic_password_env %q is not set or is empty'', [auth_BasicPasswordEnv a])] else [])
       else []))"

definition validate_osv :: "config_lib \<Rightarrow> Config \<Rightarrow> cfg_error list" where
  "validate_osv lib cfg =
     (let o1 = int_OSV (cfg_Intel cfg) in
      if osvc_Enabled o1 then
        err_if (is_err (clib_ParseRequestURI lib (osvc_APIURL o1))) ''intel.osv.api_url is invalid: %w'' @
        err_if (osvc_Timeout o1 \<le> 0) ''intel.osv.timeout must be positive'' @
        err_if (osvc_CacheTTL o1 \<le> 0) ''intel.osv.cache_ttl must be positive''
      else [])"

definition cache_enabled :: "Config \<Rightarrow> bool" where
  "cache_enabled cfg \<longleftrightarrow> cch_Backend (cfg_Cache cfg) = ''filesystem'' \<or> cch_Backend (cfg_Cache cfg) = ''s3''"

definition request_budget :: "Config \<Rightarrow> duration list" where
  "request_budget cfg =
     [up_RequestTimeout (cfg_Upstream cfg)] @
     (if osvc_Enabled (int_OSV (cfg_Intel cfg)) then [osvc_Timeout (int_OSV (cfg_Intel cfg))] else []) @
     (if cache_enabled cfg then [cch_ReadTimeout (cfg_Cache cfg)] else [])"

definition validate_budget :: "Config \<Rightarrow> cfg_error list" where
  "validate_budget cfg =
     (let valid = srv_WriteTimeout (cfg_Server cfg) > 0 \<and> list_all (\<lambda>p. p > 0) (request_budget cfg) in
      err_if (valid \<and> \<not> durationBudgetFits (srv_WriteTimeout (cfg_Server cfg)) (request_budget cfg))
        ''server.write_timeout must exceed the combined active intelligence, cache read, and upstream request timeout budget'')"

definition validate_route :: "config_lib \<Rightarrow> string list \<Rightarrow> string list \<Rightarrow> RouteConfig \<Rightarrow> cfg_error list" where
  "validate_route lib seenNames seenPaths route =
     (let q = (\<lambda>msg args. [(msg, args)]); n = rc_Name route in
      err_if (n = []) ''route.name is required'' @
      (if HasPrefix n ''__'' then q ''route.name %q uses reserved prefix __'' [n] else []) @
      (if n \<in> set seenNames then q ''duplicate route name %q'' [n] else []) @
      (if rc_PathPrefix route \<in> set seenPaths
       then q ''duplicate route path_prefix %q'' [rc_PathPrefix route] else []) @
      (if \<not> HasPrefix (rc_PathPrefix route) ''/'' \<or> \<not> HasSuffix (rc_PathPrefix route) ''/''
       then q ''route %q path_prefix must start and end with /'' [n] else []) @
      (if is_err (clib_ParseRequestURI lib (rc_UpstreamURL route))
       then q ''route %q upstream_url is invalid: %w'' [n] else []) @
      concat (map (\<lambda>origin. if is_err (NormalizeHTTPOrigin lib origin)
        then q ''route %q allowed_redirect_origins contains invalid origin %q: %w'' [n, origin] else [])
        (rc_AllowedRedirectOrigins route)) @
      (if rc_Ecosystem route \<in> set [''npm'', ''pypi'', ''maven'', ''go'', ''static''] then []
       else q ''route %q ecosystem %q is unsupported'' [n, rc_Ecosystem route]) @
      (if rc_AllowAnonymous route \<and> rc_Ecosystem route \<noteq> ''static''
       then q ''route %q allow_anonymous requires ecosystem static'' [n] else []))"

fun validate_routes :: "config_lib \<Rightarrow> string list \<Rightarrow> string list \<Rightarrow> RouteConfig list \<Rightarrow> cfg_error list" where
  "validate_routes lib seenNames seenPaths [] = []"
| "validate_routes lib seenNames seenPaths (route # routes) =
     validate_route lib seenNames seenPaths route @
     validate_routes lib (rc_Name route # seenNames) (rc_PathPrefix route # seenPaths) routes"

definition Validate :: "config_lib \<Rightarrow> environ \<Rightarrow> Config \<Rightarrow> cfg_error list" where
  "Validate lib env cfg =
     validate_server lib cfg @ validate_cache cfg @ validate_coordination cfg @ validate_auth env cfg @
     validate_osv lib cfg @ validate_budget cfg @
     err_if (cfg_Routes cfg = []) ''at least one route is required'' @
     validate_routes lib [] [] (cfg_Routes cfg)"

section \<open>Loading\<close>

definition path_Dir :: "string \<Rightarrow> string" where
  "path_Dir p = path_Clean (case LastIndexByte p CHR ''/'' of Some i \<Rightarrow> take (i + 1) p | None \<Rightarrow> [])"

definition resolve_file :: "string \<Rightarrow> string \<Rightarrow> string" where
  "resolve_file base f = (if HasPrefix f ''/'' then f else path_Clean (path_Join base f))"

definition config_Load :: "config_lib \<Rightarrow> environ \<Rightarrow> string \<Rightarrow> cfg_error list + Config" where
  "config_Load lib env path =
     (case (if path = [] then Inr Default
            else case clib_ReadFile lib path of
              Inl e \<Rightarrow> Inl [(e, [])]
            | Inr raw \<Rightarrow>
                (case clib_Unmarshal lib raw Default of
                   Inl e \<Rightarrow> Inl [(e, [])]
                 | Inr cfg \<Rightarrow>
                     Inr (cfg_Policy_update (pol_Files_update (map (resolve_file (path_Dir path)))) cfg))) of
        Inl e \<Rightarrow> Inl e
      | Inr cfg \<Rightarrow>
          (case applyEnv lib env cfg of
             Inl e \<Rightarrow> Inl [e]
           | Inr cfg \<Rightarrow> (case Validate lib env cfg of [] \<Rightarrow> Inr cfg | errs \<Rightarrow> Inl errs)))"

section \<open>What an accepted configuration guarantees\<close>

lemma durationBudgetFits_iff:
  "durationBudgetFits t ps \<longleftrightarrow> list_all (\<lambda>p. p > 0) ps \<and> (ps = [] \<or> sum_list ps < t)"
proof (induction ps arbitrary: t)
  case (Cons p ps)
  have "sum_list ps \<ge> 0" if "list_all (\<lambda>p. p > 0) ps"
    using that by (auto simp: list_all_iff intro!: sum_list_nonneg)
  then show ?case by (auto simp: Cons.IH)
qed simp

definition prefix_ok :: "string \<Rightarrow> bool" where
  "prefix_ok p \<longleftrightarrow> HasPrefix p ''/'' \<and> HasSuffix p ''/''"

lemma validate_routes_ok:
  "validate_routes lib ns ps rs = [] \<Longrightarrow>
     distinct (map rc_Name rs) \<and> set (map rc_Name rs) \<inter> set ns = {} \<and>
     distinct (map rc_PathPrefix rs) \<and> set (map rc_PathPrefix rs) \<inter> set ps = {} \<and>
     list_all (\<lambda>r. prefix_ok (rc_PathPrefix r) \<and> (rc_AllowAnonymous r \<longrightarrow> rc_Ecosystem r = ''static'')) rs"
proof (induction rs arbitrary: ns ps)
  case (Cons r rs)
  then have "validate_routes lib (rc_Name r # ns) (rc_PathPrefix r # ps) rs = []" by simp
  note rest = Cons.IH [OF this]
  from Cons.prems have r: "validate_route lib ns ps r = []" by simp
  then have "rc_Name r \<notin> set ns" "rc_PathPrefix r \<notin> set ps" "prefix_ok (rc_PathPrefix r)"
    "rc_AllowAnonymous r \<longrightarrow> rc_Ecosystem r = ''static''"
    by (simp_all add: validate_route_def Let_def prefix_ok_def split: if_splits)
  with rest show ?case by auto
qed simp

lemma Validate_parts:
  assumes "Validate lib env cfg = []"
  shows "validate_server lib cfg = []" "validate_budget cfg = []" "validate_auth env cfg = []"
    "validate_osv lib cfg = []" "validate_cache cfg = []" "validate_routes lib [] [] (cfg_Routes cfg) = []"
  using assms by (simp_all add: Validate_def)

text \<open>C28: In a configuration that Validate accepts, route names and path prefixes are distinct,
  every prefix starts and ends with a slash, only static routes are anonymous, and the write
  timeout exceeds the sum of the time limits a request can use up, so an answer is not cut off
  by the server while a permitted upstream request is under way.\<close>

theorem validated_config:
  assumes "Validate lib env cfg = []"
  shows "distinct (map rc_Name (cfg_Routes cfg)) \<and> distinct (map rc_PathPrefix (cfg_Routes cfg)) \<and>
    list_all (\<lambda>r. prefix_ok (rc_PathPrefix r) \<and> (rc_AllowAnonymous r \<longrightarrow> rc_Ecosystem r = ''static''))
      (cfg_Routes cfg) \<and>
    sum_list (request_budget cfg) < srv_WriteTimeout (cfg_Server cfg)"
proof -
  note ok = Validate_parts [OF assms]
  from ok(1) have pos: "srv_WriteTimeout (cfg_Server cfg) > 0" "up_RequestTimeout (cfg_Upstream cfg) > 0"
    by (simp_all add: validate_server_def Let_def split: if_splits)
  from ok(4) have osv: "osvc_Enabled (int_OSV (cfg_Intel cfg)) \<Longrightarrow> osvc_Timeout (int_OSV (cfg_Intel cfg)) > 0"
    by (simp add: validate_osv_def Let_def split: if_splits)
  from ok(5) have cch: "cache_enabled cfg \<Longrightarrow> cch_ReadTimeout (cfg_Cache cfg) > 0"
    by (auto simp: validate_cache_def validateEnabledCache_def cache_enabled_def Let_def split: if_splits)
  have "list_all (\<lambda>p. p > 0) (request_budget cfg)"
    using pos osv cch by (simp add: request_budget_def)
  moreover have "request_budget cfg \<noteq> []" by (simp add: request_budget_def)
  ultimately have "sum_list (request_budget cfg) < srv_WriteTimeout (cfg_Server cfg)"
    using ok(2) pos by (simp add: validate_budget_def durationBudgetFits_iff split: if_splits)
  with validate_routes_ok [OF ok(6)] show ?thesis by blast
qed

text \<open>The built-in defaults are accepted, whatever the environment, when their URLs parse.\<close>

lemma Default_accepted:
  assumes "\<And>s. \<not> is_err (clib_ParseRequestURI lib s)"
  shows "Validate lib env Default = []"
proof -
  have "validate_server lib Default = []"
    using assms by (simp add: validate_server_def Default_def Let_def go_eval)
  moreover have "validate_cache Default = []" "validate_coordination Default = []"
    "validate_budget Default = []" "validate_auth env Default = []"
    by (simp_all add: validate_cache_def validate_coordination_def validate_budget_def request_budget_def
        cache_enabled_def validate_auth_def Default_def Let_def)
  moreover have "validate_osv lib Default = []"
    using assms by (simp add: validate_osv_def Default_def)
  moreover have "validate_routes lib [] [] (cfg_Routes Default) = []"
    using assms by (simp add: Default_def validate_route_def plainRoute_def Let_def go_eval)
  moreover have "cfg_Routes Default \<noteq> []" by (simp add: Default_def)
  ultimately show ?thesis by (simp add: Validate_def)
qed

definition example_url :: "string \<Rightarrow> url" where
  "example_url host = \<lparr>u_Scheme = ''https'', u_Host = host, u_HasUser = False, u_Path = [],
     u_RawQuery = [], u_ForceQuery = False, u_Fragment = []\<rparr>"

text \<open>A stand-in that takes every string for a host and every duration for a second.\<close>

definition example_clib :: config_lib where
  "example_clib = \<lparr>clib_ReadFile = \<lambda>_. Inl ''no file'', clib_Unmarshal = \<lambda>_ c. Inr c,
     clib_ParseDuration = \<lambda>s. if s = ''1s'' then Inr nsSecond else Inl ''invalid duration'',
     clib_ParseRequestURI = \<lambda>s. Inr (example_url s)\<rparr>"

theorem validated_config_witness:
  "Validate example_clib Map.empty Default = [] \<and>
   sum_list (request_budget Default) < srv_WriteTimeout (cfg_Server Default)"
proof -
  have v: "Validate example_clib Map.empty Default = []"
    by (rule Default_accepted) (simp add: example_clib_def)
  from v validated_config [OF v] show ?thesis by blast
qed

section \<open>Overrides\<close>

lemma apply_overrides_unset:
  "(\<And>name upd. (name, upd) \<in> set os \<Longrightarrow> Getenv env name = []) \<Longrightarrow> apply_overrides env os cfg = Inr cfg"
proof (induction os)
  case (Cons ov os)
  obtain n u where ov: "ov = (n, u)" by (cases ov)
  have "Getenv env n = []" using Cons.prems [of n u] by (simp add: ov)
  moreover have "apply_overrides env os cfg = Inr cfg" using Cons.prems by (intro Cons.IH) auto
  ultimately show ?case by (simp add: ov)
qed simp

lemma apply_overrides_error:
  assumes "apply_overrides env os cfg = Inl e"
    and "\<And>name upd v c e. (name, upd) \<in> set os \<Longrightarrow> upd v c = Inl e \<Longrightarrow> fst e = name @ '' is invalid: %w''"
  shows "\<exists>name \<in> fst ` set os. Getenv env name \<noteq> [] \<and> fst e = name @ '' is invalid: %w''"
  using assms
proof (induction os arbitrary: cfg)
  case (Cons ov os)
  obtain n u where ov: "ov = (n, u)" by (cases ov)
  have sub: "\<And>name upd v c e. (name, upd) \<in> set os \<Longrightarrow> upd v c = Inl e \<Longrightarrow> fst e = name @ '' is invalid: %w''"
    using Cons.prems(2) by (meson list.set_intros(2))
  show ?case
  proof (cases "Getenv env n = []")
    case True
    then have "apply_overrides env os cfg = Inl e" using Cons.prems(1) by (simp add: ov)
    from Cons.IH [OF this sub] show ?thesis by (auto simp: ov)
  next
    case set: False
    show ?thesis
    proof (cases "u (Getenv env n) cfg")
      case (Inl e')
      with set Cons.prems(1) have "e' = e" by (simp add: ov)
      with Inl Cons.prems(2) [of n u] set show ?thesis by (simp add: ov)
    next
      case (Inr cfg')
      with set Cons.prems(1) have "apply_overrides env os cfg' = Inl e" by (simp add: ov)
      from Cons.IH [OF this sub] show ?thesis by (auto simp: ov)
    qed
  qed
qed simp

lemma env_overrides_error:
  assumes "(name, upd) \<in> set (env_overrides lib)" and "upd v c = Inl e"
  shows "fst e = name @ '' is invalid: %w''"
  using assms by (auto simp: env_overrides_def set_text_def set_duration_def set_int_def
      split: sum.splits option.splits)

definition override_names :: "string list" where
  "override_names = map fst (env_overrides example_clib)"

lemma override_names_eq: "map fst (env_overrides lib) = override_names"
  by (simp add: override_names_def env_overrides_def set_text_def set_duration_def set_int_def)

text \<open>With none of its variables set the environment leaves the configuration alone, and
  when an override is refused the error names a variable that is set. No variable is read twice.\<close>

theorem applyEnv_overrides:
  "((\<forall>name \<in> set override_names. Getenv env name = []) \<longrightarrow> applyEnv lib env cfg = Inr cfg) \<and>
   (\<forall>e. applyEnv lib env cfg = Inl e \<longrightarrow>
      (\<exists>name \<in> set override_names. Getenv env name \<noteq> [] \<and> fst e = name @ '' is invalid: %w'')) \<and>
   distinct override_names"
proof (intro conjI impI allI)
  assume "\<forall>name \<in> set override_names. Getenv env name = []"
  then show "applyEnv lib env cfg = Inr cfg"
    unfolding applyEnv_def override_names_eq [symmetric, of lib]
    by (intro apply_overrides_unset) force
next
  fix e assume "applyEnv lib env cfg = Inl e"
  then have "\<exists>name \<in> fst ` set (env_overrides lib). Getenv env name \<noteq> [] \<and> fst e = name @ '' is invalid: %w''"
    unfolding applyEnv_def using env_overrides_error by (rule apply_overrides_error)
  then show "\<exists>name \<in> set override_names. Getenv env name \<noteq> [] \<and> fst e = name @ '' is invalid: %w''"
    unfolding override_names_eq [symmetric, of lib] by simp
next
  show "distinct override_names"
    by (simp add: override_names_def env_overrides_def set_text_def set_duration_def set_int_def)
qed

theorem applyEnv_overrides_witness:
  "applyEnv example_clib Map.empty Default = Inr Default \<and>
   (\<exists>name \<in> set override_names. Getenv [''PFW_UPSTREAM_QUEUE_TIMEOUT'' \<mapsto> ''soon''] name \<noteq> [] \<and>
      ''PFW_UPSTREAM_QUEUE_TIMEOUT is invalid: %w'' = name @ '' is invalid: %w'')"
proof
  show "applyEnv example_clib Map.empty Default = Inr Default"
    using applyEnv_overrides [of Map.empty example_clib Default] by (simp add: Getenv_def)
next
  let ?env = "[''PFW_UPSTREAM_QUEUE_TIMEOUT'' \<mapsto> ''soon''] :: environ"
  have "applyEnv example_clib ?env Default =
      Inl (''PFW_UPSTREAM_QUEUE_TIMEOUT is invalid: %w'', [''invalid duration''])"
    by (simp add: applyEnv_def env_overrides_def set_text_def set_duration_def set_int_def Getenv_def
        example_clib_def)
  with applyEnv_overrides [of ?env example_clib Default]
  show "\<exists>name \<in> set override_names. Getenv ?env name \<noteq> [] \<and>
      ''PFW_UPSTREAM_QUEUE_TIMEOUT is invalid: %w'' = name @ '' is invalid: %w''"
    by (metis fst_conv)
qed

section \<open>Origins compared\<close>

lemma splitHostPort_port: "list_all is_digit (snd (splitHostPort h))"
proof -
  have "list_all is_digit (drop (Suc i) h)" if "LastIndexByte h CHR '':'' = Some i" "validOptionalPort (drop i h)" for i
    using that LastIndexByte_Some [OF that(1)]
    by (auto simp: validOptionalPort_def Cons_nth_drop_Suc [symmetric] split: list.splits)
  then show ?thesis by (auto simp: splitHostPort_def case_prod_beta split: option.split)
qed

lemma digits_no_colon: "list_all is_digit p \<Longrightarrow> CHR '':'' \<notin> set p"
proof
  assume "list_all is_digit p" and "CHR '':'' \<in> set p"
  then have "is_digit CHR '':''" by (simp add: list_all_iff)
  then show False by (simp add: is_digit_def decimal_digits_def)
qed

lemma last_colon_inject:
  assumes "a @ CHR '':'' # p = b @ CHR '':'' # q" and "CHR '':'' \<notin> set p" and "CHR '':'' \<notin> set q"
  shows "a = b \<and> p = q"
  using assms LastIndexByte_append [of "CHR '':''" p a] LastIndexByte_append [of "CHR '':''" q b]
  by simp

lemma JoinHostPort_inject:
  assumes "JoinHostPort h p = JoinHostPort g q" and "CHR '':'' \<notin> set p" and "CHR '':'' \<notin> set q"
  shows "h = g \<and> p = q"
proof -
  have j: "JoinHostPort x y = (if CHR '':'' \<in> set x then CHR ''['' # x @ '']'' else x) @ CHR '':'' # y" for x y
    by (simp add: JoinHostPort_def)
  have "p = q" and eq: "(if CHR '':'' \<in> set h then CHR ''['' # h @ '']'' else h) =
      (if CHR '':'' \<in> set g then CHR ''['' # g @ '']'' else g)"
    using last_colon_inject [OF _ assms(2,3)] assms(1) unfolding j by blast+
  moreover have "h = g"
    using eq by (cases "CHR '':'' \<in> set h"; cases "CHR '':'' \<in> set g") auto
  ultimately show ?thesis by blast
qed

definition origin_port :: "url \<Rightarrow> string" where
  "origin_port u = (if url_Port u = [] then (if ToLower (u_Scheme u) = ''http'' then ''80'' else ''443'')
     else url_Port u)"

lemma origin_port_no_colon: "CHR '':'' \<notin> set (origin_port u)"
  using splitHostPort_port [of "u_Host u"]
  by (auto simp: origin_port_def url_Port_def dest: digits_no_colon)

lemma NormalizeHTTPOrigin_ok:
  assumes "NormalizeHTTPOrigin lib a = Inr s"
  shows "\<exists>u. clib_ParseRequestURI lib (TrimSpace a) = Inr u \<and> ToLower (u_Scheme u) \<in> {''http'', ''https''} \<and>
    s = ToLower (u_Scheme u) @ ''://'' @ JoinHostPort (ToLower (url_Hostname u)) (origin_port u)"
proof (cases "clib_ParseRequestURI lib (TrimSpace a)")
  case (Inl e)
  with assms show ?thesis by (simp add: NormalizeHTTPOrigin_def)
next
  case (Inr u)
  have "ToLower (u_Scheme u) \<in> {''http'', ''https''} \<and>
    s = ToLower (u_Scheme u) @ ''://'' @ JoinHostPort (ToLower (url_Hostname u)) (origin_port u)"
    using assms unfolding NormalizeHTTPOrigin_def Let_def origin_port_def Inr sum.case
    by (simp only: split: if_split_asm) simp_all
  with Inr show ?thesis by blast
qed

text \<open>Two values with the same canonical origin name the same scheme, host and port, letter
  case aside and with the scheme's default port filled in.\<close>

theorem origin_inject:
  assumes "NormalizeHTTPOrigin lib a = Inr s" and "NormalizeHTTPOrigin lib b = Inr s"
  shows "\<exists>u v. clib_ParseRequestURI lib (TrimSpace a) = Inr u \<and> clib_ParseRequestURI lib (TrimSpace b) = Inr v \<and>
    ToLower (u_Scheme u) = ToLower (u_Scheme v) \<and> ToLower (url_Hostname u) = ToLower (url_Hostname v) \<and>
    origin_port u = origin_port v"
proof -
  obtain u v where u: "clib_ParseRequestURI lib (TrimSpace a) = Inr u" "ToLower (u_Scheme u) \<in> {''http'', ''https''}"
      "s = ToLower (u_Scheme u) @ ''://'' @ JoinHostPort (ToLower (url_Hostname u)) (origin_port u)"
    and v: "clib_ParseRequestURI lib (TrimSpace b) = Inr v" "ToLower (u_Scheme v) \<in> {''http'', ''https''}"
      "s = ToLower (u_Scheme v) @ ''://'' @ JoinHostPort (ToLower (url_Hostname v)) (origin_port v)"
    using NormalizeHTTPOrigin_ok [OF assms(1)] NormalizeHTTPOrigin_ok [OF assms(2)] by blast
  have scheme: "ToLower (u_Scheme u) = ToLower (u_Scheme v)"
    using u(2,3) v(2,3) by auto
  with u(3) v(3) have "JoinHostPort (ToLower (url_Hostname u)) (origin_port u) =
      JoinHostPort (ToLower (url_Hostname v)) (origin_port v)" by simp
  from JoinHostPort_inject [OF this origin_port_no_colon origin_port_no_colon] u(1) v(1) scheme
  show ?thesis by blast
qed

theorem origin_inject_witness:
  "NormalizeHTTPOrigin example_clib ''Example.org'' = Inr ''https://example.org:443'' \<and>
   NormalizeHTTPOrigin example_clib ''example.org:443'' = Inr ''https://example.org:443'' \<and>
   origin_port (example_url ''Example.org'') = origin_port (example_url ''example.org:443'')"
proof -
  have a: "NormalizeHTTPOrigin example_clib ''Example.org'' = Inr ''https://example.org:443''"
    and b: "NormalizeHTTPOrigin example_clib ''example.org:443'' = Inr ''https://example.org:443''"
    by (simp_all add: NormalizeHTTPOrigin_def example_clib_def example_url_def url_Hostname_def
        url_Port_def splitHostPort_def validOptionalPort_def JoinHostPort_def Let_def go_eval)
  have t: "TrimSpace ''Example.org'' = ''Example.org''" "TrimSpace ''example.org:443'' = ''example.org:443''"
    by (simp_all add: go_eval)
  from origin_inject [OF a b] a b show ?thesis unfolding t by (auto simp: example_clib_def)
qed

end
