(* ===== verification/GoIO.thy ===== *)
theory GoIO
  imports Registry
begin

text \<open>
  Readers, headers and paths as the caches and the proxy use them. A reader is the list of what
  its reads would return to an unlimited buffer; a read into a smaller buffer leaves the rest for
  the next one, and a reader that has run out is at its end. A header is a Go map from
  canonical keys to value lists.
\<close>

datatype read_end = ReadOK | ReadEOF | ReadErr string

type_synonym reader = "(string \<times> read_end) list"

fun Read :: "nat \<Rightarrow> reader \<Rightarrow> (string \<times> read_end) \<times> reader" where
  "Read n [] = (([], ReadEOF), [])"
| "Read n ((c, e) # rd) =
     (if length c \<le> n then ((c, e), if e = ReadOK then rd else (([], e) # rd))
      else ((take n c, ReadOK), (drop n c, e) # rd))"

text \<open>The bytes a reader delivers before it ends or fails.\<close>

fun reader_bytes :: "reader \<Rightarrow> string" where
  "reader_bytes [] = []"
| "reader_bytes ((c, e) # rd) = c @ (if e = ReadOK then reader_bytes rd else [])"

lemma Read_bytes: "Read n rd = ((c, e), rd') \<Longrightarrow> reader_bytes rd = c @ reader_bytes rd' \<and> length c \<le> n"
  by (cases "(n, rd)" rule: Read.cases) (auto split: if_splits)

lemma Read_end: "Read n rd = ((c, e), rd') \<Longrightarrow> e \<noteq> ReadOK \<Longrightarrow> reader_bytes rd' = []"
  by (cases "(n, rd)" rule: Read.cases) (auto split: if_splits)

section \<open>Headers\<close>

type_synonym header = "(string, string list) gomap"

definition header_token :: "char \<Rightarrow> bool" where
  "header_token c \<longleftrightarrow> alnum c \<or> List.member ''!#$%&*+-.^_`|~'' c \<or> c = CHR 0x27"

fun canonical_chars :: "bool \<Rightarrow> string \<Rightarrow> string" where
  "canonical_chars up [] = []"
| "canonical_chars up (c # s) =
     (if up \<and> c \<in> set lower_letters then upper_of c else if up then c else lower_char c)
       # canonical_chars (c = CHR ''-'') s"

definition CanonicalHeaderKey :: "string \<Rightarrow> string" where
  "CanonicalHeaderKey k = (if list_all header_token k then canonical_chars True k else k)"

definition header_Get :: "header \<Rightarrow> string \<Rightarrow> string" where
  "header_Get h k = (case map_of h (CanonicalHeaderKey k) of Some (v # _) \<Rightarrow> v | _ \<Rightarrow> [])"

definition header_Values :: "header \<Rightarrow> string \<Rightarrow> string list" where
  "header_Values h k = (case map_of h (CanonicalHeaderKey k) of Some vs \<Rightarrow> vs | None \<Rightarrow> [])"

definition header_Add :: "string \<Rightarrow> string \<Rightarrow> header \<Rightarrow> header" where
  "header_Add k v h = AList.update (CanonicalHeaderKey k) (header_Values h k @ [v]) h"

definition header_Set :: "string \<Rightarrow> string \<Rightarrow> header \<Rightarrow> header" where
  "header_Set k v h = AList.update (CanonicalHeaderKey k) [v] h"

definition header_Del :: "string \<Rightarrow> header \<Rightarrow> header" where
  "header_Del k h = AList.delete (CanonicalHeaderKey k) h"

text \<open>What net/http makes of a message: each key once, in canonical form, with a value.\<close>

definition canonical_header :: "header \<Rightarrow> bool" where
  "canonical_header h \<longleftrightarrow> distinct (map fst h) \<and>
     list_all (\<lambda>(k, vs). CanonicalHeaderKey k = k \<and> vs \<noteq> []) h"

lemma canonical_filter: "canonical_header h \<Longrightarrow> canonical_header (filter P h)"
proof -
  assume c: "canonical_header h"
  have "distinct (map fst (filter P h))"
    using c by (auto simp: canonical_header_def distinct_map inj_on_def)
  with c show ?thesis by (auto simp: canonical_header_def list_all_iff)
qed

text \<open>Adding the values of one key after the other rebuilds the entry.\<close>

lemma fold_add_values:
  assumes "CanonicalHeaderKey k = k" and "k \<notin> fst ` set h"
  shows "fold (header_Add k) vs (h @ (if us = [] then [] else [(k, us)])) =
    h @ (if us @ vs = [] then [] else [(k, us @ vs)])"
proof (induction vs arbitrary: us)
  case (Cons v vs)
  have upd: "AList.update k x (h @ [(k, y)]) = h @ [(k, x)]" "AList.update k x h = h @ [(k, x)]" for x y
    using assms(2) by (induction h) auto
  have val: "header_Values (h @ (if us = [] then [] else [(k, us)])) k = us"
    using assms by (auto simp: header_Values_def map_of_append map_add_def map_of_eq_None_iff [symmetric]
        split: option.split)
  have "header_Add k v (h @ (if us = [] then [] else [(k, us)])) = h @ [(k, us @ [v])]"
    unfolding header_Add_def val assms(1) using upd by (cases us) simp_all
  then show ?case using Cons.IH [of "us @ [v]"] by simp
qed simp

section \<open>Joining path elements\<close>

definition path_JoinN :: "string list \<Rightarrow> string" where
  "path_JoinN elems =
     (let es = filter (\<lambda>e. e \<noteq> []) elems in if es = [] then [] else path_Clean (Join es ''/''))"

lemma clean_elems_last:
  assumes "e \<notin> {[], ''.'', ''..''}"
  shows "\<exists>out. clean_elems rooted stack (es @ [e]) = out @ [e]"
  using assms by (induction rooted stack es rule: clean_elems.induct) auto

lemma Join_snoc: "\<exists>pre. Join (out @ [e]) sep = pre @ e"
proof (induction out)
  case (Cons x out)
  then obtain pre where "Join (out @ [e]) sep = pre @ e" by blast
  then have "Join ((x # out) @ [e]) sep = (x @ sep @ pre) @ e" by (simp add: Join_Cons)
  then show ?case by blast
qed simp

lemma Join_snoc_sep: "out \<noteq> [] \<Longrightarrow> \<exists>pre. Join (out @ [e]) sep = pre @ sep @ e"
proof (induction out)
  case (Cons x out)
  show ?case
  proof (cases "out = []")
    case True
    then show ?thesis by (intro exI [of _ x]) (simp add: Join_Cons)
  next
    case False
    then obtain pre where "Join (out @ [e]) sep = pre @ sep @ e" using Cons.IH by blast
    then have "Join ((x # out) @ [e]) sep = (x @ sep @ pre) @ sep @ e" by (simp add: Join_Cons)
    then show ?thesis by blast
  qed
qed simp

lemma path_Clean_last:
  assumes "CHR ''/'' \<notin> set e" and "e \<notin> {[], ''.'', ''..''}"
  shows "\<exists>pre. path_Clean (d @ ''/'' @ e) = pre @ e"
proof -
  have "\<exists>es. Split (d @ ''/'' @ e) CHR ''/'' = es @ [e]"
  proof (induction d)
    case Nil
    then show ?case using assms(1) by (simp add: Split_no_sep)
  next
    case (Cons c d)
    then obtain es where es: "Split (d @ ''/'' @ e) CHR ''/'' = es @ [e]" by blast
    have "es \<noteq> []"
    proof
      assume "es = []"
      with es have "Join [e] ''/'' = d @ ''/'' @ e" by (metis Join_Split append_Nil)
      then have "CHR ''/'' \<in> set e" by simp
      with assms(1) show False ..
    qed
    then obtain x xs where "es = x # xs" by (cases es) auto
    with es show ?case by (auto intro: exI [of _ "[] # x # xs"] exI [of _ "(c # x) # xs"])
  qed
  then obtain es where es: "Split (d @ ''/'' @ e) CHR ''/'' = es @ [e]" by blast
  let ?rooted = "HasPrefix (d @ ''/'' @ e) ''/''"
  obtain out where "clean_elems ?rooted [] (es @ [e]) = out @ [e]"
    using clean_elems_last [OF assms(2)] by blast
  moreover obtain pre where "Join (out @ [e]) ''/'' = pre @ e" using Join_snoc by blast
  ultimately show ?thesis using es assms(2) unfolding path_Clean_def Let_def by auto
qed

lemma path_JoinN_last:
  assumes "CHR ''/'' \<notin> set e" and "e \<notin> {[], ''.'', ''..''}" and "x \<in> set es" and "x \<noteq> []"
  shows "\<exists>pre. path_JoinN (es @ [e]) = pre @ e"
proof -
  have "filter (\<lambda>e. e \<noteq> []) es \<noteq> []" using assms(3,4) by (auto simp: filter_empty_conv)
  moreover have "filter (\<lambda>e. e \<noteq> []) (es @ [e]) = filter (\<lambda>e. e \<noteq> []) es @ [e]" using assms(2) by simp
  ultimately show ?thesis
    unfolding path_JoinN_def Let_def
    using Join_snoc_sep [of "filter (\<lambda>e. e \<noteq> []) es" e "''/''"] path_Clean_last [OF assms(1,2)] by fastforce
qed

end
