(* ===== verification/Rewrite.thy ===== *)
theory Rewrite
  imports Config GoIO
begin

text \<open>
  internal/proxy/rewrite.go: download origins in registry metadata are pointed back at the
  firewall while the body streams through. The reader is the list of what its reads return, the
  writer a function from its state and the bytes of a Write to an error or its next state. A loop
  is a \<open>partial_function\<close>: not returning is None. The reference \<open>subst\<close> replaces, from the
  left, the first rule that matches; the lemmas show that the stream is the reference on the
  whole body however the reads cut it, that it always returns, and that what has been written
  before a read fails is correct whatever would have followed.
\<close>

record replacement =
  rep_old :: string
  rep_new :: string

definition rewriteRules :: "string \<Rightarrow> RouteConfig \<Rightarrow> replacement list" where
  "rewriteRules baseURL route =
     (let pre = baseURL @ TrimRight (rc_PathPrefix route) ''/'' @ ''/'' in
      if rc_Ecosystem route = ''npm'' then
        [\<lparr>rep_old = ''https://registry.npmjs.org/'', rep_new = pre\<rparr>]
      else if rc_Ecosystem route = ''pypi'' then
        [\<lparr>rep_old = ''https://files.pythonhosted.org/'', rep_new = pre @ ''files/''\<rparr>,
         \<lparr>rep_old = ''http://files.pythonhosted.org/'', rep_new = pre @ ''files/''\<rparr>]
      else [])"

section \<open>One pass over a buffer\<close>

definition slice :: "string \<Rightarrow> nat \<Rightarrow> nat \<Rightarrow> string" where
  "slice data i j = take (j - i) (drop i data)"

definition indexFrom :: "string \<Rightarrow> string \<Rightarrow> nat \<Rightarrow> nat option" where
  "indexFrom data sep from = map_option (\<lambda>i. from + i) (Index (drop from data) sep)"

text \<open>The rule with the least next position, the first of them.\<close>

fun pick_rule :: "nat \<Rightarrow> (nat \<times> nat) option \<Rightarrow> nat option list \<Rightarrow> (nat \<times> nat) option" where
  "pick_rule i best [] = best"
| "pick_rule i best (x # xs) =
     pick_rule (Suc i)
       (case x of
          None \<Rightarrow> best
        | Some p \<Rightarrow> (case best of None \<Rightarrow> Some (i, p) | Some (j, b) \<Rightarrow> if p < b then Some (i, p) else best))
       xs"

definition refresh :: "string \<Rightarrow> replacement list \<Rightarrow> nat \<Rightarrow> nat option list \<Rightarrow> nat option list" where
  "refresh data rules start next =
     map2 (\<lambda>rule x. case x of
             Some p \<Rightarrow> if p < start then indexFrom data (rep_old rule) start else x
           | None \<Rightarrow> None) rules next"

type_synonym 'w writer = "'w \<Rightarrow> string \<Rightarrow> string + 'w"

partial_function (option) rewrite_loop :: "'w writer \<Rightarrow> string \<Rightarrow> replacement list \<Rightarrow> nat option list
    \<Rightarrow> nat \<Rightarrow> 'w \<Rightarrow> (string + nat \<times> 'w) option" where
  "rewrite_loop wr data rules next start w =
     (case pick_rule 0 None next of
        None \<Rightarrow> Some (Inr (start, w))
      | Some (i, p) \<Rightarrow>
          (case wr w (slice data start p) of
             Inl e \<Rightarrow> Some (Inl e)
           | Inr w1 \<Rightarrow>
               (case wr w1 (rep_new (rules ! i)) of
                  Inl e \<Rightarrow> Some (Inl e)
                | Inr w2 \<Rightarrow>
                    rewrite_loop wr data rules
                      (refresh data rules (p + length (rep_old (rules ! i))) next)
                      (p + length (rep_old (rules ! i))) w2)))"

definition writeRewritten :: "'w writer \<Rightarrow> 'w \<Rightarrow> string \<Rightarrow> replacement list \<Rightarrow> nat \<Rightarrow> bool
    \<Rightarrow> (string + nat \<times> 'w) option" where
  "writeRewritten wr w data rules keep final =
     (case rewrite_loop wr data rules (map (\<lambda>r. Index data (rep_old r)) rules) 0 w of
        None \<Rightarrow> None
      | Some (Inl e) \<Rightarrow> Some (Inl e)
      | Some (Inr (start, w)) \<Rightarrow>
          let stop = (if final then length data else max start (length data - keep)) in
          (case wr w (slice data start stop) of
             Inl e \<Rightarrow> Some (Inl e)
           | Inr w \<Rightarrow> Some (Inr (stop, w))))"

section \<open>The stream\<close>

text \<open>The result is the error, if one is returned, with the state of the writer when no write
  failed; None when the reads run out before an error or the end.\<close>

fun rewrite_reads :: "'w writer \<Rightarrow> replacement list \<Rightarrow> nat \<Rightarrow> string \<Rightarrow> 'w \<Rightarrow> reader
    \<Rightarrow> (string option \<times> 'w option) option" where
  "rewrite_reads wr rules keep pending w [] = None"
| "rewrite_reads wr rules keep pending w ((chunk, readErr) # reads) =
     (let pending = pending @ chunk in
      case readErr of
        ReadErr e \<Rightarrow> Some (Some e, Some w)
      | _ \<Rightarrow>
        (case writeRewritten wr w pending rules keep (readErr = ReadEOF) of
           None \<Rightarrow> None
         | Some (Inl e) \<Rightarrow> Some (Some e, None)
         | Some (Inr (flushed, w)) \<Rightarrow>
             if readErr = ReadEOF then Some (None, Some w)
             else rewrite_reads wr rules keep (drop flushed pending) w reads))"

definition keep_of :: "replacement list \<Rightarrow> nat" where
  "keep_of rules = fold (\<lambda>rule keep. max keep (length (rep_old rule) - 1)) rules 0"

definition rewriteStream :: "'w writer \<Rightarrow> 'w \<Rightarrow> reader \<Rightarrow> replacement list
    \<Rightarrow> (string option \<times> 'w option) option" where
  "rewriteStream wr w reads rules = rewrite_reads wr rules (keep_of rules) [] w reads"

section \<open>The reference\<close>

definition rule_at :: "replacement list \<Rightarrow> string \<Rightarrow> replacement option" where
  "rule_at rules s = find (\<lambda>r. prefix (rep_old r) s) rules"

function subst :: "replacement list \<Rightarrow> string \<Rightarrow> string" where
  "subst rules [] = []"
| "subst rules (c # s) =
     (case rule_at rules (c # s) of
        Some r \<Rightarrow> rep_new r @ subst rules (drop (max 1 (length (rep_old r))) (c # s))
      | None \<Rightarrow> c # subst rules s)"
  by pat_completeness auto
termination by (relation "measure (\<lambda>(_, s). length s)") auto

definition rules_ok :: "replacement list \<Rightarrow> bool" where
  "rules_ok rules \<longleftrightarrow> list_all (\<lambda>r. rep_old r \<noteq> []) rules \<and>
     list_all (\<lambda>r. list_all (\<lambda>s. sublist (rep_old r) (rep_old s) \<longrightarrow> rep_old r = rep_old s) rules) rules"

lemma rules_okD:
  assumes "rules_ok rules"
  shows "r \<in> set rules \<Longrightarrow> rep_old r \<noteq> []"
    and "r \<in> set rules \<Longrightarrow> s \<in> set rules \<Longrightarrow> sublist (rep_old r) (rep_old s) \<Longrightarrow> rep_old r = rep_old s"
  using assms by (auto simp: rules_ok_def list_all_iff)

lemma subst_hit: "rule_at rules s = Some r \<Longrightarrow> rep_old r \<noteq> [] \<Longrightarrow>
  subst rules s = rep_new r @ subst rules (drop (length (rep_old r)) s)"
proof -
  assume h: "rule_at rules s = Some r" "rep_old r \<noteq> []"
  then have "prefix (rep_old r) s" by (auto simp: rule_at_def find_Some_iff)
  with h obtain c t where "s = c # t" by (cases s) auto
  moreover have "max 1 (length (rep_old r)) = length (rep_old r)" using h(2) by (cases "rep_old r") auto
  ultimately show ?thesis using h by simp
qed

lemma subst_skip:
  "(\<And>q. q < k \<Longrightarrow> rule_at rules (drop q s) = None) \<Longrightarrow> k \<le> length s \<Longrightarrow>
     subst rules s = take k s @ subst rules (drop k s)"
proof (induction k arbitrary: s)
  case (Suc k)
  then obtain c t where s: "s = c # t" by (cases s) auto
  have "rule_at rules s = None" using Suc.prems(1) [of 0] by simp
  then have "subst rules s = c # subst rules t" by (simp add: s)
  moreover have "subst rules t = take k t @ subst rules (drop k t)"
    using Suc.prems s by (intro Suc.IH) (force, simp)
  ultimately show ?case by (simp add: s)
qed simp

section \<open>Finding the next match\<close>

lemma Index_Some_iff:
  "Index t x = Some i \<longleftrightarrow> i \<le> length t \<and> prefix x (drop i t) \<and> (\<forall>j<i. \<not> prefix x (drop j t))"
proof
  assume r: "i \<le> length t \<and> prefix x (drop i t) \<and> (\<forall>j<i. \<not> prefix x (drop j t))"
  then have "sublist x t"
    by (metis prefix_imp_sublist sublist_drop sublist_order.order_trans)
  then obtain k where k: "Index t x = Some k" using Index_None [of t x] by auto
  have "\<not> k < i" "\<not> i < k" using r Index_Some [OF k] Index_first [OF k] by blast+
  with k show "Index t x = Some i" by simp
qed (auto dest: Index_Some Index_first)

lemma indexFrom_Some_iff:
  assumes "a \<le> length data"
  shows "indexFrom data x a = Some p \<longleftrightarrow>
    a \<le> p \<and> p \<le> length data \<and> prefix x (drop p data) \<and> (\<forall>q. a \<le> q \<and> q < p \<longrightarrow> \<not> prefix x (drop q data))"
    (is "?L \<longleftrightarrow> ?R")
proof -
  have "?L \<longleftrightarrow> a \<le> p \<and> Index (drop a data) x = Some (p - a)"
    by (auto simp: indexFrom_def)
  also have "\<dots> \<longleftrightarrow> ?R"
  proof (cases "a \<le> p")
    case True
    have "(\<forall>j<p - a. \<not> prefix x (drop (a + j) data)) \<longleftrightarrow> (\<forall>q. a \<le> q \<and> q < p \<longrightarrow> \<not> prefix x (drop q data))"
      by (metis add_less_cancel_left le_Suc_ex le_add1 le_add_diff_inverse True)
    then show ?thesis using True assms by (auto simp: Index_Some_iff add.commute)
  qed simp
  finally show ?thesis .
qed

lemma indexFrom_None_iff: "indexFrom data x a = None \<longleftrightarrow> \<not> sublist x (drop a data)"
  by (simp add: indexFrom_def Index_None)

lemma indexFrom_refresh:
  assumes "a \<le> b" and "b \<le> length data"
  shows "(case indexFrom data x a of Some p \<Rightarrow> if p < b then indexFrom data x b else indexFrom data x a | None \<Rightarrow> None)
    = indexFrom data x b"
proof (cases "indexFrom data x a")
  case None
  then have "\<not> sublist x (drop b data)"
    using assms(1) by (metis indexFrom_None_iff le_Suc_ex drop_drop add.commute sublist_drop sublist_order.order_trans)
  then have "indexFrom data x b = None" by (simp add: indexFrom_None_iff)
  with None show ?thesis by simp
next
  case (Some p)
  then show ?thesis
    using assms indexFrom_Some_iff [of a data x p] indexFrom_Some_iff [of b data x p]
    by (auto simp del: not_None_eq)
qed

lemma refresh_eq:
  assumes "a \<le> b" and "b \<le> length data"
  shows "refresh data rules b (map (\<lambda>r. indexFrom data (rep_old r) a) rules) =
    map (\<lambda>r. indexFrom data (rep_old r) b) rules"
proof -
  have "map2 f rules (map g rules) = map (\<lambda>r. f r (g r)) rules" for f :: "replacement \<Rightarrow> nat option \<Rightarrow> nat option" and g
    by (induction rules) auto
  then show ?thesis
    unfolding refresh_def using indexFrom_refresh [OF assms] by simp
qed

lemma pick_rule_None: "pick_rule k best xs = None \<longleftrightarrow> best = None \<and> (\<forall>x \<in> set xs. x = None)"
  by (induction xs arbitrary: k best) (auto split: option.splits if_splits)

lemma pick_rule_least:
  "pick_rule k best xs = Some (i, p) \<Longrightarrow>
     (\<forall>b. best = Some b \<longrightarrow> p \<le> snd b) \<and> (\<forall>x \<in> set xs. \<forall>q. x = Some q \<longrightarrow> p \<le> q)"
proof (induction xs arbitrary: k best)
  case (Cons x xs)
  let ?best = "case x of None \<Rightarrow> best
     | Some p \<Rightarrow> (case best of None \<Rightarrow> Some (k, p) | Some (j, b) \<Rightarrow> if p < b then Some (k, p) else best)"
  from Cons.prems have "pick_rule (Suc k) ?best xs = Some (i, p)" by simp
  from Cons.IH [OF this] show ?case
    by (cases x; cases best) (auto split: if_splits)
qed simp

lemma pick_rule_where:
  "pick_rule k best xs = Some (i, p) \<Longrightarrow> best = Some (i, p) \<or>
     (\<exists>j<length xs. i = k + j \<and> xs ! j = Some p \<and> (\<forall>l<j. \<forall>q. xs ! l = Some q \<longrightarrow> p < q) \<and>
        (\<forall>b. best = Some b \<longrightarrow> p < snd b))"
proof (induction xs arbitrary: k best)
  case (Cons x xs)
  let ?best = "case x of None \<Rightarrow> best
     | Some p \<Rightarrow> (case best of None \<Rightarrow> Some (k, p) | Some (j, b) \<Rightarrow> if p < b then Some (k, p) else best)"
  from Cons.prems have "pick_rule (Suc k) ?best xs = Some (i, p)" by simp
  from Cons.IH [OF this] show ?case
  proof (elim disjE exE conjE)
    assume "?best = Some (i, p)"
    then have "best = Some (i, p) \<or> x = Some p \<and> i = k \<and> (\<forall>b. best = Some b \<longrightarrow> p < snd b)"
      by (cases x; cases best) (auto split: if_splits)
    then show ?thesis by fastforce
  next
    fix j assume j: "j < length xs" "i = Suc k + j" "xs ! j = Some p"
      "\<forall>l<j. \<forall>q. xs ! l = Some q \<longrightarrow> p < q" "\<forall>b. ?best = Some b \<longrightarrow> p < snd b"
    have x: "p < q" if "x = Some q" for q
      using j(5) that by (cases best) (auto split: if_splits)
    have b: "p < snd b" if "best = Some b" for b
      using j(5) that by (cases x; cases b) (auto split: if_splits)
    have "\<forall>l<Suc j. \<forall>q. (x # xs) ! l = Some q \<longrightarrow> p < q"
      using j(4) x by (auto simp: less_Suc_eq_0_disj)
    with j b show ?thesis by (intro disjI2 exI [of _ "Suc j"]) auto
  qed
qed simp

section \<open>One pass is the reference\<close>

lemma tail_match:
  assumes ok: "rules_ok rules" and r: "r \<in> set rules" "prefix (rep_old r) (drop p data)"
    and s: "s \<in> set rules" "prefix (rep_old s) (drop q data @ fut)" and "q \<le> p" "p \<le> length data"
  shows "prefix (rep_old s) (drop q data)"
proof (cases "prefix (rep_old s) (drop q data)")
  case False
  with s(2) obtain t where t: "rep_old s = drop q data @ t" by (auto simp: prefix_append)
  have "drop p data = drop (p - q) (drop q data)" using assms(6) by simp
  then have "sublist (rep_old r) (drop q data)"
    using r(2) by (metis prefix_imp_sublist sublist_drop sublist_order.order_trans)
  then have "sublist (rep_old r) (rep_old s)" unfolding t by (metis sublist_append_rightI sublist_order.order_trans)
  then have eq: "rep_old r = rep_old s" using rules_okD(2) [OF ok r(1) s(1)] by blast
  have "length (rep_old r) \<le> length data - p" using prefix_length_le [OF r(2)] by simp
  then have "t = []" using eq t assms(6,7) by (metis add_le_same_cancel1 diff_le_mono2 le_trans
    length_0_conv length_append length_drop le_zero_eq)
  with False t show ?thesis by simp
qed

abbreviation app :: "string writer" where
  "app \<equiv> \<lambda>w d. Inr (w @ d)"

abbreviation nexts :: "string \<Rightarrow> replacement list \<Rightarrow> nat \<Rightarrow> nat option list" where
  "nexts data rules start \<equiv> map (\<lambda>r. indexFrom data (rep_old r) start) rules"

text \<open>What the picked rule means: it is the reference's choice at its place, whatever follows
  the buffer, and no rule applies before it.\<close>

lemma picked:
  assumes ok: "rules_ok rules" and start: "start \<le> length data"
    and pick: "pick_rule 0 None (nexts data rules start) = Some (i, p)"
  shows "i < length rules" and "start \<le> p" and "prefix (rep_old (rules ! i)) (drop p data)" and "p \<le> length data"
    and "rule_at rules (drop p data @ fut) = Some (rules ! i)"
    and "start \<le> q \<Longrightarrow> q < p \<Longrightarrow> rule_at rules (drop q data @ fut) = None"
proof -
  from pick_rule_where [OF pick] have i: "i < length rules"
    and at: "indexFrom data (rep_old (rules ! i)) start = Some p"
    and before: "\<And>l q. l < i \<Longrightarrow> indexFrom data (rep_old (rules ! l)) start = Some q \<Longrightarrow> p < q"
    by auto
  from pick_rule_least [OF pick] have least:
    "\<And>r q. r \<in> set rules \<Longrightarrow> indexFrom data (rep_old r) start = Some q \<Longrightarrow> p \<le> q" by auto
  from at show sp: "start \<le> p" and pre: "prefix (rep_old (rules ! i)) (drop p data)" and pl: "p \<le> length data"
    by (simp_all add: indexFrom_Some_iff [OF start])
  show "i < length rules" by (fact i)
  have found: "\<exists>q' \<le> q. indexFrom data (rep_old s) start = Some q'"
    if "start \<le> q" "q \<le> length data" "prefix (rep_old s) (drop q data)" for s q
  proof -
    have "drop q data = drop (q - start) (drop start data)" using that(1) by simp
    then have "sublist (rep_old s) (drop start data)"
      using that(3) by (metis prefix_imp_sublist sublist_drop sublist_order.order_trans)
    then obtain q' where q': "indexFrom data (rep_old s) start = Some q'"
      using indexFrom_None_iff [of data "rep_old s" start] by auto
    then have "\<not> q < q'" using that by (auto simp: indexFrom_Some_iff [OF start])
    with q' show ?thesis by (intro exI [of _ q']) simp
  qed
  have complete: "prefix (rep_old s) (drop q data)"
    if "s \<in> set rules" "prefix (rep_old s) (drop q data @ fut)" "q \<le> p" for s q
    using tail_match [OF ok nth_mem [OF i] pre that(1,2,3) pl] .
  show "rule_at rules (drop p data @ fut) = Some (rules ! i)"
    unfolding rule_at_def find_Some_iff
  proof (intro exI [of _ i] conjI allI impI)
    show "prefix (rep_old (rules ! i)) (drop p data @ fut)" using pre by (rule prefix_prefix)
    fix j assume j: "j < i"
    show "\<not> prefix (rep_old (rules ! j)) (drop p data @ fut)"
    proof
      assume "prefix (rep_old (rules ! j)) (drop p data @ fut)"
      then have "prefix (rep_old (rules ! j)) (drop p data)" using complete j i by simp
      from found [OF sp pl this] before [OF j] show False by fastforce
    qed
  qed (use i in simp_all)
  assume q: "start \<le> q" "q < p"
  show "rule_at rules (drop q data @ fut) = None"
    unfolding rule_at_def find_None_iff
  proof
    assume "\<exists>s. s \<in> set rules \<and> prefix (rep_old s) (drop q data @ fut)"
    then obtain s where s: "s \<in> set rules" "prefix (rep_old s) (drop q data @ fut)" by blast
    then have "prefix (rep_old s) (drop q data)" using complete q by simp
    from found [OF q(1) _ this] least [OF s(1)] q pl show False by fastforce
  qed
qed

lemma rewrite_loop_app:
  assumes ok: "rules_ok rules"
  shows "start \<le> length data \<Longrightarrow> \<exists>stop out.
    rewrite_loop app data rules (nexts data rules start) start w = Some (Inr (stop, w @ out)) \<and>
    start \<le> stop \<and> stop \<le> length data \<and>
    (\<forall>fut. subst rules (drop start data @ fut) = out @ subst rules (drop stop data @ fut)) \<and>
    (\<forall>r \<in> set rules. \<not> sublist (rep_old r) (drop stop data))"
proof (induction "length data - start" arbitrary: start w rule: less_induct)
  case less
  show ?case
  proof (cases "pick_rule 0 None (nexts data rules start)")
    case None
    then have "\<forall>r \<in> set rules. \<not> sublist (rep_old r) (drop start data)"
      by (simp add: pick_rule_None indexFrom_None_iff)
    with None less.prems show ?thesis
      by (intro exI [of _ start] exI [of _ "[]"]) (simp add: rewrite_loop.simps)
  next
    case (Some ip)
    then obtain i p where pick: "pick_rule 0 None (nexts data rules start) = Some (i, p)" by (cases ip) auto
    note pk = picked [OF ok less.prems pick]
    let ?r = "rules ! i" and ?next = "p + length (rep_old (rules ! i))"
    have old: "rep_old ?r \<noteq> []" using rules_okD(1) [OF ok] pk(1) by simp
    have next_le: "?next \<le> length data" using prefix_length_le [OF pk(3)] pk(4) by simp
    have smaller: "length data - ?next < length data - start" using old pk(2) next_le
      by (metis add_le_same_cancel1 diff_less_mono2 le_less_trans length_greater_0_conv
        less_add_same_cancel1 less_le_trans not_le)
    from less.hyps [OF smaller next_le] obtain stop out where IH:
      "rewrite_loop app data rules (nexts data rules ?next) ?next (w @ slice data start p @ rep_new ?r)
         = Some (Inr (stop, (w @ slice data start p @ rep_new ?r) @ out))"
      "?next \<le> stop" "stop \<le> length data"
      "\<forall>fut. subst rules (drop ?next data @ fut) = out @ subst rules (drop stop data @ fut)"
      "\<forall>r \<in> set rules. \<not> sublist (rep_old r) (drop stop data)" by blast
    have "start \<le> ?next" using pk(2) by simp
    then have "rewrite_loop app data rules (nexts data rules start) start w
        = Some (Inr (stop, w @ slice data start p @ rep_new ?r @ out))"
      using IH(1) pick refresh_eq [of start ?next data rules] next_le
      by (subst rewrite_loop.simps) simp
    moreover have "subst rules (drop start data @ fut) =
        (slice data start p @ rep_new ?r @ out) @ subst rules (drop stop data @ fut)" for fut
    proof -
      let ?s = "drop start data @ fut"
      have dr: "drop (q - start) ?s = drop q data @ fut" if "start \<le> q" "q \<le> length data" for q
        using that by simp
      have "subst rules ?s = take (p - start) ?s @ subst rules (drop (p - start) ?s)"
      proof (rule subst_skip)
        fix q assume "q < p - start"
        then show "rule_at rules (drop q ?s) = None"
          using pk(6) [of "start + q" fut] pk(4) dr [of "start + q"] by simp
      qed (use pk(4) in simp)
      moreover have "take (p - start) ?s = slice data start p"
        using pk(4) by (simp add: slice_def)
      moreover have "subst rules (drop p data @ fut) =
          rep_new ?r @ subst rules (drop (length (rep_old ?r)) (drop p data @ fut))"
        using subst_hit [OF pk(5) old] .
      moreover have "drop (length (rep_old ?r)) (drop p data @ fut) = drop ?next data @ fut"
        using next_le by (simp add: add.commute)
      ultimately show ?thesis using IH(4) dr [OF pk(2,4)] by simp
    qed
    ultimately show ?thesis using IH(2,3,5) \<open>start \<le> ?next\<close>
      by (intro exI [of _ stop] exI [of _ "slice data start p @ rep_new ?r @ out"]) auto
  qed
qed

lemma rule_at_absent:
  assumes "\<forall>r \<in> set rules. \<not> sublist (rep_old r) s"
  shows "rule_at rules (drop q s) = None"
proof -
  have "\<not> prefix (rep_old r) (drop q s)" if "r \<in> set rules" for r
    using that assms by (metis prefix_imp_sublist sublist_drop sublist_order.order_trans)
  then show ?thesis by (auto simp: rule_at_def find_None_iff)
qed

lemma fold_max_ge:
  "k \<le> fold (\<lambda>rule keep. max keep (length (rep_old rule) - 1)) rs k"
  "r \<in> set rs \<Longrightarrow> length (rep_old r) - 1 \<le> fold (\<lambda>rule keep. max keep (length (rep_old rule) - 1)) rs k"
proof (induction rs arbitrary: k)
  case (Cons x rs)
  { case 1
    show ?case using Cons.IH(1) [of "max k (length (rep_old x) - 1)"] by simp }
  { case 2
    then show ?case
      using Cons.IH(1) [of "max k (length (rep_old x) - 1)"] Cons.IH(2) [of "max k (length (rep_old x) - 1)"]
      by auto }
qed simp_all

lemma keep_of_ge: "r \<in> set rules \<Longrightarrow> length (rep_old r) \<le> Suc (keep_of rules)"
  using fold_max_ge(2) [of r rules 0] by (simp add: keep_of_def)

lemma writeRewritten_app:
  assumes ok: "rules_ok rules"
  shows "\<exists>stop out. writeRewritten app w data rules (keep_of rules) final = Some (Inr (stop, w @ out)) \<and>
    (\<forall>fut. (final \<longrightarrow> fut = []) \<longrightarrow> subst rules (data @ fut) = out @ subst rules (drop stop data @ fut)) \<and>
    (final \<longrightarrow> stop = length data)"
proof -
  have "map (\<lambda>r. Index data (rep_old r)) rules = nexts data rules 0"
    by (simp add: indexFrom_def option.map_ident)
  with rewrite_loop_app [OF ok, of 0 data w] obtain start out where
    loop: "rewrite_loop app data rules (map (\<lambda>r. Index data (rep_old r)) rules) 0 w = Some (Inr (start, w @ out))"
    and start: "start \<le> length data"
    and out: "\<forall>fut. subst rules (data @ fut) = out @ subst rules (drop start data @ fut)"
    and absent: "\<forall>r \<in> set rules. \<not> sublist (rep_old r) (drop start data)"
    by (metis drop0 le0)
  define stop where "stop = (if final then length data else max start (length data - keep_of rules))"
  have stop: "start \<le> stop" "stop \<le> length data" using start by (auto simp: stop_def)
  have none: "rule_at rules (drop q (drop start data @ fut)) = None"
    if q: "q < stop - start" and fut: "final \<Longrightarrow> fut = []" for q fut
  proof (cases final)
    case True
    then show ?thesis using fut rule_at_absent [OF absent] by simp
  next
    case False
    then have "q + start < length data - keep_of rules" using q start by (auto simp: stop_def max_def split: if_splits)
    then have "\<not> prefix (rep_old r) (drop q (drop start data) @ fut)" if "r \<in> set rules" for r
    proof -
      assume lt: "q + start < length data - keep_of rules"
      show ?thesis
      proof
        assume pre: "prefix (rep_old r) (drop q (drop start data) @ fut)"
        have "length (rep_old r) \<le> length (drop q (drop start data))"
          using keep_of_ge [OF that] lt by simp
        with pre have "prefix (rep_old r) (drop q (drop start data))"
          by (auto simp: prefix_append)
        then show False using absent that
          by (metis prefix_imp_sublist sublist_drop sublist_order.order_trans)
      qed
    qed
    moreover have "drop q (drop start data @ fut) = drop q (drop start data) @ fut"
      using q stop by simp
    ultimately show ?thesis by (auto simp: rule_at_def find_None_iff)
  qed
  have "subst rules (drop start data @ fut) = slice data start stop @ subst rules (drop stop data @ fut)"
    if "final \<longrightarrow> fut = []" for fut
  proof -
    have "subst rules (drop start data @ fut) = take (stop - start) (drop start data @ fut) @
        subst rules (drop (stop - start) (drop start data @ fut))"
      using none that stop by (intro subst_skip) auto
    then show ?thesis using stop by (simp add: slice_def)
  qed
  with out have "\<forall>fut. (final \<longrightarrow> fut = []) \<longrightarrow>
      subst rules (data @ fut) = (out @ slice data start stop) @ subst rules (drop stop data @ fut)" by simp
  moreover have "writeRewritten app w data rules (keep_of rules) final =
      Some (Inr (stop, w @ out @ slice data start stop))"
    using loop by (simp add: writeRewritten_def stop_def Let_def)
  ultimately show ?thesis by (metis append.assoc stop_def)
qed

section \<open>The stream is the reference\<close>

lemma rewrite_reads_app:
  assumes "rules_ok rules"
  shows "rewrite_reads app rules (keep_of rules) pending w (map (\<lambda>c. (c, ReadOK)) chunks @ [(final, ReadEOF)]) =
    Some (None, Some (w @ subst rules (pending @ concat chunks @ final)))"
proof (induction chunks arbitrary: pending w)
  case Nil
  obtain stop out where "writeRewritten app w (pending @ final) rules (keep_of rules) True = Some (Inr (stop, w @ out))"
    "subst rules (pending @ final) = out @ subst rules (drop stop (pending @ final))" "stop = length (pending @ final)"
    using writeRewritten_app [OF assms, of w "pending @ final" True] by fastforce
  then show ?case by simp
next
  case (Cons c chunks)
  obtain stop out where "writeRewritten app w (pending @ c) rules (keep_of rules) False = Some (Inr (stop, w @ out))"
    "\<forall>fut. subst rules ((pending @ c) @ fut) = out @ subst rules (drop stop (pending @ c) @ fut)"
    using writeRewritten_app [OF assms, of w "pending @ c" False] by fastforce
  then show ?case using Cons.IH [of "drop stop (pending @ c)" "w @ out"] by simp
qed

lemma rewrite_reads_error:
  assumes "rules_ok rules"
  shows "\<exists>out. rewrite_reads app rules (keep_of rules) pending w
      (map (\<lambda>c. (c, ReadOK)) chunks @ (x, ReadErr e) # reads) = Some (Some e, Some (w @ out)) \<and>
    (\<forall>fut. prefix out (subst rules (pending @ concat chunks @ fut)))"
proof (induction chunks arbitrary: pending w)
  case (Cons c chunks)
  obtain stop out where 1: "writeRewritten app w (pending @ c) rules (keep_of rules) False = Some (Inr (stop, w @ out))"
    "\<forall>fut. subst rules ((pending @ c) @ fut) = out @ subst rules (drop stop (pending @ c) @ fut)"
    using writeRewritten_app [OF assms, of w "pending @ c" False] by fastforce
  obtain out' where 2: "rewrite_reads app rules (keep_of rules) (drop stop (pending @ c)) (w @ out)
      (map (\<lambda>c. (c, ReadOK)) chunks @ (x, ReadErr e) # reads) = Some (Some e, Some ((w @ out) @ out'))"
    "\<forall>fut. prefix out' (subst rules (drop stop (pending @ c) @ concat chunks @ fut))"
    using Cons.IH [of "drop stop (pending @ c)" "w @ out"] by blast
  show ?case using 1 2 by (intro exI [of _ "out @ out'"]) simp
qed simp

lemma rewriteRules_ok: "rules_ok (rewriteRules base route)"
  by (simp add: rewriteRules_def rules_ok_def Let_def sublist_code)

text \<open>C12: The metadata a client receives is the upstream's with every download origin replaced,
  from the left, as if the rules had been applied to the whole body at once: it does not
  depend on how the reads cut the body, and the loops always come to an end. When a read fails,
  its error is returned and what has been written so far is a part of the right answer,
  whatever the rest of the body would have been.\<close>

theorem rewriteStream_is_subst:
  "rewriteStream (\<lambda>w d. Inr (w @ d)) [] (map (\<lambda>c. (c, ReadOK)) chunks @ [(final, ReadEOF)]) (rewriteRules base route) =
     Some (None, Some (subst (rewriteRules base route) (concat chunks @ final))) \<and>
   (\<exists>out. rewriteStream (\<lambda>w d. Inr (w @ d)) [] (map (\<lambda>c. (c, ReadOK)) chunks @ (x, ReadErr e) # reads)
       (rewriteRules base route) = Some (Some e, Some out) \<and>
     (\<forall>fut. prefix out (subst (rewriteRules base route) (concat chunks @ fut))))"
  using rewrite_reads_app [OF rewriteRules_ok, of base route "[]" "[]" chunks final]
    rewrite_reads_error [OF rewriteRules_ok, of base route "[]" "[]" chunks x e reads]
  by (simp add: rewriteStream_def)

end
