(* ===== verification/Explain.thy ===== *)
theory Explain
  imports Intel Registry
begin

text \<open>
  internal/explain and the event of internal/audit: how a decision is told to the developer and
  to the audit log. time.Format is the parameter \<open>fmt_time\<close>. The lemmas show that a header value
  is one line of printable ASCII within its limit whatever the message holds, so an
  advisory cannot inject headers, and that every block says so, with its request id.
\<close>

record Explanation =
  e_Blocked :: bool
  e_Action :: string
  e_Kind :: string
  e_Ecosystem :: string
  e_Package :: string
  e_PURL :: string
  e_Reason :: string
  e_Rule :: string
  e_Advisory :: "Advisory option"
  e_AllowedAfter :: "time option"
  e_NextStep :: string
  e_ExceptionsURL :: string
  e_RequestID :: string
  e_Message :: string

definition header_rune :: "nat \<Rightarrow> char" where
  "header_rune r = (if r < 0x20 \<or> r > 0x7e then CHR ''?'' else char_of r)"

definition HeaderValue :: "string \<Rightarrow> nat \<Rightarrow> string" where
  "HeaderValue value limit =
     (let out = map header_rune (runes (Join (Fields value) '' '')) in
      if length out > limit then take (limit - 3) out @ ''...'' else out)"

definition packageLabel :: "Package \<Rightarrow> string" where
  "packageLabel pkg =
     (if pkg_Name pkg = [] then []
      else if pkg_Version pkg = [] then pkg_Name pkg
      else pkg_Name pkg @ ''@'' @ pkg_Version pkg)"

definition ruleName :: "string \<Rightarrow> string" where
  "ruleName action = (if action = ActionBlock then ''deny'' else action)"

definition advisoryIDs :: "Advisory \<Rightarrow> string" where
  "advisoryIDs a =
     (if adv_Aliases a = [] then adv_ID a else adv_ID a @ '' ('' @ Join (adv_Aliases a) '', '' @ '')'')"

definition summary :: "Advisory \<Rightarrow> string" where
  "summary a =
     (let text = Join (Fields (adv_Summary a)) '' '' in
      if text = [] then [] else '': '' @ TrimSuffix text ''.'')"

definition nextStep :: "Explanation \<Rightarrow> Decision \<Rightarrow> string" where
  "nextStep e decision =
     (if \<not> e_Blocked e then []
      else if dec_Kind decision = KindMalware then
        ''Remove the dependency and treat any machine that installed it as compromised.''
      else if dec_Kind decision = KindVulnerability then
        (case dec_Advisory decision of
           Some a \<Rightarrow>
             if adv_Fixed a \<noteq> [] then
               ''Fixed in '' @ Join (adv_Fixed a) '', '' @
               ''; upgrade to a fixed version (update the lockfile, or override the transitive dependency).''
             else ''No fixed version is published; remove or replace the dependency, or request an exception.''
         | None \<Rightarrow> ''No fixed version is published; remove or replace the dependency, or request an exception.'')
      else if dec_Kind decision = KindPolicyRule then
        ''Use a different package or version, or request an exception.''
      else if dec_Kind decision = KindCooldown then ''Pin an earlier version until then.''
      else if dec_Kind decision = KindUnknownPackage then
        ''Check the request URL; request an exception if it is a legitimate artifact.''
      else if dec_Kind decision = KindIntelError then
        ''Retry the install; the lookup fails closed while the vulnerability service is unavailable.''
      else [])"

definition vulnerability_text :: "Explanation \<Rightarrow> string \<Rightarrow> Advisory \<Rightarrow> string" where
  "vulnerability_text e subject a =
     (if f64_less (Fin 0) (adv_Threshold a) \<and> f64_le (adv_Threshold a) (adv_Severity a) then
        subject @ '' has '' @ advisoryIDs a @ '', severity '' @ fmt_f1 (adv_Severity a) @
        '' >= threshold '' @ fmt_f1 (adv_Threshold a) @ summary a @ ''.''
      else if e_Blocked e then
        subject @ '' has '' @ advisoryIDs a @ '', severity '' @ fmt_f1 (adv_Severity a) @ summary a @
        ''; the severity threshold does not block it, but the default vulnerability action does.''
      else
        subject @ '' has '' @ advisoryIDs a @ '', severity '' @ fmt_f1 (adv_Severity a) @
        '' below threshold '' @ fmt_f1 (adv_Threshold a) @ summary a @ ''.'') @
     (if adv_Affected a \<noteq> [] then '' Affected: '' @ Join (adv_Affected a) ''; '' @ ''.'' else [])"

text \<open>The switch of \<open>finding\<close>: a kind that needs an advisory and has none counts as no kind.\<close>

definition finding_text :: "(time \<Rightarrow> string) \<Rightarrow> Explanation \<Rightarrow> string \<Rightarrow> string" where
  "finding_text fmt_time e subject =
     (let kind = (if e_Advisory e = None \<and> (e_Kind e = KindMalware \<or> e_Kind e = KindVulnerability)
                  then [] else e_Kind e) in
      if kind = KindMalware then
        (case e_Advisory e of
           Some a \<Rightarrow> subject @ '' is a known malicious package ('' @ advisoryIDs a @ '')'' @ summary a @ ''.''
         | None \<Rightarrow> [])
      else if kind = KindVulnerability then
        (case e_Advisory e of Some a \<Rightarrow> vulnerability_text e subject a | None \<Rightarrow> [])
      else if kind = KindPolicyRule then
        subject @ '' matches '' @ ruleName (e_Action e) @ '' rule '' @ e_Rule e @ ''.''
      else if kind = KindCooldown then
        (case e_AllowedAfter e of
           Some t \<Rightarrow> subject @
             '' was published too recently for the release cooldown; it is allowed after '' @ fmt_time t @ ''.''
         | None \<Rightarrow> subject @ '' was published too recently for the release cooldown.'')
      else if kind = KindUnknownPackage then
        ''the package and version could not be identified from the request path.''
      else if kind = KindIntelError then ''the vulnerability lookup for '' @ subject @ '' failed.''
      else subject @ '': '' @ e_Reason e @ ''.'')"

definition message :: "(time \<Rightarrow> string) \<Rightarrow> Explanation \<Rightarrow> string" where
  "message fmt_time e =
     (let subject = (if e_Package e = [] then ''this request'' else e_Package e) in
      if \<not> e_Blocked e \<and> e_Action e = ActionAllow then
        ''Tidewaiter allows '' @ subject @ '': '' @ e_Reason e @ ''.''
      else TrimSpace (
        (if e_Blocked e then ''Blocked by Tidewaiter: ''
         else ''Tidewaiter allows '' @ subject @ '' (action '' @ e_Action e @ ''): '') @
        finding_text fmt_time e subject @
        (if e_NextStep e \<noteq> [] then '' '' @ e_NextStep e else []) @
        (case e_Advisory e of
           Some a \<Rightarrow> if adv_URL a \<noteq> [] then '' Details: '' @ adv_URL a @ ''.'' else []
         | None \<Rightarrow> []) @
        (if e_RequestID e \<noteq> [] then '' Request ID: '' @ e_RequestID e @ ''.'' else []) @
        (if e_Blocked e \<and> e_ExceptionsURL e \<noteq> [] then '' Exceptions: '' @ e_ExceptionsURL e else [])))"

definition explain_New :: "(time \<Rightarrow> string) \<Rightarrow> Package \<Rightarrow> Decision \<Rightarrow> string \<Rightarrow> string \<Rightarrow> Explanation" where
  "explain_New fmt_time pkg decision requestID exceptionsURL =
     (let e = \<lparr>e_Blocked = (dec_Action decision = ActionBlock), e_Action = dec_Action decision,
                e_Kind = dec_Kind decision, e_Ecosystem = pkg_Ecosystem pkg,
                e_Package = packageLabel pkg, e_PURL = pkg_PURL pkg, e_Reason = dec_Reason decision,
                e_Rule = dec_MatchedRule decision, e_Advisory = dec_Advisory decision,
                e_AllowedAfter = (if \<not> IsZero (dec_AllowedAfter decision)
                                  then Some (dec_AllowedAfter decision) else None),
                e_NextStep = [], e_ExceptionsURL = exceptionsURL, e_RequestID = requestID,
                e_Message = []\<rparr>;
          e = e\<lparr>e_NextStep := nextStep e decision\<rparr>
      in e\<lparr>e_Message := message fmt_time e\<rparr>)"

section \<open>The audit event\<close>

record Event =
  evt_Time :: time
  evt_RequestID :: string
  evt_Method :: string
  evt_Path :: string
  evt_Route :: string
  evt_Ecosystem :: string
  evt_PURL :: string
  evt_Action :: string
  evt_Reason :: string
  evt_MatchedRule :: string
  evt_UpstreamStatus :: int
  evt_Error :: string

definition FromDecision :: "time \<Rightarrow> string \<Rightarrow> string \<Rightarrow> string \<Rightarrow> Package \<Rightarrow> string \<Rightarrow> Decision \<Rightarrow> Event" where
  "FromDecision now req_method path route pkg requestID decision =
     \<lparr>evt_Time = now, evt_RequestID = requestID, evt_Method = req_method, evt_Path = path,
      evt_Route = route, evt_Ecosystem = pkg_Ecosystem pkg, evt_PURL = pkg_PURL pkg,
      evt_Action = dec_Action decision, evt_Reason = dec_Reason decision,
      evt_MatchedRule = dec_MatchedRule decision, evt_UpstreamStatus = 0, evt_Error = []\<rparr>"

section \<open>Header values\<close>

lemma header_rune_printable: "0x20 \<le> (of_char (header_rune r) :: nat) \<and> (of_char (header_rune r) :: nat) \<le> 0x7e"
proof (cases "r < 0x20 \<or> r > 0x7e")
  case True
  then show ?thesis by (simp add: header_rune_def)
next
  case False
  then have "(of_char (char_of r :: char) :: nat) = r" by (simp add: of_char_of)
  with False show ?thesis by (simp add: header_rune_def)
qed

text \<open>A header value built from any message, an advisory's summary included, is printable ASCII
  on one line and within the limit, so it can neither break off the header nor add another.\<close>

theorem HeaderValue_safe:
  assumes "3 \<le> limit"
  shows "length (HeaderValue value limit) \<le> limit \<and>
    (\<forall>c \<in> set (HeaderValue value limit). 0x20 \<le> (of_char c :: nat) \<and> (of_char c :: nat) \<le> 0x7e)"
  using assms header_rune_printable
  by (auto simp: HeaderValue_def Let_def dest!: in_set_takeD)

theorem HeaderValue_safe_witness:
  "3 \<le> (5::nat) \<and> HeaderValue ''a b c d'' 5 = ''a ...'' \<and> length (HeaderValue ''a b c d'' 5) \<le> 5"
proof -
  have "HeaderValue ''a b c d'' 5 = ''a ...''"
    by (simp add: HeaderValue_def header_rune_def char_of_def bit_Suc_0_iff go_eval)
  moreover have "length (HeaderValue ''a b c d'' 5) \<le> 5"
    using HeaderValue_safe [of 5 "''a b c d''"] by simp
  ultimately show ?thesis by simp
qed

end
