(* ===== verification/Server.thy ===== *)
theory Server
  imports Explain Config
begin

text \<open>
  internal/server/server.go: routing, authentication, the decision and the two handlers. The
  interfaces the server is given are a record: the intelligence provider with its state, the
  release dates, the module library and time.Format; the proxy is the function \<open>serve\<close>. A
  handler returns what it wrote, whether the proxy was asked, the metrics, the audit events and
  log lines, and whether it aborts the connection. The lemmas show who is served what: nothing
  blocked, nothing unauthorized, and known malware only through an exact allow rule, on a route
  without vulnerability checks, as an unidentified package, or when a release date cannot be found.
\<close>

record Request =
  req_Method :: string
  req_Path :: string
  req_Authorization :: string
  req_RequestID :: string
  req_BasicAuth :: "(string \<times> string) option"
  req_Query :: "string \<Rightarrow> string"

record tokenBucket =
  tb_rate :: rat
  tb_burst :: rat
  tb_tokens :: rat
  tb_last :: time

record Server =
  s_cfg :: Config
  s_policy :: Engine
  s_routes :: "RouteConfig list"
  s_bearer :: string
  s_basicUser :: string
  s_basicPass :: string
  s_authReady :: bool

record 'i deps =
  dep_query :: "Package \<Rightarrow> 'i \<Rightarrow> (string + Result) \<times> 'i"
  dep_published :: "Route \<Rightarrow> RequestInfo \<Rightarrow> string + time"
  dep_module :: module_lib
  dep_fmt_time :: "time \<Rightarrow> string"
  dep_parse_url :: "string \<Rightarrow> string + string"

section \<open>Construction, credentials and routes\<close>

definition authMetricsRoute :: string where "authMetricsRoute = ''__auth__''"
definition unmatchedMetricsRoute :: string where "unmatchedMetricsRoute = ''__unmatched__''"

definition secretFromEnv :: "environ \<Rightarrow> string \<Rightarrow> string \<times> bool" where
  "secretFromEnv env name =
     (if name = [] then ([], True)
      else case env name of
        None \<Rightarrow> ([], False)
      | Some value \<Rightarrow> if value = [] then ([], False) else (value, True))"

text \<open>sort.Slice is not stable; here equal lengths keep their order. Two different prefixes of
  the same length never match the same path.\<close>

definition server_New :: "environ \<Rightarrow> Config \<Rightarrow> Engine \<Rightarrow> Server" where
  "server_New env cfg engine =
     (let (bearer, bearerOK) = secretFromEnv env (auth_BearerTokenEnv (cfg_Auth cfg));
          (basicUser, basicUserOK) = secretFromEnv env (auth_BasicUsernameEnv (cfg_Auth cfg));
          (basicPass, basicPassOK) = secretFromEnv env (auth_BasicPasswordEnv (cfg_Auth cfg))
      in \<lparr>s_cfg = cfg, s_policy = engine,
          s_routes = sort_key (\<lambda>r. - int (length (rc_PathPrefix r))) (cfg_Routes cfg),
          s_bearer = bearer, s_basicUser = basicUser, s_basicPass = basicPass,
          s_authReady = (bearerOK \<and> basicUserOK \<and> basicPassOK)\<rparr>)"

definition constantTimeEqual :: "string \<Rightarrow> string \<Rightarrow> bool" where
  "constantTimeEqual a b \<longleftrightarrow> a = b"

definition authorized :: "Server \<Rightarrow> Request \<Rightarrow> bool" where
  "authorized s r =
     (if \<not> s_authReady s then False
      else if s_bearer s = [] \<and> s_basicUser s = [] \<and> s_basicPass s = [] then True
      else if s_bearer s \<noteq> [] \<and> HasPrefix (req_Authorization r) ''Bearer '' \<and>
              constantTimeEqual (TrimPrefix (req_Authorization r) ''Bearer '') (s_bearer s) then True
      else if s_basicUser s \<noteq> [] \<or> s_basicPass s \<noteq> [] then
        (case req_BasicAuth r of
           Some (user, pass) \<Rightarrow> constantTimeEqual user (s_basicUser s) \<and> constantTimeEqual pass (s_basicPass s)
         | None \<Rightarrow> False)
      else False)"

definition addAuthenticationChallenges :: "Server \<Rightarrow> (string \<times> string) list" where
  "addAuthenticationChallenges s =
     (let a = cfg_Auth (s_cfg s) in
      (if auth_BasicUsernameEnv a \<noteq> [] \<or> auth_BasicPasswordEnv a \<noteq> []
       then [(''WWW-Authenticate'', ''Basic realm=\"package-firewall\"'')] else []) @
      (if auth_BearerTokenEnv a \<noteq> [] then [(''WWW-Authenticate'', ''Bearer realm=\"package-firewall\"'')] else []))"

definition matchRoute :: "Server \<Rightarrow> string \<Rightarrow> RouteConfig option" where
  "matchRoute s path = find (\<lambda>route. HasPrefix path (rc_PathPrefix route)) (s_routes s)"

definition matchNPMTarballFallback :: "Server \<Rightarrow> string \<Rightarrow> RouteConfig option" where
  "matchNPMTarballFallback s path =
     (if \<not> Contains path ''/-/'' \<or> \<not> HasSuffix path ''.tgz'' then None
      else map_option (\<lambda>route. route\<lparr>rc_PathPrefix := ''/''\<rparr>)
             (find (\<lambda>route. rc_Ecosystem route = ''npm'') (s_routes s)))"

definition routed :: "Server \<Rightarrow> string \<Rightarrow> RouteConfig option" where
  "routed s path = (case matchRoute s path of Some r \<Rightarrow> Some r | None \<Rightarrow> matchNPMTarballFallback s path)"

definition toRegistryRoute :: "RouteConfig \<Rightarrow> Route" where
  "toRegistryRoute route =
     \<lparr>route_Name = rc_Name route, route_Ecosystem = rc_Ecosystem route,
      route_PathPrefix = rc_PathPrefix route, route_UpstreamURL = rc_UpstreamURL route,
      route_FileUpstreamURL = rc_FileUpstreamURL route, route_UpstreamTokenEnv = rc_UpstreamTokenEnv route\<rparr>"

definition routeForEcosystem :: "Server \<Rightarrow> string \<Rightarrow> RouteConfig option" where
  "routeForEcosystem s ecosystem = find (\<lambda>route. rc_Ecosystem route = ecosystem) (cfg_Routes (s_cfg s))"

section \<open>The decision\<close>

definition lookupFailed :: "Server \<Rightarrow> string \<Rightarrow> string \<Rightarrow> Decision" where
  "lookupFailed s what err =
     (if dcf_FailOpenIntelErrors (cfg_Decision (s_cfg s)) then
        plainDecision ActionWarn (what @ '' error allowed by fail_open_intel_errors: '' @ err) KindIntelError
      else
        plainDecision ActionBlock (what @ '' error blocked by fail_open_intel_errors=false: '' @ err) KindIntelError)"

definition threshold :: "Server \<Rightarrow> float64" where
  "threshold s = dcf_VulnerabilityBlockThreshold (cfg_Decision (s_cfg s))"

definition ruleDecision :: "'i deps \<Rightarrow> Server \<Rightarrow> RequestInfo \<Rightarrow> Decision \<Rightarrow> 'i \<Rightarrow> Decision \<times> 'i" where
  "ruleDecision d s info ruled st =
     (if ExemptsMalware ruled \<or> ri_SkipVulnerabilityCheck info then (ruled, st)
      else case dep_query d (ri_Package info) st of
        (Inl err, st) \<Rightarrow> (lookupFailed s ''intel'' err, st)
      | (Inr result, st) \<Rightarrow>
          (case MalwareDecision result (threshold s) of
             Some malware \<Rightarrow> (malware, st)
           | None \<Rightarrow> (ruled, st)))"

definition intel_step :: "'i deps \<Rightarrow> Server \<Rightarrow> RequestInfo \<Rightarrow> 'i \<Rightarrow> Decision \<times> 'i" where
  "intel_step d s info st =
     (case dep_query d (ri_Package info) st of
        (Inl err, st) \<Rightarrow> (lookupFailed s ''intel'' err, st)
      | (Inr result, st) \<Rightarrow>
          (let decision = Decide result (dcf_DefaultVulnerabilityAction (cfg_Decision (s_cfg s))) (threshold s) in
           if dec_Action decision = ActionAllow
           then (plainDecision ActionAllow ''policy and intel allowed package'' [], st)
           else (decision, st)))"

text \<open>The switch on the policy decision and what follows it.\<close>

definition after_policy :: "'i deps \<Rightarrow> Server \<Rightarrow> RequestInfo \<Rightarrow> Decision \<Rightarrow> 'i \<Rightarrow> Decision \<times> 'i" where
  "after_policy d s info policyDecision st =
     (if dec_Action policyDecision = ActionBlock then (policyDecision, st)
      else if dec_Action policyDecision \<in> set [ActionWarn, ActionMonitor, ActionAllow]
              \<and> dec_MatchedRule policyDecision \<noteq> [] then
        ruleDecision d s info policyDecision st
      else if dec_Action policyDecision = ActionUnknown then
        (if dcf_FailOpenUnknownPackage (cfg_Decision (s_cfg s)) then
           (plainDecision ActionWarn ''unknown package allowed by fail_open_unknown_package'' KindUnknownPackage, st)
         else
           (plainDecision ActionBlock ''unknown package blocked by fail_open_unknown_package=false''
              KindUnknownPackage, st))
      else if ri_SkipVulnerabilityCheck info then
        (plainDecision ActionAllow ''metadata request allowed after policy evaluation'' [], st)
      else intel_step d s info st)"

definition decide :: "'i deps \<Rightarrow> Server \<Rightarrow> time \<Rightarrow> time \<Rightarrow> RouteConfig \<Rightarrow> RequestInfo \<Rightarrow> 'i \<Rightarrow> Decision \<times> 'i" where
  "decide d s now now' route info st =
     (if \<not> ri_NeedsDecision info then (plainDecision ActionAllow ''metadata request'' [], st)
      else
        let policyDecision = Evaluate (s_policy s) now (ri_Package info) in
        if dec_Action policyDecision = ActionAllow \<and> dec_MatchedRule policyDecision = []
           \<and> CooldownEnabled (s_policy s) \<and> IsZero (pkg_PublishedAt (ri_Package info)) then
          (case dep_published d (toRegistryRoute route) info of
             Inl err \<Rightarrow> (lookupFailed s ''release date'' err, st)
           | Inr published \<Rightarrow>
               let info = info\<lparr>ri_Package := (ri_Package info)\<lparr>pkg_PublishedAt := published\<rparr>\<rparr>
               in after_policy d s info (Evaluate (s_policy s) now' (ri_Package info)) st)
        else after_policy d s info policyDecision st)"

section \<open>Answers\<close>

datatype body = ErrorBody string string string | BlockedBody Explanation | ExplainBody Explanation
  | TextBody string

record response =
  rsp_Status :: int
  rsp_Header :: "(string \<times> string) list"
  rsp_Body :: body

record proxy_error =
  pe_Text :: string
  pe_Canceled :: bool
  pe_QueueTimeout :: bool
  pe_Timeout :: bool

text \<open>What proxy.Serve returns: the status it sent (0 when it sent none), its error, and whether the
  request's context has ended by then.\<close>

record served =
  so_Status :: int
  so_Err :: "proxy_error option"
  so_ClientGone :: bool

record outcome =
  oc_Response :: "response option"
  oc_Served :: bool
  oc_Metrics :: "(string \<times> int) list"
  oc_Audit :: "Event list"
  oc_Log :: "string list"
  oc_Abort :: bool

definition wrote :: "response \<Rightarrow> outcome" where
  "wrote rsp = \<lparr>oc_Response = Some rsp, oc_Served = False, oc_Metrics = [], oc_Audit = [],
     oc_Log = [], oc_Abort = False\<rparr>"

definition writeJSON :: "(string \<times> string) list \<Rightarrow> int \<Rightarrow> body \<Rightarrow> response" where
  "writeJSON hdr status b =
     \<lparr>rsp_Status = status, rsp_Header = hdr @ [(''Content-Type'', ''application/json'')], rsp_Body = b\<rparr>"

definition requestID :: "Request \<Rightarrow> time \<Rightarrow> string" where
  "requestID r now = (if req_RequestID r \<noteq> [] then req_RequestID r else FormatInt now)"

definition upstreamErrorResponse :: "proxy_error \<Rightarrow> int \<times> string \<times> string" where
  "upstreamErrorResponse err =
     (if pe_QueueTimeout err then (503, ''upstream_busy'', ''upstream request queue is full'')
      else if pe_Timeout err then (504, ''upstream_timeout'', ''upstream request timed out'')
      else (502, ''upstream_error'', ''upstream request failed''))"

definition proxyErrorStatus :: "proxy_error \<Rightarrow> int" where
  "proxyErrorStatus err = (if pe_Canceled err then 499 else fst (upstreamErrorResponse err))"

definition maxBlockHeaderBytes :: nat where "maxBlockHeaderBytes = 1024"

definition writeBlocked :: "(string \<times> string) list \<Rightarrow> Explanation \<Rightarrow> response" where
  "writeBlocked hdr e =
     writeJSON (hdr @ [(''X-Package-Firewall-Reason'', HeaderValue (e_Message e) maxBlockHeaderBytes),
                       (''X-Package-Firewall-Request-Id'', e_RequestID e)] @
                (case e_Advisory e of
                   Some a \<Rightarrow> [(''X-Package-Firewall-Advisory'',
                     HeaderValue (Join (adv_ID a # adv_Aliases a) '','') maxBlockHeaderBytes)]
                 | None \<Rightarrow> []))
       403 (BlockedBody e)"

definition unauthorized :: "Server \<Rightarrow> string \<Rightarrow> response" where
  "unauthorized s rid =
     writeJSON ((''X-Request-ID'', rid) # addAuthenticationChallenges s) 401
       (ErrorBody ''unauthorized'' ''missing or invalid Tidewaiter credentials'' rid)"

text \<open>What follows a call of the proxy.\<close>

definition after_serve :: "string \<Rightarrow> RouteConfig \<Rightarrow> Event \<Rightarrow> served \<Rightarrow> outcome" where
  "after_serve rid route event so =
     (case so_Err so of
        None \<Rightarrow>
          \<lparr>oc_Response = None, oc_Served = True, oc_Metrics = [(rc_Name route, so_Status so)],
           oc_Audit = [event\<lparr>evt_UpstreamStatus := so_Status so\<rparr>], oc_Log = [], oc_Abort = False\<rparr>
      | Some err \<Rightarrow>
          let (status, code, msg) = upstreamErrorResponse err;
              answered = (so_Status so = 0 \<and> \<not> pe_Canceled err);
              upstreamStatus = (if answered then status else so_Status so)
          in \<lparr>oc_Response = (if answered then
                Some (writeJSON [(''X-Request-ID'', rid)] status (ErrorBody code msg rid)) else None),
              oc_Served = True, oc_Metrics = [(rc_Name route, proxyErrorStatus err)],
              oc_Audit = [event\<lparr>evt_Error := pe_Text err,
                evt_UpstreamStatus := (if upstreamStatus = 0 then 499 else upstreamStatus)\<rparr>],
              oc_Log = [if pe_Canceled err \<and> so_ClientGone so then ''proxy_client_disconnected''
                        else ''proxy_failed''],
              oc_Abort = (so_Status so \<noteq> 0)\<rparr>)"

definition handle :: "'i deps \<Rightarrow> Server \<Rightarrow> (Request \<Rightarrow> RouteConfig \<Rightarrow> RequestInfo \<Rightarrow> served)
    \<Rightarrow> time \<Rightarrow> time \<Rightarrow> Request \<Rightarrow> 'i \<Rightarrow> outcome \<times> 'i" where
  "handle d s serve now now' r st =
     (let rid = requestID r now; hdr = [(''X-Request-ID'', rid)] in
      case routed s (req_Path r) of
        None \<Rightarrow>
          if \<not> authorized s r then
            ((wrote (unauthorized s rid))\<lparr>oc_Metrics := [(authMetricsRoute, 401)]\<rparr>, st)
          else
            ((wrote (writeJSON hdr 404 (ErrorBody ''not_found'' ''no Tidewaiter route matched this path'' rid)))
               \<lparr>oc_Metrics := [(unmatchedMetricsRoute, 404)]\<rparr>, st)
      | Some route \<Rightarrow>
          if \<not> rc_AllowAnonymous route \<and> \<not> authorized s r then
            ((wrote (unauthorized s rid))\<lparr>oc_Metrics := [(authMetricsRoute, 401)]\<rparr>, st)
          else
            let info = Identify (dep_module d) (toRegistryRoute route) (req_Path r);
                (decision, st) = decide d s now now' route info st;
                event = FromDecision now' (req_Method r) (req_Path r) (rc_Name route) (ri_Package info) rid decision
            in if dec_Action decision = ActionBlock then
                 ((wrote (writeBlocked hdr (explain_New (dep_fmt_time d) (ri_Package info) decision rid
                     (dcf_ExceptionsURL (cfg_Decision (s_cfg s))))))
                    \<lparr>oc_Metrics := [(rc_Name route, 403)], oc_Audit := [event]\<rparr>, st)
               else (after_serve rid route event (serve r route info), st))"

section \<open>Explaining\<close>

text \<open>The explain limiter computes with floats; \<open>rnd\<close> is the rounding of an operation's result.\<close>

definition newTokenBucket :: "rat \<Rightarrow> rat \<Rightarrow> time \<Rightarrow> tokenBucket" where
  "newTokenBucket rate burst now = \<lparr>tb_rate = rate, tb_burst = burst, tb_tokens = burst, tb_last = now\<rparr>"

definition explainRatePerSecond :: rat where "explainRatePerSecond = 10"
definition explainBurst :: rat where "explainBurst = 50"

definition bucket_allow :: "(rat \<Rightarrow> rat) \<Rightarrow> time \<Rightarrow> tokenBucket \<Rightarrow> bool \<times> tokenBucket" where
  "bucket_allow rnd now b =
     (let seconds = rnd (of_int (time_Sub now (tb_last b)) / 1000000000);
          tokens = min (tb_burst b) (rnd (tb_tokens b + rnd (seconds * tb_rate b)))
      in if tokens < 1 then (False, b\<lparr>tb_tokens := tokens, tb_last := now\<rparr>)
         else (True, b\<lparr>tb_tokens := rnd (tokens - 1), tb_last := now\<rparr>))"

datatype target_error = BadPURL purl_error | NoTarget | BadURL string | NoRouteForURL

definition emptyRoute :: RouteConfig where
  "emptyRoute = plainRoute [] [] [] [] []"

definition explainTarget :: "'i deps \<Rightarrow> Server \<Rightarrow> (string \<Rightarrow> string)
    \<Rightarrow> target_error + RouteConfig \<times> RequestInfo \<times> bool" where
  "explainTarget d s query =
     (if query ''purl'' \<noteq> [] then
        (case PackageFromPURL (query ''purl'') of
           Inl err \<Rightarrow> Inl (BadPURL err)
         | Inr pkg \<Rightarrow>
             let route = (case routeForEcosystem s (pkg_Ecosystem pkg) of Some r \<Rightarrow> r | None \<Rightarrow> emptyRoute)
             in Inr (route, (metadataInfo [])\<lparr>ri_Package := pkg, ri_Kind := ''artifact'',
                  ri_NeedsDecision := True\<rparr>, False))
      else if query ''url'' = [] then Inl NoTarget
      else case dep_parse_url d (query ''url'') of
        Inl err \<Rightarrow> Inl (BadURL err)
      | Inr path \<Rightarrow>
          (case routed s path of
             None \<Rightarrow> Inl NoRouteForURL
           | Some route \<Rightarrow>
               Inr (route, Identify (dep_module d) (toRegistryRoute route) path, rc_AllowAnonymous route)))"

definition handleExplain :: "(target_error \<Rightarrow> string) \<Rightarrow> (rat \<Rightarrow> rat) \<Rightarrow> 'i deps \<Rightarrow> Server
    \<Rightarrow> time \<Rightarrow> time \<Rightarrow> Request \<Rightarrow> tokenBucket \<Rightarrow> 'i \<Rightarrow> response \<times> tokenBucket \<times> 'i" where
  "handleExplain err_text rnd d s now now' r bucket st =
     (let rid = requestID r now; hdr = [(''X-Request-ID'', rid)];
          target = explainTarget d s (req_Query r);
          anonymous = (case target of Inr (_, _, a) \<Rightarrow> a | Inl _ \<Rightarrow> False)
      in if \<not> anonymous \<and> \<not> authorized s r then (unauthorized s rid, bucket, st)
         else if req_Method r \<noteq> ''GET'' \<and> req_Method r \<noteq> ''HEAD'' then
           (writeJSON hdr 405 (ErrorBody ''method_not_allowed'' ''use GET'' rid), bucket, st)
         else
           let (ok, bucket) = bucket_allow rnd now bucket in
           if \<not> ok then
             (writeJSON (hdr @ [(''Retry-After'', ''1'')]) 429
                (ErrorBody ''rate_limited'' ''too many explain requests'' rid), bucket, st)
           else case target of
             Inl err \<Rightarrow> (writeJSON hdr 400 (ErrorBody ''bad_request'' (err_text err) rid), bucket, st)
           | Inr (route, info, _) \<Rightarrow>
               if \<not> ri_NeedsDecision info then
                 (writeJSON hdr 400 (ErrorBody ''not_an_artifact''
                    ''the URL is registry metadata, which the firewall does not block'' rid), bucket, st)
               else
                 let (decision, st) = decide d s now now' route info st;
                     e = explain_New (dep_fmt_time d) (ri_Package info) decision rid
                           (dcf_ExceptionsURL (cfg_Decision (s_cfg s)))
                 in if req_Query r ''format'' = ''text'' then
                      (\<lparr>rsp_Status = 200,
                        rsp_Header = hdr @ [(''Content-Type'', ''text/plain; charset=utf-8'')],
                        rsp_Body = TextBody (e_Message e @ [CHR 0x0A])\<rparr>, bucket, st)
                    else (writeJSON hdr 200 (ExplainBody e), bucket, st))"

section \<open>Routing and credentials\<close>

lemma find_sorted_longest:
  assumes "sorted_wrt (\<lambda>a b. f b \<le> f a) xs" and "find P xs = Some x" and "y \<in> set xs" and "P y"
  shows "(f y :: nat) \<le> f x"
  using assms
proof (induction xs)
  case (Cons z zs)
  then show ?case by (cases "P z") (auto split: if_splits)
qed simp

lemma routes_sorted: "sorted_wrt (\<lambda>a b. length (rc_PathPrefix b) \<le> length (rc_PathPrefix a))
  (s_routes (server_New env cfg engine))"
proof -
  have "sorted (map (\<lambda>r. - int (length (rc_PathPrefix r))) (s_routes (server_New env cfg engine)))"
    by (simp add: server_New_def case_prod_beta Let_def)
  then show ?thesis by (simp add: sorted_map)
qed

lemma routes_set: "set (s_routes (server_New env cfg engine)) = set (cfg_Routes cfg)"
  by (simp add: server_New_def case_prod_beta Let_def)

text \<open>A path is served by the configured route with the longest matching prefix, and there is
  one whenever some configured prefix matches.\<close>

theorem matchRoute_longest:
  "case matchRoute (server_New env cfg engine) path of
     None \<Rightarrow> filter (\<lambda>q. HasPrefix path (rc_PathPrefix q)) (cfg_Routes cfg) = []
   | Some r \<Rightarrow> r \<in> set (filter (\<lambda>q. HasPrefix path (rc_PathPrefix q)) (cfg_Routes cfg)) \<and>
       list_all (\<lambda>q. length (rc_PathPrefix q) \<le> length (rc_PathPrefix r))
         (filter (\<lambda>q. HasPrefix path (rc_PathPrefix q)) (cfg_Routes cfg))"
proof (cases "matchRoute (server_New env cfg engine) path")
  case None
  then have "filter (\<lambda>q. HasPrefix path (rc_PathPrefix q)) (cfg_Routes cfg) = []"
    by (auto simp: matchRoute_def find_None_iff routes_set filter_empty_conv)
  with None show ?thesis by simp
next
  case (Some r)
  then have "r \<in> set (s_routes (server_New env cfg engine))" "HasPrefix path (rc_PathPrefix r)"
    by (auto simp: matchRoute_def find_Some_iff)
  moreover have "length (rc_PathPrefix q) \<le> length (rc_PathPrefix r)"
    if "q \<in> set (cfg_Routes cfg)" "HasPrefix path (rc_PathPrefix q)" for q
    using find_sorted_longest [OF routes_sorted Some [unfolded matchRoute_def]] that routes_set by blast
  ultimately show ?thesis using Some by (auto simp: list_all_iff routes_set)
qed

lemma authorized_iff:
  "authorized s r \<longleftrightarrow> s_authReady s \<and>
     (s_bearer s = [] \<and> s_basicUser s = [] \<and> s_basicPass s = [] \<or>
      s_bearer s \<noteq> [] \<and> req_Authorization r = ''Bearer '' @ s_bearer s \<or>
      (s_basicUser s \<noteq> [] \<or> s_basicPass s \<noteq> []) \<and> req_BasicAuth r = Some (s_basicUser s, s_basicPass s))"
proof -
  have "HasPrefix a p \<and> TrimPrefix a p = b \<longleftrightarrow> a = p @ b" for a p b
    by (auto simp: HasPrefix_iff)
  then show ?thesis
    by (auto simp: authorized_def constantTimeEqual_def split: option.split)
qed

section \<open>Who is served what\<close>

lemma Action_neq [simp]:
  "ActionAllow \<noteq> ActionBlock" "ActionWarn \<noteq> ActionBlock" "ActionUnknown \<noteq> ActionBlock"
  "ActionBlock \<noteq> ActionAllow" "ActionBlock \<noteq> ActionWarn" "ActionUnknown \<noteq> ActionAllow"
  "ActionUnknown \<noteq> ActionWarn" "ActionMonitor \<noteq> ActionBlock" "ActionUnknown \<noteq> ActionMonitor"
  "ActionAllow \<noteq> ActionUnknown" "ActionWarn \<noteq> ActionUnknown" "ActionBlock \<noteq> ActionUnknown"
  by (simp_all add: Action_defs)

lemma lookupFailed_action:
  "dec_Action (lookupFailed s what err) =
     (if dcf_FailOpenIntelErrors (cfg_Decision (s_cfg s)) then ActionWarn else ActionBlock)"
  by (simp add: lookupFailed_def)

lemma intel_step_malware:
  assumes "dep_query d (ri_Package info) st = (Inr result, st')" and "\<exists>f \<in> set (res_Findings result). malicious f"
  shows "dec_Action (fst (intel_step d s info st)) = ActionBlock"
proof -
  let ?d = "dcf_DefaultVulnerabilityAction (cfg_Decision (s_cfg s))"
  from assms(2) obtain f where f: "f \<in> set (res_Findings result)" "malicious f" by blast
  have "dec_Action (Decide result ?d (threshold s)) = ActionBlock"
    using Decide_malware [OF f, of ?d "threshold s"] by auto
  then show ?thesis using assms(1) by (simp add: intel_step_def Let_def)
qed

lemma ruleDecision_malware:
  assumes "dep_query d (ri_Package info) st = (Inr result, st')" and "\<exists>f \<in> set (res_Findings result). malicious f"
    and "\<not> ri_SkipVulnerabilityCheck info" and "\<not> ExemptsMalware ruled"
  shows "dec_Action (fst (ruleDecision d s info ruled st)) = ActionBlock"
proof -
  obtain m where m: "MalwareDecision result (threshold s) = Some m"
    using assms(2) MalwareDecision_None_iff [of result "threshold s"] by auto
  then have "dec_Action m = ActionBlock"
    by (auto simp: MalwareDecision_def split: option.splits)
  with m assms show ?thesis by (simp add: ruleDecision_def)
qed

lemma after_policy_malware:
  assumes "dep_query d (ri_Package info) st = (Inr result, st')" and "\<exists>f \<in> set (res_Findings result). malicious f"
    and "\<not> ri_SkipVulnerabilityCheck info" and "dec_Action pd \<noteq> ActionUnknown" and "\<not> ExemptsMalware pd"
  shows "dec_Action (fst (after_policy d s info pd st)) = ActionBlock"
  using intel_step_malware [OF assms(1,2), of s] ruleDecision_malware [OF assms(1,2,3,5), of s] assms(3,4)
  by (simp add: after_policy_def)

lemma Evaluate_known:
  assumes "pkg_PURL pkg \<noteq> []"
  shows "dec_Action (Evaluate (fst (policy_New pc)) now pkg) \<noteq> ActionUnknown"
  using refl [of "Evaluate (fst (policy_New pc)) now pkg"]
  by (cases rule: Evaluate_cases) (use assms in auto)

lemma decide_blocks_malware:
  assumes "s_policy s = fst (policy_New pc)" and "ri_NeedsDecision info"
    and "\<not> ri_SkipVulnerabilityCheck info" and "pkg_PURL (ri_Package info) \<noteq> []"
    and "\<And>t. \<exists>st'. dep_query d ((ri_Package info)\<lparr>pkg_PublishedAt := t\<rparr>) st = (Inr result, st')"
    and "\<exists>f \<in> set (res_Findings result). malicious f"
    and "\<And>n t. \<not> ExemptsMalware (Evaluate (s_policy s) n ((ri_Package info)\<lparr>pkg_PublishedAt := t\<rparr>))"
    and "\<not> dcf_FailOpenIntelErrors (cfg_Decision (s_cfg s)) \<or>
      (\<exists>t. dep_published d (toRegistryRoute route) info = Inr t) \<or> \<not> CooldownEnabled (s_policy s)"
  shows "dec_Action (fst (decide d s now now' route info st)) = ActionBlock"
proof -
  let ?at = "\<lambda>t. info\<lparr>ri_Package := (ri_Package info)\<lparr>pkg_PublishedAt := t\<rparr>\<rparr>"
  have block: "dec_Action (fst (after_policy d s (?at t) (Evaluate (s_policy s) n (ri_Package (?at t))) st)) = ActionBlock" for t n
  proof -
    obtain st' where "dep_query d (ri_Package (?at t)) st = (Inr result, st')" using assms(5) [of t] by auto
    moreover have "dec_Action (Evaluate (s_policy s) n (ri_Package (?at t))) \<noteq> ActionUnknown"
      using assms(1,4) by (simp add: Evaluate_known)
    ultimately show ?thesis
      using assms(3,7) by (intro after_policy_malware [OF _ assms(6)]) simp_all
  qed
  have same: "?at (pkg_PublishedAt (ri_Package info)) = info" by simp
  have now: "dec_Action (fst (after_policy d s info (Evaluate (s_policy s) now (ri_Package info)) st)) = ActionBlock"
    using block [of "pkg_PublishedAt (ri_Package info)" now] unfolding same .
  show ?thesis
    using assms(2,8) now block by (auto simp: decide_def Let_def lookupFailed_action split: sum.split)
qed


text \<open>A server with the default configuration and one wildcard allow rule, whose vulnerability service
  reports malware for everything and whose registries give no release date.\<close>

definition example_deps :: "string \<Rightarrow> unit deps" where
  "example_deps finding_id =
     \<lparr>dep_query = \<lambda>_ st. (Inr \<lparr>res_Findings = [example_finding finding_id 0]\<rparr>, st),
      dep_published = \<lambda>_ _. Inl ''no release date'', dep_module = example_module_lib,
      dep_fmt_time = \<lambda>_. [], dep_parse_url = \<lambda>u. Inr u\<rparr>"

definition example_server :: "string list \<Rightarrow> bool \<Rightarrow> Server" where
  "example_server allowed cooldown =
     server_New Map.empty Default (fst (policy_New (emptyConfig\<lparr>pc_Allow := allowed,
       pc_Cooldown := \<lparr>cd_Enabled = cooldown, cd_MinAge = 0\<rparr>\<rparr>)))"

definition example_info :: RequestInfo where
  "example_info = (metadataInfo [])\<lparr>ri_Kind := ''artifact'', ri_NeedsDecision := True,
     ri_Package := purl_package ''npm'' ''a'' ''a'' ''1''\<rparr>"

lemma example_malware: "\<exists>f \<in> set (res_Findings \<lparr>res_Findings = [example_finding ''MAL-1'' 0]\<rparr>). malicious f"
  by (simp add: example_finding_def malicious_def malAlias_def HasPrefix_def)

lemma example_server_sel: "s_cfg (example_server al cd) = Default"
  "s_policy (example_server al cd) = fst (policy_New (emptyConfig\<lparr>pc_Allow := al,
     pc_Cooldown := \<lparr>cd_Enabled = cd, cd_MinAge = 0\<rparr>\<rparr>))"
  by (simp_all add: example_server_def server_New_def case_prod_beta Let_def)

lemma example_cooldown: "CooldownEnabled (s_policy (example_server al cd)) = cd"
  by (simp add: example_server_sel(2) CooldownEnabled_def policy_New_def case_prod_beta Let_def)

lemma example_info_sel: "pkg_PURL (ri_Package example_info) = ''pkg:npm/a@1''" "ri_NeedsDecision example_info"
  "\<not> ri_SkipVulnerabilityCheck example_info" "pkg_PublishedAt (ri_Package example_info) = 0"
  by (simp_all add: example_info_def purl_package_def purl_def)


text \<open>C25: When the cooldown is enabled, no rule matches and the release date of the package
  cannot be looked up, a server that fails open on lookup errors lets the package through
  without asking the vulnerability service at all, known malware included.\<close>

theorem release_lookup_failure_skips_malware_check:
  assumes "ri_NeedsDecision info" and "CooldownEnabled (s_policy s)" and "IsZero (pkg_PublishedAt (ri_Package info))"
    and "dec_Action (Evaluate (s_policy s) now (ri_Package info)) = ActionAllow"
    and "dec_MatchedRule (Evaluate (s_policy s) now (ri_Package info)) = []"
    and "dep_published d (toRegistryRoute route) info = Inl err"
    and "dcf_FailOpenIntelErrors (cfg_Decision (s_cfg s))"
  shows "dec_Action (fst (decide d s now now' route info st)) = ActionWarn \<and>
    decide (d\<lparr>dep_query := q\<rparr>) s now now' route info st = decide d s now now' route info st"
  using assms by (simp add: decide_def lookupFailed_def)

theorem release_lookup_failure_skips_malware_check_witness:
  "(\<exists>f \<in> set (res_Findings \<lparr>res_Findings = [example_finding ''MAL-1'' 0]\<rparr>). malicious f) \<and>
   dec_Action (fst (decide (example_deps ''MAL-1'') (example_server [] True) 0 0 emptyRoute example_info ())) = ActionWarn"
proof -
  let ?s = "example_server [] True"
  have e: "Evaluate (s_policy ?s) 0 (ri_Package example_info) = plainDecision ActionAllow ''no policy rule matched'' []"
    by (simp add: example_server_sel Evaluate_policy_New evaluate_spec_def emptyConfig_def example_info_sel
        IsZero_def)
  have "dec_Action (fst (decide (example_deps ''MAL-1'') ?s 0 0 emptyRoute example_info ())) = ActionWarn"
    by (rule release_lookup_failure_skips_malware_check [THEN conjunct1])
      (simp_all add: e example_info_sel IsZero_def example_deps_def example_server_sel(1) example_cooldown
        Default_def)
  with example_malware show ?thesis by blast
qed

section \<open>The handlers\<close>

lemma handle_cases:
  obtains (unauthorized) "\<not> authorized s r" "\<And>route. routed s (req_Path r) = Some route \<Longrightarrow> \<not> rc_AllowAnonymous route"
      "handle d s serve now now' r st =
         ((wrote (unauthorized s (requestID r now)))\<lparr>oc_Metrics := [(authMetricsRoute, 401)]\<rparr>, st)"
  | (unmatched) "authorized s r" "routed s (req_Path r) = None"
      "fst (handle d s serve now now' r st) = (wrote (writeJSON [(''X-Request-ID'', requestID r now)] 404
         (ErrorBody ''not_found'' ''no Tidewaiter route matched this path'' (requestID r now))))
           \<lparr>oc_Metrics := [(unmatchedMetricsRoute, 404)]\<rparr>" "snd (handle d s serve now now' r st) = st"
  | (decided) route info decision st' event where "routed s (req_Path r) = Some route"
      "rc_AllowAnonymous route \<or> authorized s r"
      "info = Identify (dep_module d) (toRegistryRoute route) (req_Path r)"
      "decide d s now now' route info st = (decision, st')"
      "event = FromDecision now' (req_Method r) (req_Path r) (rc_Name route) (ri_Package info) (requestID r now) decision"
      "handle d s serve now now' r st =
        (if dec_Action decision = ActionBlock then
           (wrote (writeBlocked [(''X-Request-ID'', requestID r now)]
              (explain_New (dep_fmt_time d) (ri_Package info) decision (requestID r now)
                 (dcf_ExceptionsURL (cfg_Decision (s_cfg s))))))
             \<lparr>oc_Metrics := [(rc_Name route, 403)], oc_Audit := [event]\<rparr>
         else after_serve (requestID r now) route event (serve r route info), st')"
proof (cases "routed s (req_Path r)")
  case None
  show ?thesis
  proof (cases "authorized s r")
    case True
    with None show ?thesis by (intro that(2)) (simp_all add: handle_def Let_def)
  next
    case False
    with None show ?thesis by (intro that(1)) (simp_all add: handle_def Let_def)
  qed
next
  case (Some route)
  show ?thesis
  proof (cases "rc_AllowAnonymous route \<or> authorized s r")
    case False
    with Some show ?thesis by (intro that(1)) (simp_all add: handle_def Let_def)
  next
    case True
    obtain decision st' where "decide d s now now' route
        (Identify (dep_module d) (toRegistryRoute route) (req_Path r)) st = (decision, st')"
      by fastforce
    with Some True show ?thesis
      by (intro that(3) [OF Some True refl _ refl]) (auto simp: handle_def Let_def)
  qed
qed

lemma after_serve_served: "oc_Served (after_serve rid route event so)"
  by (simp add: after_serve_def Let_def case_prod_beta split: option.split)

text \<open>C4: The proxy is asked, and so a byte of the upstream reaches the client, exactly when a
  route matches, the request is authorized or the route anonymous, and the decision is not to
  block. A blocked request is answered with 403 and one audit event that records the block.\<close>

theorem served_iff_decided:
  "(oc_Served (fst (handle d s serve now now' r st)) \<longleftrightarrow>
     (\<exists>route. routed s (req_Path r) = Some route \<and> (rc_AllowAnonymous route \<or> authorized s r) \<and>
        dec_Action (fst (decide d s now now' route
          (Identify (dep_module d) (toRegistryRoute route) (req_Path r)) st)) \<noteq> ActionBlock)) \<and>
   (case routed s (req_Path r) of
      Some route \<Rightarrow>
        if (rc_AllowAnonymous route \<or> authorized s r) \<and> dec_Action (fst (decide d s now now' route
             (Identify (dep_module d) (toRegistryRoute route) (req_Path r)) st)) = ActionBlock
        then map_option rsp_Status (oc_Response (fst (handle d s serve now now' r st))) = Some 403 \<and>
          map evt_Action (oc_Audit (fst (handle d s serve now now' r st))) = [ActionBlock]
        else True
    | None \<Rightarrow> True)"
proof (cases rule: handle_cases [of s r d serve now now' st])
  case unauthorized
  then show ?thesis by (auto simp: wrote_def split: option.split)
next
  case unmatched
  then show ?thesis by (simp add: wrote_def)
next
  case (decided route info decision st' event)
  then show ?thesis
    by (auto simp: wrote_def after_serve_served writeBlocked_def writeJSON_def FromDecision_def)
qed

text \<open>C24: Without credentials nothing can be learnt about the routes that need them: whether or
  not a path lies on such a route, the answer is the same 401, the vulnerability service is not
  asked and nothing is fetched.\<close>

theorem unauthorized_learns_nothing:
  assumes "\<not> authorized s r" and "\<not> (\<exists>route. routed s (req_Path r) = Some route \<and> rc_AllowAnonymous route)"
  shows "handle d s serve now now' r st =
    ((wrote (unauthorized s (requestID r now)))\<lparr>oc_Metrics := [(authMetricsRoute, 401)]\<rparr>, st)"
  using assms by (cases rule: handle_cases [of s r d serve now now' st]) auto

definition example_request :: "string \<Rightarrow> Request" where
  "example_request path = \<lparr>req_Method = ''GET'', req_Path = path, req_Authorization = [],
     req_RequestID = ''r1'', req_BasicAuth = None,
     req_Query = (\<lambda>k. if k = ''url'' then path else [])\<rparr>"

definition example_secured :: Server where
  "example_secured = server_New Map.empty
     (cfg_Auth_update (auth_BearerTokenEnv_update (\<lambda>_. ''TOKEN'')) Default) (fst (policy_New emptyConfig))"

lemma example_secured_unready: "\<not> authorized example_secured r"
  by (simp add: example_secured_def server_New_def secretFromEnv_def authorized_def Default_def Let_def)

lemma example_secured_routes: "routed example_secured ''/etc'' = None"
  by (simp add: routed_def matchRoute_def matchNPMTarballFallback_def example_secured_def server_New_def
      secretFromEnv_def Default_def plainRoute_def Let_def go_eval)

theorem unauthorized_learns_nothing_witness:
  "\<not> authorized example_secured (example_request ''/etc'') \<and>
   map_option rsp_Status (oc_Response (fst (handle (example_deps ''MAL-1'') example_secured
     (\<lambda>_ _ _. \<lparr>so_Status = 200, so_Err = None, so_ClientGone = False\<rparr>) 0 0 (example_request ''/etc'') ()))) = Some 401"
proof -
  have "\<not> (\<exists>route. routed example_secured (req_Path (example_request ''/etc'')) = Some route \<and> rc_AllowAnonymous route)"
    using example_secured_routes by (simp add: example_request_def)
  from unauthorized_learns_nothing [OF example_secured_unready this, of "example_deps ''MAL-1''"
      "\<lambda>_ _ _. \<lparr>so_Status = 200, so_Err = None, so_ClientGone = False\<rparr>" 0 0 "()"] example_secured_unready
  show ?thesis by (simp add: wrote_def unauthorized_def writeJSON_def)
qed

text \<open>A credential that is configured but missing from the environment, or empty there, locks the
  server: no request at all is authorized. Otherwise a request is authorized exactly when no
  credential is configured or it presents one of those configured in full.\<close>

theorem missing_secret_locks:
  "authorized (server_New env cfg engine) r \<longleftrightarrow>
     (let a = cfg_Auth cfg; secret = (\<lambda>name. fst (secretFromEnv env name)) in
      list_all (\<lambda>name. if name = [] then True else \<not> env_missing env name)
        [auth_BearerTokenEnv a, auth_BasicUsernameEnv a, auth_BasicPasswordEnv a] \<and>
      (auth_BearerTokenEnv a = [] \<and> auth_BasicUsernameEnv a = [] \<and> auth_BasicPasswordEnv a = [] \<or>
       auth_BearerTokenEnv a \<noteq> [] \<and> req_Authorization r = ''Bearer '' @ secret (auth_BearerTokenEnv a) \<or>
       \<not> (auth_BasicUsernameEnv a = [] \<and> auth_BasicPasswordEnv a = []) \<and>
         req_BasicAuth r = Some (secret (auth_BasicUsernameEnv a), secret (auth_BasicPasswordEnv a))))"
proof -
  have ready: "snd (secretFromEnv env n) \<longleftrightarrow> (if n = [] then True else \<not> env_missing env n)" for n
    by (simp add: secretFromEnv_def env_missing_def split: option.split)
  have unset: "fst (secretFromEnv env n) = [] \<longleftrightarrow> n = [] \<or> env_missing env n" for n
    by (simp add: secretFromEnv_def env_missing_def split: option.split)
  have s: "s_authReady (server_New env cfg engine) = list_all (\<lambda>name. snd (secretFromEnv env name))
      [auth_BearerTokenEnv (cfg_Auth cfg), auth_BasicUsernameEnv (cfg_Auth cfg), auth_BasicPasswordEnv (cfg_Auth cfg)]"
    "s_bearer (server_New env cfg engine) = fst (secretFromEnv env (auth_BearerTokenEnv (cfg_Auth cfg)))"
    "s_basicUser (server_New env cfg engine) = fst (secretFromEnv env (auth_BasicUsernameEnv (cfg_Auth cfg)))"
    "s_basicPass (server_New env cfg engine) = fst (secretFromEnv env (auth_BasicPasswordEnv (cfg_Auth cfg)))"
    by (simp_all add: server_New_def case_prod_beta Let_def)
  show ?thesis unfolding authorized_iff s Let_def by (auto simp: ready unset)
qed

section \<open>Failing closed\<close>

lemma after_policy_closed:
  assumes "\<not> dcf_FailOpenIntelErrors (cfg_Decision (s_cfg s))" and "\<not> dcf_FailOpenUnknownPackage (cfg_Decision (s_cfg s))"
    and "dec_Action (fst (after_policy d s info pd st)) \<noteq> ActionBlock"
  shows "dec_Action pd \<noteq> ActionUnknown \<and> (ExemptsMalware pd \<or> ri_SkipVulnerabilityCheck info \<or>
    (\<exists>result. fst (dep_query d (ri_Package info) st) = Inr result \<and>
       (\<forall>f \<in> set (res_Findings result). \<not> malicious f)))"
proof (cases "ExemptsMalware pd \<or> ri_SkipVulnerabilityCheck info")
  case True
  with assms show ?thesis by (auto simp: after_policy_def)
next
  case False
  obtain q st' where q: "dep_query d (ri_Package info) st = (q, st')" by fastforce
  have err: "dec_Action (fst (ruleDecision d s info pd st)) = ActionBlock"
    "dec_Action (fst (intel_step d s info st)) = ActionBlock" if "q = Inl e" for e
    using that q False assms(1) by (auto simp: ruleDecision_def intel_step_def lookupFailed_action)
  have bad: "dec_Action (fst (ruleDecision d s info pd st)) = ActionBlock"
    "dec_Action (fst (intel_step d s info st)) = ActionBlock"
    if "q = Inr result" "\<exists>f \<in> set (res_Findings result). malicious f" for result
    using ruleDecision_malware [of d info st result st' pd s] intel_step_malware [of d info st result st' s] q that False
    by auto
  have known: "dec_Action pd \<noteq> ActionUnknown"
    using assms(2,3) by (auto simp: after_policy_def)
  have "dec_Action (fst (ruleDecision d s info pd st)) \<noteq> ActionBlock \<or>
      dec_Action (fst (intel_step d s info st)) \<noteq> ActionBlock"
    using assms(3) known False by (auto simp: after_policy_def split: if_splits)
  then obtain result where "q = Inr result" "\<not> (\<exists>f \<in> set (res_Findings result). malicious f)"
    using err bad by (cases q) auto
  with known q show ?thesis by auto
qed

text \<open>C17: A server configured to fail closed lets an artifact through only when its package was
  identified and an exact allow rule exempts it, its vulnerability check is left out by its route,
  or the vulnerability service has answered for the package without reporting malware.\<close>

theorem fail_closed_serves_checked_only:
  assumes "\<not> dcf_FailOpenIntelErrors (cfg_Decision (s_cfg s))" and "\<not> dcf_FailOpenUnknownPackage (cfg_Decision (s_cfg s))"
    and "ri_NeedsDecision info" and "dec_Action (fst (decide d s now now' route info st)) \<noteq> ActionBlock"
  shows "\<exists>n t. let pkg = (ri_Package info)\<lparr>pkg_PublishedAt := t\<rparr>; pd = Evaluate (s_policy s) n pkg in
    dec_Action pd \<noteq> ActionUnknown \<and> (ExemptsMalware pd \<or> ri_SkipVulnerabilityCheck info \<or>
      (\<exists>result. fst (dep_query d pkg st) = Inr result \<and> (\<forall>f \<in> set (res_Findings result). \<not> malicious f)))"
proof -
  let ?at = "\<lambda>t. info\<lparr>ri_Package := (ri_Package info)\<lparr>pkg_PublishedAt := t\<rparr>\<rparr>"
  have "\<exists>n t. dec_Action (fst (after_policy d s (?at t) (Evaluate (s_policy s) n (ri_Package (?at t))) st)) \<noteq> ActionBlock"
  proof (cases "dec_Action (fst (after_policy d s info (Evaluate (s_policy s) now (ri_Package info)) st)) \<noteq> ActionBlock")
    case True
    moreover have "?at (pkg_PublishedAt (ri_Package info)) = info" by simp
    ultimately show ?thesis by metis
  next
    case False
    with assms(1,3,4) obtain t where "dep_published d (toRegistryRoute route) info = Inr t"
      "dec_Action (fst (after_policy d s (?at t) (Evaluate (s_policy s) now' (ri_Package (?at t))) st)) \<noteq> ActionBlock"
      by (auto simp: decide_def Let_def lookupFailed_action split: if_splits sum.splits)
    then show ?thesis by blast
  qed
  then obtain n t where "dec_Action (fst (after_policy d s (?at t) (Evaluate (s_policy s) n (ri_Package (?at t))) st)) \<noteq> ActionBlock"
    by blast
  from after_policy_closed [OF assms(1,2) this] show ?thesis
    by (intro exI [of _ n] exI [of _ t]) simp
qed

definition example_closed :: Server where
  "example_closed = (example_server [] False)\<lparr>s_cfg := cfg_Decision_update
     (dcf_FailOpenIntelErrors_update (\<lambda>_. False) \<circ> dcf_FailOpenUnknownPackage_update (\<lambda>_. False)) Default\<rparr>"

theorem fail_closed_serves_checked_only_witness:
  "dec_Action (fst (decide (example_deps ''GHSA-1'') example_closed 0 0 emptyRoute example_info ())) = ActionWarn \<and>
   (\<exists>n t. dec_Action (Evaluate (s_policy example_closed) n
      ((ri_Package example_info)\<lparr>pkg_PublishedAt := t\<rparr>)) \<noteq> ActionUnknown)"
proof -
  have pol: "s_policy example_closed = s_policy (example_server [] False)"
    by (simp add: example_closed_def)
  have e: "Evaluate (s_policy example_closed) 0 (ri_Package example_info) =
      plainDecision ActionAllow ''no policy rule matched'' []"
    by (simp add: pol example_server_sel Evaluate_policy_New evaluate_spec_def emptyConfig_def example_info_sel
        IsZero_def)
  have c: "\<not> CooldownEnabled (s_policy example_closed)" by (simp add: pol example_cooldown)
  have cfgd: "threshold example_closed = Fin 9"
    "dcf_DefaultVulnerabilityAction (cfg_Decision (s_cfg example_closed)) = ''warn''"
    by (simp_all add: threshold_def example_closed_def Default_def)
  have warn: "dec_Action (fst (decide (example_deps ''GHSA-1'') example_closed 0 0 emptyRoute example_info ())) = ActionWarn"
    by (simp add: decide_def e c example_info_sel after_policy_def intel_step_def example_deps_def Decide_def
        MalwareDecision_def example_finding_def malicious_def malAlias_def HasPrefix_def cfgd
        f64_le_def Let_def Action_defs)
  have "\<exists>n t. let pkg = (ri_Package example_info)\<lparr>pkg_PublishedAt := t\<rparr>; pd = Evaluate (s_policy example_closed) n pkg in
    dec_Action pd \<noteq> ActionUnknown \<and> (ExemptsMalware pd \<or> ri_SkipVulnerabilityCheck example_info \<or>
      (\<exists>result. fst (dep_query (example_deps ''GHSA-1'') pkg ()) = Inr result \<and>
         (\<forall>f \<in> set (res_Findings result). \<not> malicious f)))"
    by (rule fail_closed_serves_checked_only [of _ _ _ 0 0 emptyRoute])
      (simp_all add: warn example_info_sel, simp_all add: example_closed_def)
  with warn show ?thesis by (auto simp: Let_def)
qed

section \<open>Explanations agree with the handler\<close>

lemma explain_New_blocked: "e_Blocked (explain_New f pkg dec rid url) = (dec_Action dec = ActionBlock)"
  "e_Reason (explain_New f pkg dec rid url) = dec_Reason dec"
  by (simp_all add: explain_New_def Let_def)

text \<open>C18: Asked about a URL it serves, /explain answers with the very explanation that a request
  for the URL would be blocked with: under the same clock and service state, the explanation
  says blocked exactly when the request gets a 403.\<close>

theorem explain_agrees_with_handle:
  assumes "authorized s r" and "req_Method r = ''GET''" and "req_Query r ''purl'' = []" and "req_Query r ''url'' \<noteq> []"
    and "dep_parse_url d (req_Query r ''url'') = Inr (req_Path r)" and "req_Query r ''format'' = []"
    and "fst (bucket_allow rnd now bucket)"
    and "routed s (req_Path r) = Some route"
    and "ri_NeedsDecision (Identify (dep_module d) (toRegistryRoute route) (req_Path r))"
  shows "\<exists>e. rsp_Body (fst (handleExplain err_text rnd d s now now' r bucket st)) = ExplainBody e \<and>
    rsp_Status (fst (handleExplain err_text rnd d s now now' r bucket st)) = 200 \<and>
    (if e_Blocked e
     then map_option rsp_Body (oc_Response (fst (handle d s serve now now' r st))) = Some (BlockedBody e)
     else oc_Served (fst (handle d s serve now now' r st)))"
proof -
  let ?info = "Identify (dep_module d) (toRegistryRoute route) (req_Path r)"
  obtain dec st' where dec: "decide d s now now' route ?info st = (dec, st')" by fastforce
  let ?e = "explain_New (dep_fmt_time d) (ri_Package ?info) dec (requestID r now) (dcf_ExceptionsURL (cfg_Decision (s_cfg s)))"
  obtain b where b: "bucket_allow rnd now bucket = (True, b)" using assms(7) by (cases "bucket_allow rnd now bucket") auto
  have target: "explainTarget d s (req_Query r) = Inr (route, ?info, rc_AllowAnonymous route)"
    using assms by (simp add: explainTarget_def)
  have "fst (handleExplain err_text rnd d s now now' r bucket st) =
      writeJSON [(''X-Request-ID'', requestID r now)] 200 (ExplainBody ?e)"
    using assms target dec b by (simp add: handleExplain_def Let_def)
  moreover have "if e_Blocked ?e
     then map_option rsp_Body (oc_Response (fst (handle d s serve now now' r st))) = Some (BlockedBody ?e)
     else oc_Served (fst (handle d s serve now now' r st))"
    using assms(1,8) dec
    by (simp add: handle_def Let_def explain_New_blocked wrote_def writeBlocked_def writeJSON_def after_serve_served)
  ultimately show ?thesis by (intro exI [of _ ?e]) (simp add: writeJSON_def)
qed

definition example_maven_request :: Request where
  "example_maven_request = example_request ''/maven/org/acme/lib/1.0/lib-1.0.jar''"

lemma example_maven_routed:
  "routed (example_server [] False) ''/maven/org/acme/lib/1.0/lib-1.0.jar'' =
     Some (plainRoute ''maven'' ''maven'' ''/maven/'' ''https://repo1.maven.org/maven2/'' [])"
  by (simp add: routed_def matchRoute_def example_server_def server_New_def secretFromEnv_def Default_def
      plainRoute_def Let_def go_eval)

theorem explain_agrees_with_handle_witness:
  "fst (bucket_allow id 0 (newTokenBucket explainRatePerSecond explainBurst 0)) \<and>
   (\<exists>e. rsp_Body (fst (handleExplain (\<lambda>_. []) id (example_deps ''MAL-1'') (example_server [] False) 0 0
      example_maven_request (newTokenBucket explainRatePerSecond explainBurst 0) ())) = ExplainBody e)"
proof -
  let ?b = "newTokenBucket explainRatePerSecond explainBurst 0"
  let ?route = "plainRoute ''maven'' ''maven'' ''/maven/'' ''https://repo1.maven.org/maven2/'' []"
  have bucket: "fst (bucket_allow id 0 ?b)"
    by (simp add: bucket_allow_def newTokenBucket_def explainRatePerSecond_def explainBurst_def time_Sub_def
        minDuration_def maxDuration_def Let_def)
  have auth: "authorized (example_server [] False) example_maven_request"
    by (simp add: authorized_def example_server_def server_New_def secretFromEnv_def Default_def Let_def)
  have needs: "ri_NeedsDecision (Identify example_module_lib (toRegistryRoute ?route) (req_Path example_maven_request))"
    by (simp add: example_maven_request_def example_request_def toRegistryRoute_def plainRoute_def Identify_def
        identifyMaven_def splitPath_def Let_def go_eval)
  have "\<exists>e. rsp_Body (fst (handleExplain (\<lambda>_. []) id (example_deps ''MAL-1'') (example_server [] False) 0 0
      example_maven_request ?b ())) = ExplainBody e \<and>
    rsp_Status (fst (handleExplain (\<lambda>_. []) id (example_deps ''MAL-1'') (example_server [] False) 0 0
      example_maven_request ?b ())) = 200 \<and>
    (if e_Blocked e
     then map_option rsp_Body (oc_Response (fst (handle (example_deps ''MAL-1'') (example_server [] False)
       (\<lambda>_ _ _. \<lparr>so_Status = 200, so_Err = None, so_ClientGone = False\<rparr>) 0 0 example_maven_request ()))) = Some (BlockedBody e)
     else oc_Served (fst (handle (example_deps ''MAL-1'') (example_server [] False)
       (\<lambda>_ _ _. \<lparr>so_Status = 200, so_Err = None, so_ClientGone = False\<rparr>) 0 0 example_maven_request ())))"
    using needs
    by (intro explain_agrees_with_handle [OF auth _ _ _ _ _ bucket, of _ ?route])
      (simp_all add: example_deps_def example_maven_routed example_maven_request_def example_request_def)
  with bucket show ?thesis by blast
qed

section \<open>The explain limiter\<close>

definition bucket_inv :: "tokenBucket \<Rightarrow> bool" where
  "bucket_inv b \<longleftrightarrow> 0 \<le> tb_rate b \<and> 0 \<le> tb_tokens b \<and> tb_tokens b \<le> tb_burst b"

text \<open>Rounding that is monotone and exact on 0 and on the burst keeps the tokens between them.\<close>

lemma bucket_allow_inv:
  assumes mono: "\<And>x y. x \<le> y \<Longrightarrow> rnd x \<le> rnd y" and zero: "rnd 0 = 0" and burst: "rnd (tb_burst b) = tb_burst b"
    and inv: "bucket_inv b" and later: "tb_last b \<le> now"
  shows "bucket_inv (snd (bucket_allow rnd now b)) \<and> tb_burst (snd (bucket_allow rnd now b)) = tb_burst b"
proof -
  have nonneg: "0 \<le> rnd x" if "0 \<le> x" for x using mono [OF that] zero by simp
  define sec where "sec = rnd (of_int (time_Sub now (tb_last b)) / 1000000000)"
  define tok where "tok = min (tb_burst b) (rnd (tb_tokens b + rnd (sec * tb_rate b)))"
  have "0 \<le> time_Sub now (tb_last b)" using later by (simp add: time_Sub_def minDuration_def maxDuration_def)
  then have "0 \<le> sec" by (simp add: sec_def nonneg)
  then have "0 \<le> tok" using inv by (simp add: tok_def bucket_inv_def nonneg)
  moreover have "tok \<le> tb_burst b" by (simp add: tok_def)
  moreover have "rnd (tok - 1) \<le> tb_burst b" using mono [of "tok - 1" "tb_burst b"] burst calculation by simp
  moreover have "0 \<le> rnd (tok - 1)" if "\<not> tok < 1" using that by (simp add: nonneg)
  moreover have "bucket_allow rnd now b = (if tok < 1 then (False, b\<lparr>tb_tokens := tok, tb_last := now\<rparr>)
      else (True, b\<lparr>tb_tokens := rnd (tok - 1), tb_last := now\<rparr>))"
    by (simp add: bucket_allow_def tok_def sec_def Let_def)
  ultimately show ?thesis using inv by (simp add: bucket_inv_def)
qed

end
