(* ===== verification/Artifactcache.thy ===== *)
theory Artifactcache
  imports GoIO "HOL-Library.Multiset"
begin

text \<open>
  internal/artifactcache: entries and their validation, cache keys, the filesystem store and
  the S3 store. The locale \<open>artifact_store\<close> is the interface Store with what the proxy relies on;
  both stores interpret it. A store's state holds what it is given: the functions of
  encoding/json, crypto/sha256, encoding/base64 and time, the S3 client with its bucket, and
  the files, a map from paths to contents; the store invariant states what is assumed of those
  functions. System calls fail as the argument \<open>io\<close> says, a context ends as \<open>ctx\<close> says, and a
  call of the S3 client may be given a failure of the network that it then answers to. A
  temporary file is not visible under any entry path, so a Put changes the files by one rename.
\<close>

datatype store_error = ErrNotFound | ErrInvalidEntry string | StoreError string

record Entry =
  ent_Headers :: header
  ent_Body :: "reader option"
  ent_SHA256 :: string
  ent_Size :: int
  ent_StoredAt :: time
  ent_ExpiresAt :: time

record PutRequest =
  put_Headers :: header
  put_Body :: "reader option"
  put_SHA256 :: string
  put_Size :: int
  put_StoredAt :: time
  put_ExpiresAt :: time

definition Entry_Expired :: "time \<Rightarrow> Entry \<Rightarrow> bool" where
  "Entry_Expired now e \<longleftrightarrow> \<not> ent_ExpiresAt e > now"

section \<open>Keys, headers and validation\<close>

definition key_preimage :: "string list \<Rightarrow> string" where
  "key_preimage parts = ''package-firewall-artifact-cache-v1'' @ concat (map (\<lambda>part. CHR 0x00 # part) parts)"

definition Key :: "(string \<Rightarrow> string) \<Rightarrow> string list \<Rightarrow> string" where
  "Key sha256_hex parts = sha256_hex (key_preimage parts)"

definition safe_names :: "string list" where
  "safe_names = [''age'', ''cache-control'', ''content-disposition'', ''content-type'', ''date'',
     ''digest'', ''etag'', ''last-modified'', ''vary'']"

definition SafeHeaders :: "header \<Rightarrow> header" where
  "SafeHeaders headers =
     fold (\<lambda>(k, vs) safe. if ToLower k \<in> set safe_names then fold (header_Add k) vs safe else safe) headers []"

definition validSHA256 :: "string \<Rightarrow> bool" where
  "validSHA256 value \<longleftrightarrow> length value = 64 \<and> list_all (\<lambda>c. unhex c \<noteq> None) value"

definition ValidatePut :: "PutRequest \<Rightarrow> store_error option" where
  "ValidatePut req =
     (if put_Body req = None then Some (ErrInvalidEntry ''body is required'')
      else if put_Size req < 0 then Some (ErrInvalidEntry ''size cannot be negative'')
      else if \<not> validSHA256 (put_SHA256 req) then
        Some (ErrInvalidEntry ''sha256 must be a 64-character hexadecimal digest'')
      else if IsZero (put_StoredAt req) then Some (ErrInvalidEntry ''stored_at is required'')
      else if IsZero (put_ExpiresAt req) then Some (ErrInvalidEntry ''expires_at is required'')
      else if \<not> put_ExpiresAt req > put_StoredAt req then
        Some (ErrInvalidEntry ''expires_at must be after stored_at'')
      else None)"

definition ValidateEntry :: "Entry \<Rightarrow> store_error option" where
  "ValidateEntry entry =
     (if ent_Body entry = None then Some (ErrInvalidEntry ''body is required'')
      else ValidatePut \<lparr>put_Headers = [], put_Body = ent_Body entry, put_SHA256 = ent_SHA256 entry,
             put_Size = ent_Size entry, put_StoredAt = ent_StoredAt entry, put_ExpiresAt = ent_ExpiresAt entry\<rparr>)"

definition cacheKeyPattern :: "string \<Rightarrow> bool" where
  "cacheKeyPattern key \<longleftrightarrow> length key = 64 \<and> list_all (\<lambda>c. List.member hex_digits c) key"

definition validateKey :: "string \<Rightarrow> store_error option" where
  "validateKey key = (if cacheKeyPattern key then None else Some (ErrInvalidEntry ''invalid cache key''))"

section \<open>Copying a body\<close>

type_synonym faults = "string \<Rightarrow> string option"

lemma copy_progress: "length w < n \<Longrightarrow> a \<noteq> [] \<Longrightarrow> n - (length w + length a) < n - length w"
  by (cases a) auto

function copy_loop :: "(nat \<Rightarrow> string option) \<Rightarrow> (nat \<Rightarrow> string option) \<Rightarrow> nat \<Rightarrow> nat \<Rightarrow> string \<Rightarrow> reader
    \<Rightarrow> string \<times> reader \<times> string option" where
  "copy_loop wr ctx i sz written src =
     (if length written < sz then
        (case ctx i of
           Some e \<Rightarrow> (written, src, Some e)
         | None \<Rightarrow>
             (case Read (min 32768 (sz - length written)) src of
                ((c, readErr), src') \<Rightarrow>
                  if c \<noteq> [] \<and> wr i \<noteq> None then (written, src', wr i)
                  else
                    (case readErr of
                       ReadErr e \<Rightarrow> (written @ c, src', Some e)
                     | ReadEOF \<Rightarrow>
                         if length (written @ c) = sz then (written @ c, src', None)
                         else (written @ c, src', Some ''EOF'')
                     | ReadOK \<Rightarrow>
                         if c = [] then (written @ c, src', Some ''no progress'')
                         else copy_loop wr ctx (Suc i) sz (written @ c) src')))
      else (written, src, None))"
  by pat_completeness auto
termination by (relation "measure (\<lambda>(_, _, _, sz, written, _). sz - length written)")
    (auto intro: copy_progress)

definition copyExactly :: "(nat \<Rightarrow> string option) \<Rightarrow> (nat \<Rightarrow> string option) \<Rightarrow> reader \<Rightarrow> nat \<Rightarrow> string \<times> string option" where
  "copyExactly wr ctx src sz =
     (case copy_loop wr ctx 0 sz [] src of
        (written, src, Some e) \<Rightarrow> (written, Some e)
      | (written, src, None) \<Rightarrow>
          (case Read 1 src of
             ((extra, err), _) \<Rightarrow>
               if extra \<noteq> [] then (written, Some ''body exceeds expected size'')
               else case err of ReadErr e \<Rightarrow> (written, Some e) | _ \<Rightarrow> (written, None)))"

declare copy_loop.simps [simp del]

text \<open>A copy that succeeds has taken exactly the size from the front of the source.\<close>

lemma copy_loop_ok:
  "copy_loop wr ctx i sz written src = (out, src', None) \<Longrightarrow> length written \<le> sz \<Longrightarrow>
     length out = sz \<and> out @ reader_bytes src' = written @ reader_bytes src"
proof (induction wr ctx i sz written src rule: copy_loop.induct)
  case (1 wr ctx i sz written src)
  show ?case
  proof (cases "length written < sz")
    case False
    then show ?thesis using "1.prems" by (simp add: copy_loop.simps)
  next
    case True
    obtain c e rd where rd: "Read (min 32768 (sz - length written)) src = ((c, e), rd)"
      by (metis prod.exhaust)
    note bytes = Read_bytes [OF rd]
    show ?thesis
    proof (cases "ctx i = None \<and> \<not> (c \<noteq> [] \<and> wr i \<noteq> None) \<and> e = ReadOK \<and> c \<noteq> []")
      case go: True
      then have "copy_loop wr ctx (Suc i) sz (written @ c) rd = (out, src', None)"
        using "1.prems"(1) True rd by (subst (asm) copy_loop.simps) (auto split: if_splits)
      moreover have "length (written @ c) \<le> sz" using bytes True by auto
      ultimately show ?thesis using "1.IH" True go rd bytes by fastforce
    next
      case stop: False
      then have "out = written @ c \<and> src' = rd \<and> length (written @ c) = sz"
        using "1.prems"(1) True rd
        by (subst (asm) copy_loop.simps) (auto split: option.splits read_end.splits if_splits)
      then show ?thesis using bytes by simp
    qed
  qed
qed

lemma copyExactly_ok:
  assumes "copyExactly wr ctx src sz = (out, None)"
  shows "length out = sz \<and> out = take sz (reader_bytes src)"
proof -
  obtain src' where loop: "copy_loop wr ctx 0 sz [] src = (out, src', None)"
    using assms by (auto simp: copyExactly_def split: prod.splits option.splits if_splits read_end.splits)
  from copy_loop_ok [OF this] have "length out = sz" "out @ reader_bytes src' = reader_bytes src" by auto
  then show ?thesis by (metis append_eq_conv_conj)
qed

section \<open>The filesystem store\<close>

definition fileMagic :: string where "fileMagic = ''PFWART2'' @ [CHR 0x0A]"
definition maxFileRecordSize :: nat where "maxFileRecordSize = 65536"

record fileRecord =
  frec_Headers :: header
  frec_SHA256 :: string
  frec_Size :: int
  frec_StoredAt :: time
  frec_ExpiresAt :: time

definition put_uint32 :: "nat \<Rightarrow> string" where
  "put_uint32 n = map char_of [n div 16777216 mod 256, n div 65536 mod 256, n div 256 mod 256, n mod 256]"

definition get_uint32 :: "string \<Rightarrow> nat" where
  "get_uint32 s = foldl (\<lambda>n c. 256 * n + byte c) 0 s"

record FileSystemStore =
  fss_directory :: string
  fss_marshal :: "fileRecord \<Rightarrow> string + string"
  fss_unmarshal :: "string \<Rightarrow> string + fileRecord"
  fss_sha256 :: "string \<Rightarrow> string"
  fss_files :: "string \<Rightarrow> string option"

record fs_env =
  env_io :: faults
  env_write :: "nat \<Rightarrow> string option"
  env_ctx :: "nat \<Rightarrow> string option"

definition entryPath :: "FileSystemStore \<Rightarrow> string \<Rightarrow> string" where
  "entryPath s key =
     (let shard = (if length key \<ge> 2 then take 2 key else ''invalid'')
      in path_JoinN [fss_directory s, ''v1'', shard, key @ ''.artifact''])"

text \<open>Parsing an open file of the store.\<close>

definition parse_file :: "FileSystemStore \<Rightarrow> faults \<Rightarrow> time \<Rightarrow> string \<Rightarrow> store_error + Entry" where
  "parse_file s io now content =
     (let m = length fileMagic in
      if length content < m then Inl (ErrInvalidEntry ''read filesystem cache magic'')
      else if take m content \<noteq> fileMagic then Inl (ErrInvalidEntry ''invalid filesystem cache magic'')
      else if length content < m + 4 then Inl (ErrInvalidEntry ''unexpected EOF'')
      else let recordSize = get_uint32 (take 4 (drop m content)) in
      if recordSize = 0 \<or> recordSize > maxFileRecordSize then Inl (ErrInvalidEntry ''invalid record size'')
      else if length content < m + 4 + recordSize then Inl (ErrInvalidEntry ''unexpected EOF'')
      else case fss_unmarshal s (take recordSize (drop (m + 4) content)) of
        Inl e \<Rightarrow> Inl (ErrInvalidEntry e)
      | Inr rec \<Rightarrow>
          let bodyOffset = m + 4 + recordSize;
              entry = \<lparr>ent_Headers = SafeHeaders (frec_Headers rec),
                       ent_Body = Some [(take (nat (frec_Size rec)) (drop bodyOffset content), ReadEOF)],
                       ent_SHA256 = frec_SHA256 rec, ent_Size = frec_Size rec,
                       ent_StoredAt = frec_StoredAt rec, ent_ExpiresAt = frec_ExpiresAt rec\<rparr>
          in case ValidateEntry entry of
               Some e \<Rightarrow> Inl e
             | None \<Rightarrow>
                 if Entry_Expired now entry then Inl ErrNotFound
                 else case io ''stat'' of
                   Some e \<Rightarrow> Inl (StoreError e)
                 | None \<Rightarrow>
                     if int (length content) \<noteq> int bodyOffset + ent_Size entry
                     then Inl (ErrInvalidEntry ''file size does not match metadata size'')
                     else Inr entry)"

definition FileSystemStore_Get :: "fs_env \<Rightarrow> time \<Rightarrow> string \<Rightarrow> FileSystemStore \<Rightarrow> store_error + Entry" where
  "FileSystemStore_Get env now key s =
     (case validateKey key of
        Some e \<Rightarrow> Inl e
      | None \<Rightarrow>
          (case env_ctx env 0 of
             Some e \<Rightarrow> Inl (StoreError e)
           | None \<Rightarrow>
               (case env_io env ''open'' of
                  Some e \<Rightarrow> Inl (StoreError e)
                | None \<Rightarrow>
                    (case fss_files s (entryPath s key) of
                       None \<Rightarrow> Inl ErrNotFound
                     | Some content \<Rightarrow> parse_file s (env_io env) now content))))"

fun first_fault :: "faults \<Rightarrow> string list \<Rightarrow> string option" where
  "first_fault io [] = None"
| "first_fault io (op # ops) = (case io op of Some e \<Rightarrow> Some e | None \<Rightarrow> first_fault io ops)"

abbreviation record_of :: "PutRequest \<Rightarrow> fileRecord" where
  "record_of req \<equiv> \<lparr>frec_Headers = SafeHeaders (put_Headers req), frec_SHA256 = put_SHA256 req,
     frec_Size = put_Size req, frec_StoredAt = put_StoredAt req, frec_ExpiresAt = put_ExpiresAt req\<rparr>"

definition put_checks :: "fs_env \<Rightarrow> string \<Rightarrow> PutRequest \<Rightarrow> string + string \<Rightarrow> store_error + string" where
  "put_checks env key req record =
     (case validateKey key of
        Some e \<Rightarrow> Inl e
      | None \<Rightarrow>
          (case ValidatePut req of
             Some e \<Rightarrow> Inl e
           | None \<Rightarrow>
               (case env_ctx env 0 of
                  Some e \<Rightarrow> Inl (StoreError e)
                | None \<Rightarrow>
                    (case env_io env ''mkdir'' of
                       Some e \<Rightarrow> Inl (StoreError e)
                     | None \<Rightarrow>
                         (case record of
                            Inl e \<Rightarrow> Inl (StoreError e)
                          | Inr recordBytes \<Rightarrow>
                              if length recordBytes = 0 \<or> length recordBytes > maxFileRecordSize
                              then Inl (StoreError ''filesystem cache metadata is too large'')
                              else Inr recordBytes)))))"

definition write_temporary :: "fs_env \<Rightarrow> PutRequest \<Rightarrow> string \<Rightarrow> (string \<Rightarrow> string) \<Rightarrow> store_error + string" where
  "write_temporary env req recordBytes sha256 =
     (case first_fault (env_io env) [''createtemp'', ''chmod'', ''write magic'', ''write size'', ''write record''] of
        Some e \<Rightarrow> Inl (StoreError e)
      | None \<Rightarrow>
          (case copyExactly (env_write env) (\<lambda>i. env_ctx env (Suc i)) (the (put_Body req)) (nat (put_Size req)) of
             (written, Some e) \<Rightarrow> Inl (StoreError e)
           | (written, None) \<Rightarrow>
               if int (length written) \<noteq> put_Size req
               then Inl (StoreError ''filesystem cache body size does not match expected size'')
               else if sha256 written \<noteq> put_SHA256 req
               then Inl (StoreError ''filesystem cache body checksum does not match expected checksum'')
               else (case first_fault (env_io env) [''sync'', ''close'', ''rename''] of
                       Some e \<Rightarrow> Inl (StoreError e)
                     | None \<Rightarrow> Inr (fileMagic @ put_uint32 (length recordBytes) @ recordBytes @ written))))"

definition FileSystemStore_Put :: "fs_env \<Rightarrow> string \<Rightarrow> PutRequest \<Rightarrow> FileSystemStore
    \<Rightarrow> store_error option \<times> FileSystemStore" where
  "FileSystemStore_Put env key req s =
     (case put_checks env key req (fss_marshal s (record_of req)) of
        Inl e \<Rightarrow> (Some e, s)
      | Inr recordBytes \<Rightarrow>
          (case write_temporary env req recordBytes (fss_sha256 s) of
             Inl e \<Rightarrow> (Some e, s)
           | Inr content \<Rightarrow> (None, s\<lparr>fss_files := (fss_files s)(entryPath s key \<mapsto> content)\<rparr>)))"

section \<open>The S3 store\<close>

definition s3MetadataVersion :: string where "s3MetadataVersion = ''2''"
definition maxS3HeaderMetadataSize :: nat where "maxS3HeaderMetadataSize = 1400"

record s3_error =
  s3e_NoSuchKey :: bool
  s3e_Code :: "string option"
  s3e_Text :: string

record GetObjectInput =
  goi_Bucket :: string
  goi_Key :: string
  goi_ExpectedBucketOwner :: "string option"

record GetObjectOutput =
  goo_Body :: "reader option"
  goo_Metadata :: "(string, string) gomap"
  goo_ContentLength :: "int option"

record PutObjectInput =
  poi_Bucket :: string
  poi_Key :: string
  poi_Body :: reader
  poi_ContentLength :: int
  poi_Metadata :: "(string, string) gomap"
  poi_ContentType :: "string option"
  poi_ExpectedBucketOwner :: "string option"

record 'o S3Store =
  s3_bucket :: string
  s3_prefix :: string
  s3_expectedBucketOwner :: string
  s3_GetObject :: "s3_error option \<Rightarrow> GetObjectInput \<Rightarrow> 'o \<Rightarrow> s3_error + GetObjectOutput"
  s3_PutObject :: "s3_error option \<Rightarrow> PutObjectInput \<Rightarrow> 'o \<Rightarrow> s3_error option \<times> 'o"
  s3_objects :: 'o
  s3_fmt_time :: "time \<Rightarrow> string"
  s3_parse_time :: "string \<Rightarrow> string + time"
  s3_marshal :: "header \<Rightarrow> string"
  s3_unmarshal :: "string \<Rightarrow> string + header"
  s3_b64encode :: "string \<Rightarrow> string"
  s3_b64decode :: "string \<Rightarrow> string + string"

definition isS3NotFound :: "s3_error \<Rightarrow> bool" where
  "isS3NotFound err = (if s3e_NoSuchKey err then True
     else case s3e_Code err of
       None \<Rightarrow> False
     | Some code \<Rightarrow> code = ''NoSuchKey'' \<or> code = ''NotFound'' \<or> code = ''404'')"

definition metadataValue :: "(string, string) gomap \<Rightarrow> string \<Rightarrow> string" where
  "metadataValue metadata key =
     (case find (\<lambda>(candidate, _). EqualFold candidate key) metadata of Some (_, v) \<Rightarrow> v | None \<Rightarrow> [])"

definition objectKey :: "'o S3Store \<Rightarrow> string \<Rightarrow> string" where
  "objectKey s key =
     (let name = path_JoinN [''v1'', take 2 key, key @ ''.artifact''] in
      if s3_prefix s = [] then name else s3_prefix s @ ''/'' @ name)"

definition encodeS3Headers :: "'o S3Store \<Rightarrow> header \<Rightarrow> store_error + string" where
  "encodeS3Headers s headers =
     (let encoded = s3_b64encode s (s3_marshal s headers) in
      if length encoded > maxS3HeaderMetadataSize then Inl (StoreError ''S3 cache header metadata is too large'')
      else Inr encoded)"

definition decodeS3Headers :: "'o S3Store \<Rightarrow> string \<Rightarrow> string + header" where
  "decodeS3Headers s value =
     (if value = [] then Inl ''S3 cache header metadata is missing''
      else case s3_b64decode s value of
        Inl e \<Rightarrow> Inl e
      | Inr raw \<Rightarrow> (case s3_unmarshal s raw of Inl e \<Rightarrow> Inl e | Inr headers \<Rightarrow> Inr (SafeHeaders headers)))"

definition s3_owner :: "'o S3Store \<Rightarrow> string option" where
  "s3_owner s = (if s3_expectedBucketOwner s \<noteq> [] then Some (s3_expectedBucketOwner s) else None)"

definition S3Store_Get :: "s3_error option \<Rightarrow> time \<Rightarrow> string \<Rightarrow> 'o S3Store \<Rightarrow> store_error + Entry" where
  "S3Store_Get net now key s =
     (case validateKey key of
        Some e \<Rightarrow> Inl e
      | None \<Rightarrow>
          (case s3_GetObject s net \<lparr>goi_Bucket = s3_bucket s, goi_Key = objectKey s key,
                  goi_ExpectedBucketOwner = s3_owner s\<rparr> (s3_objects s) of
             Inl err \<Rightarrow> if isS3NotFound err then Inl ErrNotFound else Inl (StoreError (s3e_Text err))
           | Inr output \<Rightarrow>
               let meta = metadataValue (goo_Metadata output) in
               if goo_Body output = None then Inl (ErrInvalidEntry ''S3 object body is missing'')
               else if meta ''pfw-version'' \<noteq> s3MetadataVersion then
                 Inl (ErrInvalidEntry ''S3 object metadata version is missing or unsupported'')
               else case s3_parse_time s (meta ''pfw-expires-at'') of
                 Inl e \<Rightarrow> Inl (ErrInvalidEntry e)
               | Inr expiresAt \<Rightarrow>
                   if \<not> expiresAt > now then Inl ErrNotFound
                   else (case goo_ContentLength output of
                     None \<Rightarrow> Inl (ErrInvalidEntry ''S3 object content length is missing'')
                   | Some len \<Rightarrow>
                       (case s3_parse_time s (meta ''pfw-stored-at'') of
                          Inl e \<Rightarrow> Inl (ErrInvalidEntry e)
                        | Inr storedAt \<Rightarrow>
                            (case decodeS3Headers s (meta ''pfw-headers'') of
                               Inl e \<Rightarrow> Inl (ErrInvalidEntry e)
                             | Inr headers \<Rightarrow>
                                 let entry = \<lparr>ent_Headers = headers, ent_Body = goo_Body output,
                                       ent_SHA256 = meta ''pfw-sha256'', ent_Size = len,
                                       ent_StoredAt = storedAt, ent_ExpiresAt = expiresAt\<rparr>
                                 in case ValidateEntry entry of Some e \<Rightarrow> Inl e | None \<Rightarrow> Inr entry)))))"

definition put_object_input :: "'o S3Store \<Rightarrow> string \<Rightarrow> PutRequest \<Rightarrow> string \<Rightarrow> PutObjectInput" where
  "put_object_input s key req headers =
     \<lparr>poi_Bucket = s3_bucket s, poi_Key = objectKey s key, poi_Body = the (put_Body req),
      poi_ContentLength = put_Size req,
      poi_Metadata = [(''pfw-version'', s3MetadataVersion), (''pfw-sha256'', put_SHA256 req),
        (''pfw-stored-at'', s3_fmt_time s (put_StoredAt req)),
        (''pfw-expires-at'', s3_fmt_time s (put_ExpiresAt req)), (''pfw-headers'', headers)],
      poi_ContentType = (let ct = header_Get (put_Headers req) ''Content-Type'' in if ct \<noteq> [] then Some ct else None),
      poi_ExpectedBucketOwner = s3_owner s\<rparr>"

definition S3Store_Put :: "s3_error option \<Rightarrow> string \<Rightarrow> PutRequest \<Rightarrow> 'o S3Store \<Rightarrow> store_error option \<times> 'o S3Store" where
  "S3Store_Put net key req s =
     (case validateKey key of
        Some e \<Rightarrow> (Some e, s)
      | None \<Rightarrow>
          (case ValidatePut req of
             Some e \<Rightarrow> (Some e, s)
           | None \<Rightarrow>
               (case encodeS3Headers s (SafeHeaders (put_Headers req)) of
                  Inl e \<Rightarrow> (Some e, s)
                | Inr headers \<Rightarrow>
                    (case s3_PutObject s net (put_object_input s key req headers) (s3_objects s) of
                       (Some err, objs) \<Rightarrow> (Some (StoreError (s3e_Text err)), s\<lparr>s3_objects := objs\<rparr>)
                     | (None, objs) \<Rightarrow> (None, s\<lparr>s3_objects := objs\<rparr>)))))"

definition NewS3Store :: "'o S3Store \<Rightarrow> string \<Rightarrow> string \<Rightarrow> string \<Rightarrow> 'o S3Store" where
  "NewS3Store client bucket pre owner =
     client\<lparr>s3_bucket := bucket, s3_prefix := Trim pre ''/'', s3_expectedBucketOwner := owner\<rparr>"

section \<open>Lemmas on the parts\<close>

lemma SafeHeaders_fold:
  assumes "canonical_header hs" and "fst ` set acc \<inter> fst ` set hs = {}"
  shows "fold (\<lambda>(k, vs) safe. if ToLower k \<in> set safe_names then fold (header_Add k) vs safe else safe) hs acc =
    acc @ filter (\<lambda>(k, vs). ToLower k \<in> set safe_names) hs"
  using assms
proof (induction hs arbitrary: acc)
  case (Cons kv hs)
  obtain k vs where kv: "kv = (k, vs)" by (cases kv)
  from Cons.prems have c: "canonical_header hs" "k \<notin> fst ` set hs" "CanonicalHeaderKey k = k" "vs \<noteq> []"
    "k \<notin> fst ` set acc" by (auto simp: canonical_header_def kv)
  have "fold (header_Add k) vs acc = acc @ [(k, vs)]"
    using fold_add_values [OF c(3,5), of vs "[]"] c(4) by simp
  then show ?case using Cons.IH [OF c(1), of "acc @ [(k, vs)]"] Cons.IH [OF c(1), of acc] Cons.prems(2) c(2)
    by (auto simp: kv)
qed simp

lemma SafeHeaders_canonical:
  "canonical_header h \<Longrightarrow> SafeHeaders h = filter (\<lambda>(k, vs). ToLower k \<in> set safe_names) h"
  using SafeHeaders_fold [of h "[]"] by (simp add: SafeHeaders_def)

lemma SafeHeaders_idem: "canonical_header h \<Longrightarrow> SafeHeaders (SafeHeaders h) = SafeHeaders h"
  by (simp add: SafeHeaders_canonical canonical_filter)

lemma uint32_roundtrip:
  assumes "n < 4294967296"
  shows "get_uint32 (put_uint32 n) = n" and "length (put_uint32 n) = 4"
proof -
  let ?a = "n div 256" and ?b = "n div 256 div 256" and ?c = "n div 256 div 256 div 256"
  have "n div 16777216 = ?c" "n div 65536 = ?b" by (simp_all add: div_mult2_eq [symmetric])
  moreover have "?c mod 256 = ?c" using assms by (simp add: div_mult2_eq [symmetric] less_mult_imp_div_less)
  moreover have "256 * ?c + ?b mod 256 = ?b" "256 * ?b + ?a mod 256 = ?a" "256 * ?a + n mod 256 = n"
    by (simp_all only: mult_div_mod_eq)
  ultimately have "256 * (256 * (256 * (n div 16777216 mod 256) + n div 65536 mod 256) + n div 256 mod 256) + n mod 256 = n"
    by simp
  moreover have "n div 16777216 mod 256 = n div 16777216"
    using assms by (simp add: less_mult_imp_div_less)
  ultimately show "get_uint32 (put_uint32 n) = n"
    by (simp add: get_uint32_def put_uint32_def of_char_of algebra_simps)
qed (simp add: put_uint32_def)

lemma cacheKey_element:
  assumes "cacheKeyPattern k"
  shows "CHR ''/'' \<notin> set (k @ ''.artifact'')" and "k @ ''.artifact'' \<notin> {[], ''.'', ''..''}"
proof -
  have "CHR ''/'' \<notin> set k"
  proof
    assume "CHR ''/'' \<in> set k"
    with assms have "List.member hex_digits CHR ''/''" by (auto simp: cacheKeyPattern_def list_all_iff)
    then show False by (simp add: hex_digits_def)
  qed
  then show "CHR ''/'' \<notin> set (k @ ''.artifact'')" by simp
  have "length (k @ ''.artifact'') > 2" by simp
  then show "k @ ''.artifact'' \<notin> {[], ''.'', ''..''}" by (auto simp del: length_append)
qed

lemma suffix_key_inject:
  assumes "a @ k @ ''.artifact'' = b @ k' @ ''.artifact''" and "length k = length k'"
  shows "k = k'"
  using append_eq_append_conv [of a b "k @ ''.artifact''" "k' @ ''.artifact''"] assms by simp

lemma entryPath_inject:
  assumes "cacheKeyPattern k" and "cacheKeyPattern k'" and "entryPath s k = entryPath s k'"
  shows "k = k'"
proof -
  have last: "\<exists>pre. entryPath s k = pre @ k @ ''.artifact''" if "cacheKeyPattern k" for k
    using path_JoinN_last [OF cacheKey_element [OF that], of "''v1''" "[fss_directory s, ''v1'', _]"]
    unfolding entryPath_def Let_def by simp
  from last [OF assms(1)] last [OF assms(2)] assms show ?thesis
    by (metis suffix_key_inject cacheKeyPattern_def)
qed

lemma objectKey_inject:
  assumes "cacheKeyPattern k" and "cacheKeyPattern k'" and "objectKey s k = objectKey s k'"
  shows "k = k'"
proof -
  have last: "\<exists>pre. objectKey s k = pre @ k @ ''.artifact''" if k: "cacheKeyPattern k" for k
  proof -
    obtain pre where "path_JoinN [''v1'', take 2 k, k @ ''.artifact''] = pre @ k @ ''.artifact''"
      using path_JoinN_last [OF cacheKey_element [OF k], of "''v1''" "[''v1'', take 2 k]"] by auto
    then show ?thesis unfolding objectKey_def Let_def
      by (cases "s3_prefix s = []") (auto intro: exI [of _ pre] exI [of _ "s3_prefix s @ ''/'' @ pre"])
  qed
  from last [OF assms(1)] last [OF assms(2)] assms show ?thesis
    by (metis suffix_key_inject cacheKeyPattern_def)
qed

text \<open>Parts without a zero byte can be read back from the input of the hash.\<close>

lemma key_preimage_inject:
  assumes "list_all (\<lambda>p. CHR 0x00 \<notin> set p) ps" and "list_all (\<lambda>p. CHR 0x00 \<notin> set p) qs"
    and "key_preimage ps = key_preimage qs"
  shows "ps = qs"
proof -
  have join: "concat (map (\<lambda>p. CHR 0x00 # p) rs) = Join ([] # rs) [CHR 0x00]" for rs
  proof (induction rs)
    case (Cons r rs)
    then show ?case by (cases rs) auto
  qed simp
  have split: "Split (Join ([] # rs) [CHR 0x00]) CHR 0x00 = [] # rs" if "list_all (\<lambda>p. CHR 0x00 \<notin> set p) rs" for rs
    using that by (intro Split_Join) (auto simp: list_all_iff)
  have "Join ([] # ps) [CHR 0x00] = Join ([] # qs) [CHR 0x00]"
    using assms(3) unfolding key_preimage_def join by (rule same_append_eq [THEN iffD1])
  with split [OF assms(1)] split [OF assms(2)] show ?thesis by (metis list.inject)
qed

section \<open>The interface\<close>

definition put_bytes :: "PutRequest \<Rightarrow> string" where
  "put_bytes req = take (nat (put_Size req)) (reader_bytes (the (put_Body req)))"

text \<open>What JSON and RFC 3339 keep of a description: header text of ASCII bytes, times up to the
  year 9999. Time zero is the start of year 1.\<close>

definition ascii :: "string \<Rightarrow> bool" where
  "ascii t \<longleftrightarrow> list_all (\<lambda>c. byte c < 128) t"

definition ascii_header :: "header \<Rightarrow> bool" where
  "ascii_header h \<longleftrightarrow> list_all (\<lambda>(k, vs). ascii k \<and> list_all ascii vs) h"

definition year10000 :: time where "year10000 = 3652059 * 86400 * 1000000000"

definition storable :: "PutRequest \<Rightarrow> bool" where
  "storable req \<longleftrightarrow> canonical_header (put_Headers req) \<and> ascii_header (put_Headers req) \<and>
     0 \<le> put_StoredAt req \<and> put_ExpiresAt req < year10000"

text \<open>An entry describes what was put: every field is the one given, and the headers are the
  safe ones, in some order of the map.\<close>

definition describes :: "PutRequest \<Rightarrow> Entry \<Rightarrow> bool" where
  "describes req en \<longleftrightarrow> (\<exists>b h. en = \<lparr>ent_Headers = h, ent_Body = Some b, ent_SHA256 = put_SHA256 req,
     ent_Size = put_Size req, ent_StoredAt = put_StoredAt req, ent_ExpiresAt = put_ExpiresAt req\<rparr> \<and>
     reader_bytes b = put_bytes req \<and> mset h = mset (SafeHeaders (put_Headers req)))"

text \<open>What the proxy relies on: a stored body comes back with its description until it expires,
  keys do not interfere, and whatever Get returns is well formed and alive.\<close>

locale artifact_store =
  fixes get :: "'e \<Rightarrow> time \<Rightarrow> string \<Rightarrow> 's \<Rightarrow> store_error + Entry"
    and put :: "'e \<Rightarrow> string \<Rightarrow> PutRequest \<Rightarrow> 's \<Rightarrow> store_error option \<times> 's"
    and invar :: "'s \<Rightarrow> bool"
    and quiet :: "'e \<Rightarrow> bool"
  assumes get_put: "invar s \<Longrightarrow> put e k req s = (None, s') \<Longrightarrow> storable req \<Longrightarrow> quiet e' \<Longrightarrow>
      now < put_ExpiresAt req \<Longrightarrow> \<exists>en. get e' now k s' = Inr en \<and> describes req en"
    and get_put_expired: "invar s \<Longrightarrow> put e k req s = (None, s') \<Longrightarrow> storable req \<Longrightarrow> quiet e' \<Longrightarrow>
      put_ExpiresAt req \<le> now \<Longrightarrow> get e' now k s' = Inl ErrNotFound"
    and get_put_other: "invar s \<Longrightarrow> put e k req s = (None, s') \<Longrightarrow> k' \<noteq> k \<Longrightarrow> get e' now k' s' = get e' now k' s"
    and get_sound: "get e now k s = Inr en \<Longrightarrow> ValidateEntry en = None \<and> now < ent_ExpiresAt en"
    and invar_put: "invar s \<Longrightarrow> put e k req s = (None, s') \<Longrightarrow> invar s'"
begin

lemma put_again:
  assumes "invar s" and "put e k req s = (None, s1)" and "put e k req' s1 = (None, s2)"
    and "storable req'" and "quiet e'" and "now < put_ExpiresAt req'"
  shows "\<exists>en. get e' now k s2 = Inr en \<and> describes req' en"
  by (rule get_put [OF invar_put [OF assms(1,2)] assms(3-6)])

lemma put_elsewhere:
  assumes "invar s" and "put e k req s = (None, s1)" and "put e k' req' s1 = (None, s2)" and "k' \<noteq> k"
    and "storable req" and "quiet e'" and "now < put_ExpiresAt req"
  shows "\<exists>en. get e' now k s2 = Inr en \<and> describes req en"
  using get_put_other [OF invar_put [OF assms(1,2)] assms(3), of k e' now] assms(4)
    get_put [OF assms(1,2,5-7)] by simp

end

section \<open>The filesystem store keeps the interface\<close>

text \<open>The store relies on encoding/json to read back what it wrote, but for the order of the
  header map.\<close>

definition fs_inv :: "FileSystemStore \<Rightarrow> bool" where
  "fs_inv s \<longleftrightarrow> (\<forall>r b. fss_marshal s r = Inr b \<longrightarrow> ascii_header (frec_Headers r) \<longrightarrow> ascii (frec_SHA256 r) \<longrightarrow>
     (\<exists>h. fss_unmarshal s b = Inr (r\<lparr>frec_Headers := h\<rparr>) \<and> mset h = mset (frec_Headers r)))"

definition fs_quiet :: "fs_env \<Rightarrow> bool" where
  "fs_quiet e \<longleftrightarrow> env_io e ''open'' = None \<and> env_io e ''stat'' = None \<and> env_ctx e 0 = None"

lemma put_checks_ok:
  assumes "put_checks env k req r = Inr rb"
  shows "cacheKeyPattern k" and "ValidatePut req = None" and "r = Inr rb"
    and "0 < length rb" and "length rb \<le> maxFileRecordSize"
  using assms by (simp_all add: put_checks_def validateKey_def split: option.splits if_splits sum.splits)

lemma write_temporary_ok:
  assumes "write_temporary env req rb sha = Inr content"
  shows "content = fileMagic @ put_uint32 (length rb) @ rb @ put_bytes req"
    and "int (length (put_bytes req)) = put_Size req" and "sha (put_bytes req) = put_SHA256 req"
proof -
  obtain written e where w: "copyExactly (env_write env) (\<lambda>i. env_ctx env (Suc i)) (the (put_Body req))
      (nat (put_Size req)) = (written, e)" by fastforce
  have e: "e = None" using assms w by (simp add: write_temporary_def split: option.splits)
  have "written = put_bytes req" using copyExactly_ok w e by (simp add: put_bytes_def)
  with assms w e show "content = fileMagic @ put_uint32 (length rb) @ rb @ put_bytes req"
    "int (length (put_bytes req)) = put_Size req" "sha (put_bytes req) = put_SHA256 req"
    by (simp_all add: write_temporary_def split: option.splits if_splits)
qed

lemma FileSystemStore_Put_ok:
  assumes "FileSystemStore_Put env k req s = (None, s')"
  obtains rb where "cacheKeyPattern k" "ValidatePut req = None" "fss_marshal s (record_of req) = Inr rb"
    "0 < length rb" "length rb \<le> maxFileRecordSize"
    "int (length (put_bytes req)) = put_Size req" "fss_sha256 s (put_bytes req) = put_SHA256 req"
    "s' = s\<lparr>fss_files := (fss_files s)(entryPath s k \<mapsto>
       fileMagic @ put_uint32 (length rb) @ rb @ put_bytes req)\<rparr>"
proof -
  obtain rb where c: "put_checks env k req (fss_marshal s (record_of req)) = Inr rb"
    using assms by (auto simp: FileSystemStore_Put_def split: sum.splits)
  then obtain content where w: "write_temporary env req rb (fss_sha256 s) = Inr content"
    and s': "s' = s\<lparr>fss_files := (fss_files s)(entryPath s k \<mapsto> content)\<rparr>"
    using assms by (auto simp: FileSystemStore_Put_def split: sum.splits)
  show thesis using put_checks_ok [OF c] write_temporary_ok [OF w] s' by (intro that [of rb]) simp_all
qed

lemma FileSystemStore_Put_fails:
  assumes "fst (FileSystemStore_Put env k req s) \<noteq> None"
  shows "snd (FileSystemStore_Put env k req s) = s"
  using assms by (auto simp: FileSystemStore_Put_def split: sum.splits)

lemma ValidatePut_entry:
  assumes "ValidatePut req = None"
  shows "ValidateEntry \<lparr>ent_Headers = h, ent_Body = Some b, ent_SHA256 = put_SHA256 req, ent_Size = put_Size req,
    ent_StoredAt = put_StoredAt req, ent_ExpiresAt = put_ExpiresAt req\<rparr> = None"
  using assms by (simp add: ValidateEntry_def ValidatePut_def split: if_splits)

lemma parse_file_record:
  assumes "0 < length rb" and "length rb \<le> maxFileRecordSize" and "fss_unmarshal s rb = Inr rec"
    and "frec_Size rec = int (length body)"
    and entry: "entry = \<lparr>ent_Headers = SafeHeaders (frec_Headers rec), ent_Body = Some [(body, ReadEOF)],
      ent_SHA256 = frec_SHA256 rec, ent_Size = frec_Size rec,
      ent_StoredAt = frec_StoredAt rec, ent_ExpiresAt = frec_ExpiresAt rec\<rparr>"
    and "ValidateEntry entry = None" and "io ''stat'' = None"
  shows "parse_file s io now (fileMagic @ put_uint32 (length rb) @ rb @ body) =
    (if Entry_Expired now entry then Inl ErrNotFound else Inr entry)"
proof -
  have u: "get_uint32 (put_uint32 (length rb)) = length rb" "length (put_uint32 (length rb)) = 4"
    using uint32_roundtrip [of "length rb"] assms(2) by (simp_all add: maxFileRecordSize_def)
  have m: "length fileMagic = 8" by (simp add: fileMagic_def)
  show ?thesis
    using assms(1-4,6,7) unfolding parse_file_def Let_def m entry
    by (simp add: u m)
qed


lemma SafeHeaders_mset:
  assumes "canonical_header hs" and "mset h = mset hs"
  shows "mset (SafeHeaders h) = mset (SafeHeaders hs)"
proof -
  have "set h = set hs" using assms(2) by (metis set_mset_mset)
  moreover have "distinct (map fst h)"
    using assms by (metis canonical_header_def mset_map mset_eq_imp_distinct_iff)
  ultimately have "canonical_header h" using assms(1) by (simp add: canonical_header_def list_all_iff)
  then show ?thesis using assms by (simp add: SafeHeaders_canonical)
qed

lemma lower_char_id: "c \<notin> set upper_letters \<Longrightarrow> lower_char c = c"
  by (auto simp: lower_char_def dest: set_zip_leftD map_of_SomeD split: option.split)

lemma unhex_ascii: "unhex c \<noteq> None \<Longrightarrow> byte c < 128"
proof -
  assume "unhex c \<noteq> None"
  then have "lower_char c \<in> set hex_digits" by (simp add: unhex_def Let_def split: if_splits)
  moreover have "lower_char c = c" if "c \<notin> set upper_letters" by (rule lower_char_id [OF that])
  moreover have "byte c < 128" if "c \<in> set upper_letters" using that by (auto simp: upper_letters_def)
  moreover have "byte c < 128" if "c \<in> set hex_digits" using that by (auto simp: hex_digits_def)
  ultimately show "byte c < 128" by metis
qed

lemma storable_record:
  assumes "storable req" and "ValidatePut req = None"
  shows "ascii_header (frec_Headers (record_of req))" and "ascii (frec_SHA256 (record_of req))"
proof -
  show "ascii_header (frec_Headers (record_of req))"
    using assms(1) by (auto simp: storable_def SafeHeaders_canonical ascii_header_def list_all_iff)
  have "list_all (\<lambda>c. unhex c \<noteq> None) (put_SHA256 req)"
    using assms(2) by (auto simp: ValidatePut_def validSHA256_def split: if_splits)
  then show "ascii (frec_SHA256 (record_of req))" by (auto simp: ascii_def list_all_iff unhex_ascii)
qed

lemma FileSystemStore_Get_file:
  assumes "cacheKeyPattern k" and "fs_quiet e"
  shows "FileSystemStore_Get e now k s = (case fss_files s (entryPath s k) of
    None \<Rightarrow> Inl ErrNotFound | Some content \<Rightarrow> parse_file s (env_io e) now content)"
  using assms by (simp add: FileSystemStore_Get_def validateKey_def fs_quiet_def)

text \<open>Reading a key after a Put of it: the entry, or nothing once it is expired.\<close>

lemma fs_get_put:
  assumes inv: "fs_inv s" and put: "FileSystemStore_Put e k req s = (None, s')"
    and st: "storable req" and q: "fs_quiet e'"
  shows "\<exists>en. describes req en \<and>
    FileSystemStore_Get e' now k s' = (if put_ExpiresAt req \<le> now then Inl ErrNotFound else Inr en)"
proof -
  obtain rb where ok: "cacheKeyPattern k" "ValidatePut req = None" "fss_marshal s (record_of req) = Inr rb"
    "0 < length rb" "length rb \<le> maxFileRecordSize" "int (length (put_bytes req)) = put_Size req"
    and s': "s' = s\<lparr>fss_files := (fss_files s)(entryPath s k \<mapsto>
       fileMagic @ put_uint32 (length rb) @ rb @ put_bytes req)\<rparr>"
    using FileSystemStore_Put_ok [OF put] by metis
  obtain h where h: "fss_unmarshal s rb = Inr ((record_of req)\<lparr>frec_Headers := h\<rparr>)"
    and hm: "mset h = mset (SafeHeaders (put_Headers req))"
    using inv ok(3) storable_record [OF st ok(2)] by (fastforce simp: fs_inv_def)
  let ?en = "\<lparr>ent_Headers = SafeHeaders h, ent_Body = Some [(put_bytes req, ReadEOF)],
    ent_SHA256 = put_SHA256 req, ent_Size = put_Size req, ent_StoredAt = put_StoredAt req,
    ent_ExpiresAt = put_ExpiresAt req\<rparr>"
  have can: "canonical_header (put_Headers req)" using st by (simp add: storable_def)
  have "mset (SafeHeaders h) = mset (SafeHeaders (put_Headers req))"
    using SafeHeaders_mset [of "SafeHeaders (put_Headers req)" h] hm can
    by (simp add: SafeHeaders_idem) (simp add: SafeHeaders_canonical canonical_filter)
  then have "describes req ?en" by (simp add: describes_def)
  moreover have "parse_file s' (env_io e') now (fileMagic @ put_uint32 (length rb) @ rb @ put_bytes req) =
      (if Entry_Expired now ?en then Inl ErrNotFound else Inr ?en)"
    by (rule parse_file_record [where rec = "(record_of req)\<lparr>frec_Headers := h\<rparr>"])
      (use ok h s' q ValidatePut_entry in \<open>simp_all add: fs_quiet_def\<close>)
  moreover have "entryPath s' k = entryPath s k" by (simp add: entryPath_def s')
  ultimately show ?thesis
    using FileSystemStore_Get_file [OF ok(1) q, of now s'] s' by (auto simp: Entry_Expired_def)
qed

lemma fs_get_put_other:
  assumes "fs_inv s" and put: "FileSystemStore_Put e k req s = (None, s')" and "k' \<noteq> k"
  shows "FileSystemStore_Get e' now k' s' = FileSystemStore_Get e' now k' s"
proof (cases "cacheKeyPattern k'")
  case True
  obtain content where k: "cacheKeyPattern k" and s': "s' = s\<lparr>fss_files := (fss_files s)(entryPath s k \<mapsto> content)\<rparr>"
    using FileSystemStore_Put_ok [OF put] by metis
  have "entryPath s k' \<noteq> entryPath s k" using entryPath_inject [OF True k] assms(3) by blast
  moreover have "entryPath s' k' = entryPath s k'" by (simp add: entryPath_def s')
  moreover have um: "fss_unmarshal s' = fss_unmarshal s" by (simp add: s')
  moreover have "parse_file s' = parse_file s" by (intro ext) (simp only: parse_file_def um)
  moreover have "fss_files s' (entryPath s k') = fss_files s (entryPath s k')" using \<open>entryPath s k' \<noteq> entryPath s k\<close> by (simp add: s')
  ultimately show ?thesis by (simp only: FileSystemStore_Get_def)
qed (simp add: FileSystemStore_Get_def validateKey_def)

lemma parse_file_sound:
  assumes "parse_file s io now content = Inr en"
  shows "ValidateEntry en = None \<and> now < ent_ExpiresAt en"
  using assms by (auto simp: parse_file_def Let_def Entry_Expired_def split: if_splits sum.splits option.splits)

lemma fs_get_sound:
  assumes "FileSystemStore_Get e now k s = Inr en"
  shows "ValidateEntry en = None \<and> now < ent_ExpiresAt en"
proof -
  obtain content where "parse_file s (env_io e) now content = Inr en"
    using assms by (auto simp: FileSystemStore_Get_def split: option.splits)
  then show ?thesis by (rule parse_file_sound)
qed

lemma fs_invar_put: "fs_inv s \<Longrightarrow> FileSystemStore_Put e k req s = (None, s') \<Longrightarrow> fs_inv s'"
proof -
  assume inv: "fs_inv s" and put: "FileSystemStore_Put e k req s = (None, s')"
  obtain fl where "s' = s\<lparr>fss_files := fl\<rparr>" by (rule FileSystemStore_Put_ok [OF put])
  with inv show "fs_inv s'" by (simp add: fs_inv_def)
qed

lemma fs_get_alive:
  assumes "fs_inv s" and "FileSystemStore_Put e k req s = (None, s')" and "storable req" and "fs_quiet e'" and "now < put_ExpiresAt req"
  shows "\<exists>en. FileSystemStore_Get e' now k s' = Inr en \<and> describes req en"
  using fs_get_put [OF assms(1-4), of now] assms(5) by auto

lemma fs_get_expired:
  assumes "fs_inv s" and "FileSystemStore_Put e k req s = (None, s')" and "storable req" and "fs_quiet e'" and "put_ExpiresAt req \<le> now"
  shows "FileSystemStore_Get e' now k s' = Inl ErrNotFound"
  using fs_get_put [OF assms(1-4), of now] assms(5) by auto

interpretation fs: artifact_store FileSystemStore_Get FileSystemStore_Put fs_inv fs_quiet
  by unfold_locales (fact fs_get_alive fs_get_expired fs_get_put_other fs_get_sound fs_invar_put)+

section \<open>The S3 store keeps the interface\<close>

text \<open>The store relies on the encodings being inverse to each other, and on the bucket: an
  object put without an error is what a later GetObject of its key returns, with the metadata in
  some order, and no other object changes.\<close>

definition s3_encodings :: "'o S3Store \<Rightarrow> bool" where
  "s3_encodings s \<longleftrightarrow> (\<forall>t. 0 \<le> t \<longrightarrow> t < year10000 \<longrightarrow> s3_parse_time s (s3_fmt_time s t) = Inr t) \<and>
     (\<forall>h. ascii_header h \<longrightarrow> (\<exists>h'. s3_unmarshal s (s3_marshal s h) = Inr h' \<and> mset h' = mset h)) \<and>
     (\<forall>x. s3_b64decode s (s3_b64encode s x) = Inr x) \<and> (\<forall>h. s3_b64encode s (s3_marshal s h) \<noteq> [])"

definition stored_object :: "PutObjectInput \<Rightarrow> GetObjectOutput \<Rightarrow> bool" where
  "stored_object inp out \<longleftrightarrow>
     (\<exists>b. goo_Body out = Some b \<and> reader_bytes b = take (nat (poi_ContentLength inp)) (reader_bytes (poi_Body inp))) \<and>
     goo_ContentLength out = Some (poi_ContentLength inp) \<and> mset (goo_Metadata out) = mset (poi_Metadata inp)"

definition s3_bucket_law :: "'o S3Store \<Rightarrow> bool" where
  "s3_bucket_law s \<longleftrightarrow> (\<forall>net inp objs objs'. s3_PutObject s net inp objs = (None, objs') \<longrightarrow>
     (\<exists>out. s3_GetObject s None \<lparr>goi_Bucket = poi_Bucket inp, goi_Key = poi_Key inp,
        goi_ExpectedBucketOwner = poi_ExpectedBucketOwner inp\<rparr> objs' = Inr out \<and> stored_object inp out) \<and>
     (\<forall>net' g. goi_Key g \<noteq> poi_Key inp \<longrightarrow> s3_GetObject s net' g objs' = s3_GetObject s net' g objs))"

definition s3_inv :: "'o S3Store \<Rightarrow> bool" where
  "s3_inv s \<longleftrightarrow> s3_encodings s \<and> s3_bucket_law s"

lemma metadataValue_mset:
  assumes "mset m = mset ms" and "(k, v) \<in> set ms" and "EqualFold k key"
    and "\<And>k' v'. (k', v') \<in> set ms \<Longrightarrow> EqualFold k' key \<Longrightarrow> v' = v"
  shows "metadataValue m key = v"
proof -
  have st: "set m = set ms" using assms(1) by (metis set_mset_mset)
  obtain kv where f: "find (\<lambda>(candidate, _). EqualFold candidate key) m = Some kv"
    using assms(2,3) st by (cases "find (\<lambda>(candidate, _). EqualFold candidate key) m") (auto simp: find_None_iff)
  then have "kv \<in> set m" "EqualFold (fst kv) key" by (auto simp: find_Some_iff in_set_conv_nth)
  then have "snd kv = v" using assms(4) unfolding st by (metis prod.collapse)
  with f show ?thesis by (cases kv) (simp add: metadataValue_def)
qed

lemma put_object_metadata:
  assumes "mset m = mset (poi_Metadata (put_object_input s k req hdr))"
  shows "metadataValue m ''pfw-version'' = s3MetadataVersion" and "metadataValue m ''pfw-sha256'' = put_SHA256 req"
    and "metadataValue m ''pfw-stored-at'' = s3_fmt_time s (put_StoredAt req)"
    and "metadataValue m ''pfw-expires-at'' = s3_fmt_time s (put_ExpiresAt req)"
    and "metadataValue m ''pfw-headers'' = hdr"
proof -
  note val = metadataValue_mset [OF assms, unfolded put_object_input_def PutObjectInput.simps]
  show "metadataValue m ''pfw-version'' = s3MetadataVersion"
    by (rule val [of "''pfw-version''"]) (auto simp: go_eval)
  show "metadataValue m ''pfw-sha256'' = put_SHA256 req"
    by (rule val [of "''pfw-sha256''"]) (auto simp: go_eval)
  show "metadataValue m ''pfw-stored-at'' = s3_fmt_time s (put_StoredAt req)"
    by (rule val [of "''pfw-stored-at''"]) (auto simp: go_eval)
  show "metadataValue m ''pfw-expires-at'' = s3_fmt_time s (put_ExpiresAt req)"
    by (rule val [of "''pfw-expires-at''"]) (auto simp: go_eval)
  show "metadataValue m ''pfw-headers'' = hdr"
    by (rule val [of "''pfw-headers''"]) (auto simp: go_eval)
qed

lemma s3_with_objects:
  "objectKey (s\<lparr>s3_objects := objs\<rparr>) = objectKey s" "s3_owner (s\<lparr>s3_objects := objs\<rparr>) = s3_owner s"
  "decodeS3Headers (s\<lparr>s3_objects := objs\<rparr>) = decodeS3Headers s"
  by (simp_all add: objectKey_def s3_owner_def decodeS3Headers_def fun_eq_iff Let_def split: sum.split)

lemma S3Store_Put_ok:
  assumes "S3Store_Put net k req s = (None, s')"
  obtains objs hdr where "cacheKeyPattern k" "ValidatePut req = None"
    "hdr = s3_b64encode s (s3_marshal s (SafeHeaders (put_Headers req)))"
    "s3_PutObject s net (put_object_input s k req hdr) (s3_objects s) = (None, objs)"
    "s' = s\<lparr>s3_objects := objs\<rparr>"
proof -
  obtain hdr where e: "encodeS3Headers s (SafeHeaders (put_Headers req)) = Inr hdr"
    using assms by (auto simp: S3Store_Put_def split: option.splits sum.splits)
  obtain objs where "cacheKeyPattern k" "ValidatePut req = None"
    "s3_PutObject s net (put_object_input s k req hdr) (s3_objects s) = (None, objs)" "s' = s\<lparr>s3_objects := objs\<rparr>"
    using assms e by (auto simp: S3Store_Put_def validateKey_def split: option.splits prod.splits if_splits)
  moreover have "hdr = s3_b64encode s (s3_marshal s (SafeHeaders (put_Headers req)))"
    using e by (simp add: encodeS3Headers_def Let_def split: if_splits)
  ultimately show thesis using that by blast
qed

lemma S3Store_Get_output:
  assumes "cacheKeyPattern k" and "s3_GetObject s net \<lparr>goi_Bucket = s3_bucket s, goi_Key = objectKey s k,
      goi_ExpectedBucketOwner = s3_owner s\<rparr> (s3_objects s) = Inr out"
    and "goo_Body out = Some b" and "metadataValue (goo_Metadata out) ''pfw-version'' = s3MetadataVersion"
    and "s3_parse_time s (metadataValue (goo_Metadata out) ''pfw-expires-at'') = Inr ex"
    and "goo_ContentLength out = Some len"
    and "s3_parse_time s (metadataValue (goo_Metadata out) ''pfw-stored-at'') = Inr sa"
    and "decodeS3Headers s (metadataValue (goo_Metadata out) ''pfw-headers'') = Inr h"
    and "en = \<lparr>ent_Headers = h, ent_Body = Some b, ent_SHA256 = metadataValue (goo_Metadata out) ''pfw-sha256'',
      ent_Size = len, ent_StoredAt = sa, ent_ExpiresAt = ex\<rparr>"
    and "ValidateEntry en = None"
  shows "S3Store_Get net now k s = (if ex \<le> now then Inl ErrNotFound else Inr en)"
  using assms by (simp add: S3Store_Get_def validateKey_def)

lemma s3_get_put:
  assumes inv: "s3_inv s" and put: "S3Store_Put e k req s = (None, s')" and st: "storable req"
  shows "\<exists>en. describes req en \<and>
    S3Store_Get None now k s' = (if put_ExpiresAt req \<le> now then Inl ErrNotFound else Inr en)"
proof -
  obtain objs hdr where ok: "cacheKeyPattern k" "ValidatePut req = None"
    and hdr: "hdr = s3_b64encode s (s3_marshal s (SafeHeaders (put_Headers req)))"
    and po: "s3_PutObject s e (put_object_input s k req hdr) (s3_objects s) = (None, objs)"
    and s': "s' = s\<lparr>s3_objects := objs\<rparr>"
    using S3Store_Put_ok [OF put] by metis
  let ?inp = "put_object_input s k req hdr"
  obtain out where out: "s3_GetObject s None \<lparr>goi_Bucket = poi_Bucket ?inp, goi_Key = poi_Key ?inp,
      goi_ExpectedBucketOwner = poi_ExpectedBucketOwner ?inp\<rparr> objs = Inr out" "stored_object ?inp out"
    using inv po unfolding s3_inv_def s3_bucket_law_def by blast
  then obtain b where b: "goo_Body out = Some b" "reader_bytes b = put_bytes req"
    and len: "goo_ContentLength out = Some (put_Size req)"
    and meta: "mset (goo_Metadata out) = mset (poi_Metadata ?inp)"
    by (auto simp: stored_object_def put_object_input_def put_bytes_def)
  note m = put_object_metadata [OF meta]
  obtain h where h: "s3_unmarshal s (s3_marshal s (SafeHeaders (put_Headers req))) = Inr h"
    and hm: "mset h = mset (SafeHeaders (put_Headers req))"
    using inv storable_record(1) [OF st ok(2)] by (fastforce simp: s3_inv_def s3_encodings_def)
  have can: "canonical_header (put_Headers req)" using st by (simp add: storable_def)
  have sh: "mset (SafeHeaders h) = mset (SafeHeaders (put_Headers req))"
    using SafeHeaders_mset [of "SafeHeaders (put_Headers req)" h] hm can
    by (simp add: SafeHeaders_idem) (simp add: SafeHeaders_canonical canonical_filter)
  have dec: "decodeS3Headers s' hdr = Inr (SafeHeaders h)"
    using inv h by (simp add: decodeS3Headers_def s' hdr s3_inv_def s3_encodings_def)
  have "put_StoredAt req < put_ExpiresAt req" using ok(2) by (auto simp: ValidatePut_def split: if_splits)
  then have times: "s3_parse_time s (s3_fmt_time s (put_StoredAt req)) = Inr (put_StoredAt req)"
    "s3_parse_time s (s3_fmt_time s (put_ExpiresAt req)) = Inr (put_ExpiresAt req)"
    using inv st by (auto simp: s3_inv_def s3_encodings_def storable_def)
  let ?en = "\<lparr>ent_Headers = SafeHeaders h, ent_Body = Some b, ent_SHA256 = put_SHA256 req, ent_Size = put_Size req,
    ent_StoredAt = put_StoredAt req, ent_ExpiresAt = put_ExpiresAt req\<rparr>"
  have key: "objectKey s' k = objectKey s k" "s3_owner s' = s3_owner s" by (simp_all add: s' s3_with_objects)
  have go: "s3_GetObject s' None \<lparr>goi_Bucket = s3_bucket s', goi_Key = objectKey s' k,
      goi_ExpectedBucketOwner = s3_owner s'\<rparr> (s3_objects s') = Inr out"
    unfolding key using out(1) by (simp add: s' put_object_input_def)
  have "S3Store_Get None now k s' = (if put_ExpiresAt req \<le> now then Inl ErrNotFound else Inr ?en)"
    by (rule S3Store_Get_output [OF ok(1) go b(1) m(1) _ len])
      (use m times dec ValidatePut_entry [OF ok(2)] s' in simp_all)
  moreover have "describes req ?en" using sh b by (simp add: describes_def)
  ultimately show ?thesis by blast
qed

lemma s3_get_put_other:
  assumes inv: "s3_inv s" and put: "S3Store_Put e k req s = (None, s')" and "k' \<noteq> k"
  shows "S3Store_Get e' now k' s' = S3Store_Get e' now k' s"
proof (cases "cacheKeyPattern k'")
  case True
  obtain objs hdr where k: "cacheKeyPattern k"
    and po: "s3_PutObject s e (put_object_input s k req hdr) (s3_objects s) = (None, objs)"
    and s': "s' = s\<lparr>s3_objects := objs\<rparr>"
    using S3Store_Put_ok [OF put] by metis
  have ne: "objectKey s k' \<noteq> poi_Key (put_object_input s k req hdr)"
    using objectKey_inject [OF True k, of s] assms(3) by (auto simp: put_object_input_def)
  have same: "s3_GetObject s e' g objs = s3_GetObject s e' g (s3_objects s)"
    if "goi_Key g = objectKey s k'" for g
    using inv po ne that unfolding s3_inv_def s3_bucket_law_def by metis
  have eqs: "objectKey s' k' = objectKey s k'" "s3_owner s' = s3_owner s" "s3_bucket s' = s3_bucket s"
    "s3_GetObject s' = s3_GetObject s" "s3_objects s' = objs" "s3_parse_time s' = s3_parse_time s"
    "decodeS3Headers s' = decodeS3Headers s"
    by (simp_all add: s' s3_with_objects)
  show ?thesis by (simp only: S3Store_Get_def eqs same GetObjectInput.simps)
qed (simp add: S3Store_Get_def validateKey_def)

lemma s3_get_sound:
  assumes "S3Store_Get e now k s = Inr en"
  shows "ValidateEntry en = None \<and> now < ent_ExpiresAt en"
  using assms by (auto simp: S3Store_Get_def Let_def split: option.splits sum.splits if_splits)

lemma s3_invar_put: "s3_inv s \<Longrightarrow> S3Store_Put e k req s = (None, s') \<Longrightarrow> s3_inv s'"
proof -
  assume inv: "s3_inv s" and put: "S3Store_Put e k req s = (None, s')"
  obtain objs where "s' = s\<lparr>s3_objects := objs\<rparr>" by (rule S3Store_Put_ok [OF put])
  with inv show "s3_inv s'" by (simp add: s3_inv_def s3_encodings_def s3_bucket_law_def)
qed

lemma s3_get_alive:
  assumes "s3_inv s" and "S3Store_Put e k req s = (None, s')" and "storable req" and "e' = None" and "now < put_ExpiresAt req"
  shows "\<exists>en. S3Store_Get e' now k s' = Inr en \<and> describes req en"
  using s3_get_put [OF assms(1-3), of now] assms(4,5) by auto

lemma s3_get_expired:
  assumes "s3_inv s" and "S3Store_Put e k req s = (None, s')" and "storable req" and "e' = None" and "put_ExpiresAt req \<le> now"
  shows "S3Store_Get e' now k s' = Inl ErrNotFound"
  using s3_get_put [OF assms(1-3), of now] assms(4,5) by auto

interpretation s3: artifact_store S3Store_Get S3Store_Put s3_inv "\<lambda>net. net = None"
  by unfold_locales (fact s3_get_alive s3_get_expired s3_get_put_other s3_get_sound s3_invar_put)+

section \<open>Example stores\<close>

definition example_key :: string where "example_key = replicate 64 CHR ''a''"

definition example_put :: PutRequest where
  "example_put = \<lparr>put_Headers = [(''Content-Type'', [''x'']), (''Set-Cookie'', [''y''])],
     put_Body = Some [(''ab'', ReadOK), (''c'', ReadEOF)], put_SHA256 = example_key, put_Size = 3,
     put_StoredAt = 10, put_ExpiresAt = 20\<rparr>"

definition example_env :: fs_env where
  "example_env = \<lparr>env_io = (\<lambda>_. None), env_write = (\<lambda>_. None), env_ctx = (\<lambda>_. None)\<rparr>"

text \<open>A text form of headers that can be read back.\<close>

definition enc_str :: "string \<Rightarrow> string" where
  "enc_str t = concat (map (\<lambda>c. [CHR ''c'', c]) t) @ ''e''"

fun dec_str :: "string \<Rightarrow> string \<times> string" where
  "dec_str (x # c # r) = (if x = CHR ''c'' then (c # fst (dec_str r), snd (dec_str r)) else ([], c # r))"
| "dec_str _ = ([], [])"

definition enc_list :: "('a \<Rightarrow> string) \<Rightarrow> 'a list \<Rightarrow> string" where
  "enc_list f xs = concat (map (\<lambda>x. CHR ''c'' # f x) xs) @ ''e''"

fun dec_list :: "(string \<Rightarrow> 'a \<times> string) \<Rightarrow> nat \<Rightarrow> string \<Rightarrow> 'a list \<times> string" where
  "dec_list f (Suc n) (CHR ''c'' # r) = (case f r of (x, r') \<Rightarrow> (case dec_list f n r' of (xs, r'') \<Rightarrow> (x # xs, r'')))"
| "dec_list f n r = ([], drop 1 r)"

definition enc_header :: "header \<Rightarrow> string" where
  "enc_header = enc_list (\<lambda>(k, vs). enc_str k @ enc_list enc_str vs)"

definition dec_header :: "string \<Rightarrow> header" where
  "dec_header t = fst (dec_list (\<lambda>r. case dec_str r of (k, r') \<Rightarrow>
     (case dec_list dec_str (length t) r' of (vs, r'') \<Rightarrow> ((k, vs), r''))) (length t) t)"

lemma dec_enc_str: "r \<noteq> [] \<Longrightarrow> dec_str (enc_str t @ r) = (t, r)"
  by (induction t) (auto simp: enc_str_def neq_Nil_conv)

lemma dec_enc_list:
  assumes "\<And>x r. x \<in> set xs \<Longrightarrow> r \<noteq> [] \<Longrightarrow> d (f x @ r) = (x, r)" and "length xs \<le> n"
  shows "dec_list d n (enc_list f xs @ r) = (xs, r)"
  using assms
proof (induction xs arbitrary: n)
  case Nil
  then show ?case by (cases n) (auto simp: enc_list_def)
next
  case (Cons x xs)
  then obtain m where n: "n = Suc m" by (cases n) auto
  have "enc_list f (x # xs) @ r = CHR ''c'' # f x @ (enc_list f xs @ r)" by (simp add: enc_list_def)
  moreover have "enc_list f xs @ r \<noteq> []" by (simp add: enc_list_def)
  ultimately show ?case using Cons n by simp
qed

lemma enc_list_length: "x \<in> set xs \<Longrightarrow> length (f x) < length (enc_list f xs)" "length xs < length (enc_list f xs)"
proof (induction xs)
  case (Cons y xs)
  { case 1 then show ?case using Cons by (auto simp: enc_list_def) }
  { case 2 then show ?case using Cons by (auto simp: enc_list_def) }
qed (simp_all add: enc_list_def)

lemma dec_enc_header: "dec_header (enc_header h) = h"
proof -
  let ?n = "length (enc_header h)"
  have inner: "dec_list dec_str ?n (enc_list enc_str vs @ r) = (vs, r)" if "(k, vs) \<in> set h" for k vs r
  proof (rule dec_enc_list)
    have "length (enc_str k @ enc_list enc_str vs) < ?n"
      unfolding enc_header_def using enc_list_length(1) [OF that, of "\<lambda>(k, vs). enc_str k @ enc_list enc_str vs"] by simp
    then show "length vs \<le> ?n" using enc_list_length(2) [of vs enc_str] by simp
  qed (rule dec_enc_str)
  have "dec_list (\<lambda>r. case dec_str r of (k, r') \<Rightarrow> (case dec_list dec_str ?n r' of (vs, r'') \<Rightarrow> ((k, vs), r'')))
      ?n (enc_header h @ []) = (h, [])"
    unfolding enc_header_def
  proof (rule dec_enc_list)
    fix x r assume x: "x \<in> set h" and "(r::string) \<noteq> []"
    obtain k vs where kv: "x = (k, vs)" by (cases x)
    have "enc_list enc_str vs @ r \<noteq> []" by (simp add: enc_list_def)
    with inner [of k vs r] x kv show "(case dec_str ((case x of (k, vs) \<Rightarrow> enc_str k @ enc_list enc_str vs) @ r) of (k, r') \<Rightarrow>
        (case dec_list dec_str (length (enc_list (\<lambda>(k, vs). enc_str k @ enc_list enc_str vs) h)) r' of
           (vs, r'') \<Rightarrow> ((k, vs), r''))) = (x, r)"
      by (simp add: dec_enc_str enc_header_def)
  qed (simp add: enc_list_length(2) less_imp_le)
  then show ?thesis by (simp add: dec_header_def)
qed

text \<open>A filesystem store that can write one record, and a bucket that is a map from keys to
  objects.\<close>

definition example_fs :: FileSystemStore where
  "example_fs = \<lparr>fss_directory = ''/var/cache'',
     fss_marshal = (\<lambda>r. if r = record_of example_put then Inr ''{}'' else Inl ''unsupported''),
     fss_unmarshal = (\<lambda>b. if b = ''{}'' then Inr (record_of example_put) else Inl ''syntax''),
     fss_sha256 = (\<lambda>_. example_key), fss_files = (\<lambda>_. None)\<rparr>"

definition example_s3 :: "(string \<Rightarrow> PutObjectInput option) S3Store" where
  "example_s3 = \<lparr>s3_bucket = ''artifacts'', s3_prefix = ''pfw'', s3_expectedBucketOwner = [],
     s3_GetObject = (\<lambda>net g objs. case net of Some err \<Rightarrow> Inl err | None \<Rightarrow>
       (case objs (goi_Key g) of
          None \<Rightarrow> Inl \<lparr>s3e_NoSuchKey = True, s3e_Code = None, s3e_Text = ''missing''\<rparr>
        | Some inp \<Rightarrow> Inr \<lparr>goo_Body = Some [(take (nat (poi_ContentLength inp)) (reader_bytes (poi_Body inp)), ReadEOF)],
            goo_Metadata = poi_Metadata inp, goo_ContentLength = Some (poi_ContentLength inp)\<rparr>)),
     s3_PutObject = (\<lambda>net inp objs. case net of Some err \<Rightarrow> (Some err, objs) | None \<Rightarrow> (None, objs(poi_Key inp \<mapsto> inp))),
     s3_objects = (\<lambda>_. None), s3_fmt_time = (\<lambda>t. replicate (nat t) CHR ''.''),
     s3_parse_time = (\<lambda>t. Inr (int (length t))), s3_marshal = enc_header, s3_unmarshal = (\<lambda>t. Inr (dec_header t)),
     s3_b64encode = (\<lambda>t. t), s3_b64decode = Inr\<rparr>"

lemma example_headers: "SafeHeaders (put_Headers example_put) = [(''Content-Type'', [''x''])]"
  by (simp add: SafeHeaders_def example_put_def safe_names_def header_Add_def header_Values_def go_eval
      CanonicalHeaderKey_def header_token_def)

lemma example_valid: "cacheKeyPattern example_key" "ValidatePut example_put = None"
  by (simp_all add: cacheKeyPattern_def ValidatePut_def validSHA256_def example_put_def example_key_def IsZero_def
      list_all_length hex_digits_def unhex_def go_eval)

lemma example_storable: "storable example_put"
  by (simp add: storable_def example_put_def canonical_header_def ascii_header_def ascii_def year10000_def
      CanonicalHeaderKey_def header_token_def go_eval)

lemma example_quiet: "fs_quiet example_env"
  by (simp add: fs_quiet_def example_env_def)

lemma example_fs_inv: "fs_inv example_fs"
  by (auto simp: fs_inv_def example_fs_def)

lemmas example_eval = FileSystemStore_Put_def put_checks_def write_temporary_def example_valid validateKey_def
  example_env_def example_fs_def maxFileRecordSize_def copyExactly_def copy_loop.simps

lemma example_fs_put: "\<exists>s'. FileSystemStore_Put example_env example_key example_put example_fs = (None, s')"
  by (simp add: example_eval) (simp add: example_put_def copy_loop.simps)

lemma example_s3_inv: "s3_inv example_s3"
proof -
  have "enc_header h \<noteq> []" for h by (simp add: enc_header_def enc_list_def)
  then have "s3_encodings example_s3" by (auto simp: s3_encodings_def example_s3_def dec_enc_header)
  moreover have "s3_bucket_law example_s3"
    by (auto simp: s3_bucket_law_def example_s3_def stored_object_def split: option.splits)
  ultimately show ?thesis by (simp add: s3_inv_def)
qed

lemma example_s3_put: "\<exists>s'. S3Store_Put None example_key example_put example_s3 = (None, s')"
  by (simp add: S3Store_Put_def validateKey_def example_valid encodeS3Headers_def example_headers)
    (simp add: example_s3_def enc_header_def enc_list_def enc_str_def maxS3HeaderMetadataSize_def)

section \<open>What the stores guarantee\<close>

text \<open>C26: An artifact stored in the filesystem cache comes back byte for byte, with its
  checksum, times and safe headers, until it expires; from then on it is not found. The store has
  checked the body against the announced size and checksum, and no other key is affected.\<close>

theorem filesystem_roundtrip:
  assumes "fs_inv s" and put: "FileSystemStore_Put e k req s = (None, s')" and "storable req" and "fs_quiet e'"
  shows "(if put_ExpiresAt req \<le> now then FileSystemStore_Get e' now k s' = Inl ErrNotFound
      else \<exists>en. FileSystemStore_Get e' now k s' = Inr en \<and> describes req en)
    \<and> fss_sha256 s (put_bytes req) = put_SHA256 req \<and> int (length (put_bytes req)) = put_Size req
    \<and> (\<forall>k' e'' now'. if k' = k then True else
        FileSystemStore_Get e'' now' k' s' = FileSystemStore_Get e'' now' k' s)"
proof -
  have "fss_sha256 s (put_bytes req) = put_SHA256 req" "int (length (put_bytes req)) = put_Size req"
    by (rule FileSystemStore_Put_ok [OF put]; assumption)+
  then show ?thesis
    using fs.get_put [OF assms, of now] fs.get_put_expired [OF assms, of now] fs.get_put_other [OF assms(1,2)]
    by auto
qed

theorem filesystem_roundtrip_witness:
  "\<exists>s'. FileSystemStore_Put example_env example_key example_put example_fs = (None, s') \<and>
     (\<exists>en. FileSystemStore_Get example_env 15 example_key s' = Inr en \<and> describes example_put en) \<and>
     FileSystemStore_Get example_env 20 example_key s' = Inl ErrNotFound"
proof -
  obtain s' where put: "FileSystemStore_Put example_env example_key example_put example_fs = (None, s')"
    using example_fs_put by blast
  show ?thesis
    using filesystem_roundtrip [OF example_fs_inv put example_storable example_quiet, of 15]
      filesystem_roundtrip [OF example_fs_inv put example_storable example_quiet, of 20] put
    by (auto simp: example_put_def)
qed

text \<open>A Put that fails, at whatever point, leaves the filesystem cache as it was: a reader
  never sees part of an entry.\<close>

theorem filesystem_put_atomic:
  assumes "FileSystemStore_Put e k req s = (Some err, s')"
  shows "s' = s"
  using FileSystemStore_Put_fails [of e k req s] assms by simp

theorem filesystem_put_atomic_witness:
  "\<exists>err s'. FileSystemStore_Put (example_env\<lparr>env_write := (\<lambda>_. Some ''disk full'')\<rparr>) example_key example_put example_fs
     = (Some err, s') \<and> s' = example_fs"
proof -
  have "fst (FileSystemStore_Put (example_env\<lparr>env_write := (\<lambda>_. Some ''disk full'')\<rparr>) example_key example_put example_fs)
      = Some (StoreError ''disk full'')"
    by (simp add: example_eval) (simp add: example_put_def)
  then obtain s' where
    put: "FileSystemStore_Put (example_env\<lparr>env_write := (\<lambda>_. Some ''disk full'')\<rparr>) example_key example_put example_fs
      = (Some (StoreError ''disk full''), s')" by (metis prod.collapse)
  show ?thesis using put filesystem_put_atomic [OF put] by blast
qed

text \<open>C27: The S3 store keeps what it is given in the same way, on a bucket with S3's consistency:
  a stored artifact comes back with its description until it expires, and no other key changes.\<close>

theorem s3_roundtrip:
  assumes "s3_inv s" and "S3Store_Put net k req s = (None, s')" and "storable req"
  shows "(if put_ExpiresAt req \<le> now then S3Store_Get None now k s' = Inl ErrNotFound
      else \<exists>en. S3Store_Get None now k s' = Inr en \<and> describes req en)
    \<and> (\<forall>k' net' now'. if k' = k then True else S3Store_Get net' now' k' s' = S3Store_Get net' now' k' s)"
  using s3.get_put [OF assms refl, of now] s3.get_put_expired [OF assms refl, of now] s3.get_put_other [OF assms(1,2)]
  by auto

theorem s3_roundtrip_witness:
  "\<exists>s'. S3Store_Put None example_key example_put example_s3 = (None, s') \<and>
     (\<exists>en. S3Store_Get None 15 example_key s' = Inr en \<and> describes example_put en) \<and>
     S3Store_Get None 20 example_key s' = Inl ErrNotFound"
proof -
  obtain s' where put: "S3Store_Put None example_key example_put example_s3 = (None, s')"
    using example_s3_put by blast
  show ?thesis
    using s3_roundtrip [OF example_s3_inv put example_storable, of 15]
      s3_roundtrip [OF example_s3_inv put example_storable, of 20] put
    by (auto simp: example_put_def)
qed

text \<open>Whatever a store returns is complete and alive: the body is there, the digest is 64
  hexadecimal digits, the size is not negative, and the entry expires after now and after it was
  stored, whatever the files or the objects hold.\<close>

theorem stores_return_valid_entries:
  assumes "FileSystemStore_Get e now k s = Inr en \<or> S3Store_Get net now k s3 = Inr en"
  shows "ent_Body en \<noteq> None \<and> validSHA256 (ent_SHA256 en) \<and> 0 \<le> ent_Size en \<and> now < ent_ExpiresAt en
    \<and> ent_StoredAt en < ent_ExpiresAt en"
  using assms fs.get_sound [of e now k s en] s3.get_sound [of net now k s3 en]
  by (auto simp: ValidateEntry_def ValidatePut_def split: if_splits)

theorem stores_return_valid_entries_witness:
  "\<exists>s' en. FileSystemStore_Get example_env 15 example_key s' = Inr en \<and> ent_Body en \<noteq> None
     \<and> validSHA256 (ent_SHA256 en) \<and> 15 < ent_ExpiresAt en"
proof -
  obtain s' where put: "FileSystemStore_Put example_env example_key example_put example_fs = (None, s')"
    using example_fs_put by blast
  obtain en where "FileSystemStore_Get example_env 15 example_key s' = Inr en"
    using fs.get_put [OF example_fs_inv put example_storable example_quiet, of 15] by (auto simp: example_put_def)
  then show ?thesis using stores_return_valid_entries [of example_env 15 example_key s' en] by blast
qed

end
