(* ===== verification/Headers.thy ===== *)
theory Headers
  imports Config Artifactcache
begin

text \<open>
  The functions of internal/proxy/proxy.go on headers: which requests and responses may be
  cached, what the firewall forwards in each direction, which bodies it rewrites, and the Age of
  a stored response. The functions of net/http that parse and print dates are parameters.
\<close>

definition maxInt64 :: int where "maxInt64 = 2 ^ 63 - 1"

record http_lib =
  hl_ParseTime :: "string \<Rightarrow> time option"
  hl_FormatTime :: "time \<Rightarrow> string"

section \<open>Caching directives\<close>

definition hasConditionalHeader :: "header \<Rightarrow> bool" where
  "hasConditionalHeader headers \<longleftrightarrow> list_ex (\<lambda>name. header_Get headers name \<noteq> [])
     [''If-Match'', ''If-Modified-Since'', ''If-None-Match'', ''If-Range'', ''If-Unmodified-Since'']"

definition requestDisablesCaching :: "header \<Rightarrow> bool" where
  "requestDisablesCaching headers \<longleftrightarrow>
     TrimSpace (Join (header_Values headers ''Cache-Control'') '','') \<noteq> [] \<or>
     TrimSpace (header_Get headers ''Pragma'') \<noteq> []"

definition hasCacheDirective :: "string list \<Rightarrow> string list \<Rightarrow> bool" where
  "hasCacheDirective values directives \<longleftrightarrow>
     list_ex (\<lambda>v. list_ex (\<lambda>part. let part = TrimSpace part in
         List.member directives part \<or> list_ex (\<lambda>directive. HasPrefix part (directive @ ''='')) directives)
       (Split (ToLower v) CHR '','')) values"

definition responseDisablesCaching :: "header \<Rightarrow> bool \<Rightarrow> bool" where
  "responseDisablesCaching headers freshNPM \<longleftrightarrow>
     hasCacheDirective (header_Values headers ''Cache-Control'') [''no-cache'', ''no-store'', ''private''] \<or>
     (\<not> freshNPM \<and> hasCacheDirective (header_Values headers ''Cache-Control'')
        [''must-revalidate'', ''proxy-revalidate'', ''max-age=0'', ''s-maxage=0'']) \<or>
     hasCacheDirective (header_Values headers ''Pragma'') [''no-cache'']"

section \<open>Encodings and variants\<close>

definition qualityAccepted :: "string \<Rightarrow> bool \<times> bool" where
  "qualityAccepted value =
     (case Cut value CHR ''.'' of
        (whole, rest, hasFraction) \<Rightarrow>
          let fraction = (if hasFraction then rest else []) in
          if length fraction > 3 then (False, False)
          else if \<not> list_all is_digit fraction then (False, False)
          else if whole = ''0'' then (ContainsAny fraction ''123456789'', True)
          else if whole = ''1'' then (\<not> ContainsAny fraction ''123456789'', True)
          else (False, False))"

definition encodingQualityAccepted :: "string list \<Rightarrow> bool \<times> bool" where
  "encodingQualityAccepted parameters =
     (case parameters of
        [] \<Rightarrow> (True, True)
      | [p] \<Rightarrow>
          (case Cut p CHR ''='' of
             (name, v, found) \<Rightarrow>
               if \<not> found \<or> \<not> EqualFold (TrimSpace name) ''q'' then (False, False)
               else qualityAccepted (TrimSpace v))
      | _ \<Rightarrow> (False, False))"

record encodings =
  enc_identitySeen :: bool
  enc_identityAccepted :: bool
  enc_wildcardSeen :: bool
  enc_wildcardAccepted :: bool

fun encoding_items :: "string list \<Rightarrow> encodings \<Rightarrow> encodings option" where
  "encoding_items [] st = Some st"
| "encoding_items (item # rest) st =
     (let parts = Split item CHR '';''; coding = ToLower (TrimSpace (hd parts)) in
      if coding = [] then None
      else (case encodingQualityAccepted (tl parts) of
              (accepted, valid) \<Rightarrow>
                if \<not> valid then None
                else if coding = ''identity'' then
                  encoding_items rest (st\<lparr>enc_identitySeen := True,
                    enc_identityAccepted := enc_identityAccepted st \<or> accepted\<rparr>)
                else if coding = ''*'' then
                  encoding_items rest (st\<lparr>enc_wildcardSeen := True,
                    enc_wildcardAccepted := enc_wildcardAccepted st \<or> accepted\<rparr>)
                else encoding_items rest st))"

definition identityEncodingAccepted :: "string list \<Rightarrow> bool" where
  "identityEncodingAccepted values =
     (let raw = TrimSpace (Join values '','') in
      if raw = [] then True
      else case encoding_items (Split raw CHR '','') \<lparr>enc_identitySeen = False, enc_identityAccepted = False,
                 enc_wildcardSeen = False, enc_wildcardAccepted = False\<rparr> of
        None \<Rightarrow> False
      | Some st \<Rightarrow>
          if enc_identitySeen st then enc_identityAccepted st
          else \<not> enc_wildcardSeen st \<or> enc_wildcardAccepted st)"

definition cacheableRequestRepresentation :: "header \<Rightarrow> bool" where
  "cacheableRequestRepresentation headers =
     (if list_ex (\<lambda>name. header_Get headers name \<noteq> [])
           [''Accept-Charset'', ''Accept-Language'', ''A-IM'', ''Cookie'', ''Origin'', ''Prefer'', ''Want-Digest'']
      then False
      else identityEncodingAccepted (header_Values headers ''Accept-Encoding''))"

definition cacheableResponseVary :: "header \<Rightarrow> bool" where
  "cacheableResponseVary headers \<longleftrightarrow>
     list_all (\<lambda>v. list_all (\<lambda>name. List.member [[], ''accept-encoding''] (ToLower (TrimSpace name)))
       (Split v CHR '','')) (header_Values headers ''Vary'')"

definition identityContentEncoding :: "string list \<Rightarrow> string \<times> bool" where
  "identityContentEncoding values =
     (if list_ex (\<lambda>v. list_ex (\<lambda>coding. let coding = TrimSpace coding in
           coding \<noteq> [] \<and> \<not> EqualFold coding ''identity'') (Split v CHR '','')) values
      then (Join values '', '', False) else ([], True))"

section \<open>What is rewritten and what is forwarded\<close>

definition rewritableRoute :: "RouteConfig \<Rightarrow> bool" where
  "rewritableRoute route \<longleftrightarrow> rc_Ecosystem route = ''npm'' \<or> rc_Ecosystem route = ''pypi''"

definition shouldRewrite :: "RouteConfig \<Rightarrow> header \<Rightarrow> bool" where
  "shouldRewrite route headers =
     (let contentType = header_Get headers ''Content-Type'' in
      if rc_Ecosystem route = ''npm'' \<and>
         (Contains contentType ''application/json'' \<or> Contains contentType ''application/vnd.npm.install-v1+json'')
      then True
      else if rc_Ecosystem route = ''pypi'' \<and>
         (Contains contentType ''text/html'' \<or> Contains contentType ''application/vnd.pypi.simple'' \<or>
          Contains contentType ''application/json'')
      then True
      else False)"

definition cacheHeader :: string where "cacheHeader = ''X-Package-Firewall-Cache''"

definition sensitive_names :: "string list" where
  "sensitive_names = [''authorization'', ''proxy-authorization'', ''cookie'', ''cf-access-jwt-assertion'',
     ''cf-access-authenticated-user-email'', ''x-amzn-oidc-data'', ''x-amzn-oidc-accesstoken'',
     ''x-auth-request-access-token'', ''x-auth-request-email'', ''x-auth-request-user'',
     ''x-forwarded-access-token'', ''x-forwarded-email'', ''x-forwarded-user'']"

definition sensitiveRequestHeader :: "string \<Rightarrow> bool" where
  "sensitiveRequestHeader name \<longleftrightarrow> List.member sensitive_names (ToLower name)"

definition hopByHop :: "string \<Rightarrow> bool" where
  "hopByHop name \<longleftrightarrow> List.member [''connection'', ''keep-alive'', ''proxy-authenticate'', ''proxy-authorization'',
     ''te'', ''trailer'', ''transfer-encoding'', ''upgrade''] (ToLower name)"

definition copyHeaders :: "header \<Rightarrow> header \<Rightarrow> (string \<Rightarrow> bool) \<Rightarrow> header" where
  "copyHeaders dst src skip =
     fold (\<lambda>(key, values) dst. if hopByHop key \<or> skip key then dst else fold (header_Add key) values dst) src dst"

definition copyRequestHeaders :: "header \<Rightarrow> header \<Rightarrow> header" where
  "copyRequestHeaders dst src = copyHeaders dst src sensitiveRequestHeader"

definition copyResponseHeaders :: "header \<Rightarrow> header \<Rightarrow> header" where
  "copyResponseHeaders dst src = copyHeaders dst src (\<lambda>name. EqualFold name cacheHeader)"

section \<open>Age\<close>

definition given_age :: "header \<Rightarrow> int" where
  "given_age aged =
     (case ParseInt64 (TrimSpace (header_Get aged ''Age'')) of Some v \<Rightarrow> if v > 0 then v else 0 | None \<Rightarrow> 0)"

definition apparent_age :: "http_lib \<Rightarrow> header \<Rightarrow> time \<Rightarrow> int" where
  "apparent_age lib aged storedAt =
     (case hl_ParseTime lib (header_Get aged ''Date'') of
        Some date \<Rightarrow> if storedAt > date then time_Sub storedAt date div nsSecond else 0
      | None \<Rightarrow> 0)"

definition aged_by :: "int \<Rightarrow> time \<Rightarrow> time \<Rightarrow> int" where
  "aged_by age storedAt now =
     (if now > storedAt then
        let resident = time_Sub now storedAt div nsSecond in
        if age > maxInt64 - resident then maxInt64 else age + resident
      else age)"

definition agedHeaders :: "http_lib \<Rightarrow> header \<Rightarrow> time \<Rightarrow> time \<Rightarrow> header" where
  "agedHeaders lib headers storedAt now =
     (let aged = SafeHeaders headers; age = given_age aged; apparent = apparent_age lib aged storedAt;
          age = (if apparent > age then apparent else age)
      in header_Set ''Age'' (FormatInt (aged_by age storedAt now)) aged)"

section \<open>Numbers read back\<close>

lemma digit_index:
  assumes "d < 10"
  shows "length (takeWhile (\<lambda>x. x \<noteq> decimal_digits ! d) decimal_digits) = d" and "is_digit (decimal_digits ! d)"
proof -
  have "d \<in> {0, 1, 2, 3, 4, 5, 6, 7, 8, 9}" using assms by auto
  then show "length (takeWhile (\<lambda>x. x \<noteq> decimal_digits ! d) decimal_digits) = d" "is_digit (decimal_digits ! d)"
    by (auto simp: decimal_digits_def is_digit_def)
qed

lemma digits_of_digits: "digits_of n \<noteq> [] \<and> list_all is_digit (digits_of n)"
proof (induction n rule: digits_of.induct)
  case (1 n)
  then show ?case by (subst (1 2) digits_of.simps) (auto simp: digit_index)
qed

lemma parse_nat_digits: "parse_nat (digits_of n) = Some n"
proof -
  let ?v = "\<lambda>s. foldl (\<lambda>n c. 10 * n + length (takeWhile (\<lambda>d. d \<noteq> c) decimal_digits)) 0 s"
  have "?v (digits_of n) = n"
  proof (induction n rule: digits_of.induct)
    case (1 n)
    show ?case
    proof (cases "n < 10")
      case True
      then show ?thesis by (subst digits_of.simps) (simp add: digit_index)
    next
      case False
      then have "?v (digits_of n) = 10 * ?v (digits_of (n div 10)) + n mod 10"
        by (subst digits_of.simps) (simp add: digit_index)
      with 1 False show ?thesis by simp
    qed
  qed
  with digits_of_digits [of n] show ?thesis by (simp add: parse_nat_def)
qed

lemma digit_first: "is_digit c \<Longrightarrow> c \<noteq> CHR ''-'' \<and> c \<noteq> CHR ''+''"
  by (auto simp: is_digit_def decimal_digits_def)

lemma ParseInt64_FormatInt:
  assumes "- (2 ^ 63) \<le> i" and "i \<le> maxInt64"
  shows "ParseInt64 (FormatInt i) = Some i"
proof (cases "i < 0")
  case True
  then show ?thesis using assms parse_nat_digits [of "nat (- i)"]
    by (simp add: ParseInt64_def FormatInt_def maxInt64_def Let_def HasPrefix_def)
next
  case False
  obtain c s where d: "digits_of (nat i) = c # s" and "is_digit c"
    using digits_of_digits [of "nat i"] by (cases "digits_of (nat i)") auto
  then have "\<not> HasPrefix (c # s) ''-''" "\<not> HasPrefix (c # s) ''+''"
    using digit_first [of c] by (auto simp: HasPrefix_def)
  with False assms parse_nat_digits [of "nat i"] d show ?thesis
    by (simp add: ParseInt64_def FormatInt_def maxInt64_def Let_def)
qed

section \<open>Age\<close>

lemma header_Get_Set: "header_Get (header_Set k v h) k = v"
  by (simp add: header_Get_def header_Set_def)

lemma header_Values_Set: "header_Values (header_Set k v h) k' =
    (if CanonicalHeaderKey k' = CanonicalHeaderKey k then [v] else header_Values h k')"
  by (simp add: header_Values_def header_Set_def)

lemma given_age_range: "0 \<le> given_age h \<and> given_age h \<le> maxInt64"
  by (auto simp: given_age_def ParseInt64_def maxInt64_def Let_def split: option.splits if_splits)

lemma time_Sub_seconds: "u < t \<Longrightarrow> 0 \<le> time_Sub t u div nsSecond \<and> time_Sub t u div nsSecond \<le> maxInt64"
  by (auto simp: time_Sub_def maxDuration_def minDuration_def maxInt64_def min_def max_def)

lemma apparent_age_range: "0 \<le> apparent_age lib h s \<and> apparent_age lib h s \<le> maxInt64"
  using time_Sub_seconds [of _ s] by (auto simp: apparent_age_def maxInt64_def split: option.splits)

lemma aged_by_saturates:
  assumes "0 \<le> age" and "age \<le> maxInt64"
  shows "aged_by age s now = min maxInt64 (age + (if s < now then time_Sub now s div nsSecond else 0))"
  using assms by (auto simp: aged_by_def Let_def)

text \<open>The Age of a response served from the cache is a number that is never negative and
  never overflows: what the upstream said or what its Date shows, whichever is more, plus the
  seconds spent in the cache, stopping at the largest 64-bit integer. No other header changes.\<close>

theorem Age_saturates:
  "ParseInt64 (header_Get (agedHeaders lib h s now) ''Age'') = Some (min maxInt64
      (max (given_age (SafeHeaders h)) (apparent_age lib (SafeHeaders h) s) +
       (if s < now then time_Sub now s div nsSecond else 0))) \<and>
   (\<forall>k. CanonicalHeaderKey k = ''Age'' \<or> header_Values (agedHeaders lib h s now) k = header_Values (SafeHeaders h) k)"
proof -
  let ?sh = "SafeHeaders h"
  let ?age = "max (given_age ?sh) (apparent_age lib ?sh s)"
  have range: "0 \<le> ?age" "?age \<le> maxInt64"
    using given_age_range [of ?sh] apparent_age_range [of lib ?sh s] by auto
  have eq: "agedHeaders lib h s now = header_Set ''Age'' (FormatInt (aged_by ?age s now)) ?sh"
    by (simp add: agedHeaders_def Let_def max_def)
  have "aged_by ?age s now = min maxInt64 (?age + (if s < now then time_Sub now s div nsSecond else 0))"
    by (rule aged_by_saturates [OF range])
  moreover from this have "0 \<le> aged_by ?age s now" "aged_by ?age s now \<le> maxInt64"
    using range time_Sub_seconds [of s now] by (auto simp: maxInt64_def)
  moreover have "CanonicalHeaderKey ''Age'' = ''Age''"
    by (simp add: CanonicalHeaderKey_def header_token_def go_eval)
  ultimately show ?thesis
    unfolding eq header_Get_Set header_Values_Set by (simp add: ParseInt64_FormatInt)
qed

section \<open>Forwarded headers\<close>

lemma lower_canonical_chars: "list_all header_token k \<Longrightarrow> ToLower (canonical_chars up k) = ToLower k"
proof (induction k arbitrary: up)
  case (Cons c k)
  have "list_all (\<lambda>c. lower_char (upper_of c) = lower_char c) lower_letters"
    "list_all (\<lambda>c. lower_char (lower_char c) = lower_char c) upper_letters" by code_simp+
  then have "c \<in> set lower_letters \<Longrightarrow> lower_char (upper_of c) = lower_char c"
    "c \<in> set upper_letters \<Longrightarrow> lower_char (lower_char c) = lower_char c" by (auto simp: list_all_iff)
  moreover have "lower_char c = c" if "c \<notin> set upper_letters" by (rule lower_char_id [OF that])
  ultimately show ?case using Cons by (simp add: ToLower_def)
qed (simp add: ToLower_def)

lemma lower_canonical: "ToLower (CanonicalHeaderKey k) = ToLower k"
  by (simp add: CanonicalHeaderKey_def lower_canonical_chars)

lemma header_Values_Add: "header_Values (header_Add key v h) k =
    header_Values h k @ (if CanonicalHeaderKey key = CanonicalHeaderKey k then [v] else [])"
  by (simp add: header_Values_def header_Add_def)

lemma header_Values_adds: "header_Values (fold (header_Add key) vs h) k =
    header_Values h k @ (if CanonicalHeaderKey key = CanonicalHeaderKey k then vs else [])"
  by (induction vs arbitrary: h) (auto simp: header_Values_Add)

lemma header_Values_copy:
  assumes "canonical_header src"
  shows "header_Values (copyHeaders dst src skip) k = header_Values dst k @
    (if hopByHop (CanonicalHeaderKey k) \<or> skip (CanonicalHeaderKey k) then [] else header_Values src k)"
  using assms
proof (induction src arbitrary: dst)
  case Nil
  then show ?case by (simp add: copyHeaders_def header_Values_def)
next
  case (Cons kv src)
  obtain key vs where kv: "kv = (key, vs)" by (cases kv)
  let ?dst = "if hopByHop key \<or> skip key then dst else fold (header_Add key) vs dst"
  have can: "canonical_header src" "CanonicalHeaderKey key = key" "key \<notin> fst ` set src"
    using Cons.prems kv by (auto simp: canonical_header_def)
  have "copyHeaders dst (kv # src) skip = copyHeaders ?dst src skip" by (simp add: copyHeaders_def kv)
  moreover have "header_Values ?dst k = header_Values dst k @
      (if CanonicalHeaderKey k = key \<and> \<not> (hopByHop key \<or> skip key) then vs else [])"
    using can(2) by (auto simp: header_Values_adds)
  moreover have "header_Values (kv # src) k = (if CanonicalHeaderKey k = key then vs else header_Values src k)"
    by (simp add: header_Values_def kv)
  moreover have "CanonicalHeaderKey k = key \<Longrightarrow> header_Values src k = []"
    using can(3) map_of_eq_None_iff [of src key] by (simp add: header_Values_def)
  ultimately show ?case using Cons.IH [OF can(1), of ?dst] by auto
qed


definition example_request_headers :: header where
  "example_request_headers = [(''Authorization'', [''Bearer secret'']), (''Accept'', [''a'', ''b''])]"


end
