(* ===== verification/Redirect.thy ===== *)
theory Redirect
  imports Headers
begin

text \<open>
  internal/proxy/proxy.go, upstream URLs and redirects: how the URL of an upstream request is
  built, which redirects the client may follow and which redirected responses may be stored.
  A redirect chain is followed as net/http's client does it: while a response is a redirect with
  a location, CheckRedirect is asked with the next URL and those already requested; the transport
  is a parameter, a function from a URL to a response. url.Parse and URL.String are parameters.
\<close>

record url_lib =
  ul_conf :: config_lib
  ul_Parse :: "string \<Rightarrow> string + url"
  ul_String :: "url \<Rightarrow> string"

datatype redirect_error = UnsafeUpstreamRedirect string | UpstreamRedirectLimit nat
  | UnreplayableBodyRedirect | RedirectError string

section \<open>Building the upstream URL\<close>

fun unsafe_segment :: "string list \<Rightarrow> string option" where
  "unsafe_segment [] = None"
| "unsafe_segment (part # parts) =
     (if part = [] then unsafe_segment parts
      else case PathUnescape part of
        None \<Rightarrow> Some ''invalid URL escape''
      | Some decoded \<Rightarrow>
          if part = ''.'' \<or> part = ''..'' \<or> decoded = ''.'' \<or> decoded = ''..'' \<or> ContainsAny decoded [CHR ''/'', CHR 0x5C]
          then Some ''upstream path contains unsafe segment'' else unsafe_segment parts)"

definition safeUpstreamPath :: "string \<Rightarrow> string + string" where
  "safeUpstreamPath value =
     (let path = ''/'' @ TrimLeft value ''/'' in
      case unsafe_segment (Split path CHR ''/'') of Some e \<Rightarrow> Inl e | None \<Rightarrow> Inr path)"

definition upstreamURL :: "url_lib \<Rightarrow> RouteConfig \<Rightarrow> RequestInfo \<Rightarrow> string + string" where
  "upstreamURL lib route info =
     (let raw = (if ri_FileUpstream info \<and> rc_FileUpstreamURL route \<noteq> [] then rc_FileUpstreamURL route
                 else rc_UpstreamURL route) in
      case ul_Parse lib raw of
        Inl e \<Rightarrow> Inl e
      | Inr base \<Rightarrow>
          (case safeUpstreamPath (ri_UpstreamPath info) of
             Inl e \<Rightarrow> Inl e
           | Inr path \<Rightarrow> Inr (ul_String lib (base\<lparr>u_Path := TrimRight (u_Path base) ''/'' @ path\<rparr>))))"

definition withRequestQuery :: "url_lib \<Rightarrow> string \<Rightarrow> url \<Rightarrow> string + string" where
  "withRequestQuery lib target requestURL =
     (if u_RawQuery requestURL = [] \<and> \<not> u_ForceQuery requestURL then Inr target
      else case ul_Parse lib target of
        Inl e \<Rightarrow> Inl e
      | Inr parsed \<Rightarrow>
          let query = (if u_RawQuery parsed = [] then u_RawQuery requestURL
                       else if u_RawQuery requestURL \<noteq> [] then u_RawQuery parsed @ ''&'' @ u_RawQuery requestURL
                       else u_RawQuery parsed)
          in Inr (ul_String lib (parsed\<lparr>u_RawQuery := query,
               u_ForceQuery := u_ForceQuery parsed \<or> u_ForceQuery requestURL\<rparr>)))"

section \<open>Origins\<close>

definition requestOrigin :: "url_lib \<Rightarrow> url option \<Rightarrow> string + string" where
  "requestOrigin lib value =
     (case value of
        None \<Rightarrow> Inl ''redirect URL is missing''
      | Some u \<Rightarrow>
          if u_HasUser u then Inl ''redirect URL must not include user information''
          else let origin = ul_String lib \<lparr>u_Scheme = u_Scheme u, u_Host = u_Host u, u_HasUser = False, u_Path = [],
                     u_RawQuery = [], u_ForceQuery = False, u_Fragment = []\<rparr>
               in case NormalizeHTTPOrigin (ul_conf lib) origin of Inl (e, _) \<Rightarrow> Inl e | Inr normal \<Rightarrow> Inr normal)"

definition upstreamOrigin :: "url_lib \<Rightarrow> string \<Rightarrow> string + string" where
  "upstreamOrigin lib value =
     (case ul_Parse lib value of Inl e \<Rightarrow> Inl e | Inr parsed \<Rightarrow> requestOrigin lib (Some parsed))"

fun allowed_origins :: "url_lib \<Rightarrow> string list \<Rightarrow> redirect_error + string list" where
  "allowed_origins lib [] = Inr []"
| "allowed_origins lib (v # vs) =
     (case NormalizeHTTPOrigin (ul_conf lib) v of
        Inl (e, _) \<Rightarrow> Inl (RedirectError ''invalid allowed redirect origin'')
      | Inr normal \<Rightarrow> (case allowed_origins lib vs of Inl e \<Rightarrow> Inl e | Inr rest \<Rightarrow> Inr (normal # rest)))"

definition maxUpstreamRedirects :: nat where "maxUpstreamRedirects = 10"

text \<open>The check made for a redirect to a URL after requests for the others, the first of them the
  initial one; the allowed origins are those the policy was made with.\<close>

definition checkRedirect :: "url_lib \<Rightarrow> bool \<Rightarrow> string list \<Rightarrow> url option \<Rightarrow> url list \<Rightarrow> redirect_error option" where
  "checkRedirect lib enforce allowed next via =
     (if via = [] then Some (UnsafeUpstreamRedirect ''initial upstream request is missing'')
      else if length via \<ge> maxUpstreamRedirects then Some (UpstreamRedirectLimit (length via))
      else case requestOrigin lib (Some (hd via)) of
        Inl e \<Rightarrow> Some (UnsafeUpstreamRedirect e)
      | Inr initialOrigin \<Rightarrow>
          (case requestOrigin lib next of
             Inl e \<Rightarrow> Some (UnsafeUpstreamRedirect e)
           | Inr redirectOrigin \<Rightarrow>
               if redirectOrigin = initialOrigin then None
               else if \<not> enforce then None
               else if redirectOrigin \<in> set allowed then None
               else Some (UnsafeUpstreamRedirect redirectOrigin)))"

definition upstreamRedirectPolicy :: "url_lib \<Rightarrow> bool \<Rightarrow> string list
    \<Rightarrow> redirect_error + (url option \<Rightarrow> url list \<Rightarrow> redirect_error option)" where
  "upstreamRedirectPolicy lib enforce allowedOrigins =
     (case allowed_origins lib allowedOrigins of
        Inl e \<Rightarrow> Inl e
      | Inr allowed \<Rightarrow> Inr (checkRedirect lib enforce allowed))"

section \<open>Responses\<close>

record resp_request =
  rr_URL :: "url option"
  rr_Header :: header
  rr_redirected :: bool
  rr_uncacheableHops :: bool

record upstream_response =
  resp_StatusCode :: int
  resp_Header :: header
  resp_Body :: reader
  resp_ContentLength :: int
  resp_Uncompressed :: bool
  resp_Location :: "(string + url) option"
  resp_Request :: "resp_request option"

text \<open>What the transport sees of a hop; redirectHops remembers whether one forbids storing.\<close>

definition hops_observe :: "bool \<Rightarrow> upstream_response \<Rightarrow> bool" where
  "hops_observe uncacheable resp =
     (if resp_StatusCode resp < 300 \<or> resp_StatusCode resp \<ge> 400 then uncacheable
      else let control = ToLower (header_Get (resp_Header resp) ''Cache-Control'') in
        if cacheableResponseVary (resp_Header resp) \<and> \<not> Contains control ''no-store'' \<and> \<not> Contains control ''private''
        then uncacheable else True)"

record upstream_request =
  ur_Method :: string
  ur_URL :: url
  ur_Header :: header
  ur_Body :: "reader option"
  ur_GetBody :: bool

definition validateReturnedRedirect :: "upstream_request \<Rightarrow> upstream_response
    \<Rightarrow> (url option \<Rightarrow> url list \<Rightarrow> redirect_error option) \<Rightarrow> redirect_error option" where
  "validateReturnedRedirect request response check =
     (if resp_StatusCode response \<noteq> 307 \<and> resp_StatusCode response \<noteq> 308 then None
      else case resp_Location response of
        None \<Rightarrow> None
      | Some (Inl e) \<Rightarrow> Some (RedirectError ''invalid upstream redirect location'')
      | Some (Inr location) \<Rightarrow>
          (case check (Some location) [ur_URL request] of
             Some e \<Rightarrow> Some e
           | None \<Rightarrow>
               if ur_Body request \<noteq> None \<and> \<not> ur_GetBody request then Some UnreplayableBodyRedirect else None))"

text \<open>net/http's client: it follows redirects until a response is not one that it follows, or
  CheckRedirect, ours and then the configured one, refuses. A 307 or 308 with a body that cannot
  be sent again is returned as it is. The number of redirects a check allows bounds the loop.\<close>

definition follows :: "upstream_request \<Rightarrow> upstream_response \<Rightarrow> bool" where
  "follows request resp \<longleftrightarrow> List.member [301, 302, 303] (resp_StatusCode resp) \<or>
     List.member [307, 308] (resp_StatusCode resp) \<and> (ur_Body request = None \<or> ur_GetBody request)"

type_synonym transport = "upstream_request \<Rightarrow> url \<Rightarrow> redirect_error + upstream_response"

fun client_follow :: "nat \<Rightarrow> transport \<Rightarrow> (url option \<Rightarrow> url list \<Rightarrow> redirect_error option) \<Rightarrow> upstream_request
    \<Rightarrow> url list \<Rightarrow> url \<Rightarrow> bool \<Rightarrow> (redirect_error + upstream_response \<times> url list \<times> bool) option" where
  "client_follow 0 rt check request via u hops = None"
| "client_follow (Suc n) rt check request via u hops =
     (case rt request u of
        Inl e \<Rightarrow> Some (Inl e)
      | Inr resp \<Rightarrow>
          let hops = hops_observe hops resp; via = via @ [u] in
          if \<not> follows request resp then Some (Inr (resp, via, hops))
          else case resp_Location resp of
            None \<Rightarrow> Some (Inr (resp, via, hops))
          | Some (Inl e) \<Rightarrow> Some (Inl (RedirectError e))
          | Some (Inr next) \<Rightarrow>
              (case check (Some next) via of
                 Some e \<Rightarrow> Some (Inl e)
               | None \<Rightarrow> client_follow n rt check request via next hops))"

definition both_checks :: "(url option \<Rightarrow> url list \<Rightarrow> redirect_error option) \<Rightarrow>
    (url option \<Rightarrow> url list \<Rightarrow> redirect_error option) option \<Rightarrow> url option \<Rightarrow> url list \<Rightarrow> redirect_error option" where
  "both_checks ours configured next via =
     (case ours next via of
        Some e \<Rightarrow> Some e
      | None \<Rightarrow> (case configured of None \<Rightarrow> None | Some c \<Rightarrow> c next via))"

definition doOnce :: "url_lib \<Rightarrow> transport \<Rightarrow> (url option \<Rightarrow> url list \<Rightarrow> redirect_error option) option
    \<Rightarrow> RouteConfig \<Rightarrow> upstream_request \<Rightarrow> (redirect_error + upstream_response) option" where
  "doOnce lib rt configured route request =
     (case upstreamRedirectPolicy lib (rc_EnforceRedirectOrigins route) (rc_AllowedRedirectOrigins route) of
        Inl e \<Rightarrow> Some (Inl e)
      | Inr check \<Rightarrow>
          (case client_follow (Suc maxUpstreamRedirects) rt (both_checks check configured) request [] (ur_URL request) False of
             None \<Rightarrow> None
           | Some (Inl e) \<Rightarrow> Some (Inl e)
           | Some (Inr (response, via, hops)) \<Rightarrow>
               (case validateReturnedRedirect request response check of
                  Some e \<Rightarrow> Some (Inl e)
                | None \<Rightarrow>
                    let redirected = length via > 1 in
                    Some (Inr (if redirected then response\<lparr>resp_Request := map_option
                        (\<lambda>req. req\<lparr>rr_redirected := True, rr_uncacheableHops := hops\<rparr>) (resp_Request response)\<rparr>
                      else response)))))"

section \<open>Which redirected responses may be stored\<close>

definition cacheableRedirect :: "url_lib \<Rightarrow> upstream_response \<Rightarrow> RouteConfig \<Rightarrow> bool" where
  "cacheableRedirect lib resp route =
     (case resp_Request resp of
        None \<Rightarrow> False
      | Some req \<Rightarrow>
          if \<not> rc_EnforceRedirectOrigins route then False
          else if rr_uncacheableHops req then False
          else case requestOrigin lib (rr_URL req) of
            Inl _ \<Rightarrow> False
          | Inr finalOrigin \<Rightarrow>
              (case upstreamOrigin lib (rc_UpstreamURL route) of
                 Inl _ \<Rightarrow> False
               | Inr upstream \<Rightarrow>
                   if finalOrigin = upstream then False
                   else list_ex (\<lambda>v. NormalizeHTTPOrigin (ul_conf lib) v = Inr finalOrigin) (rc_AllowedRedirectOrigins route)))"

section \<open>Paths cannot climb\<close>

lemma unsafe_segment_None:
  "unsafe_segment parts = None \<longleftrightarrow> list_all (\<lambda>p. p = [] \<or> (\<exists>d. PathUnescape p = Some d \<and>
     p \<notin> {''.'', ''..''} \<and> d \<notin> {''.'', ''..''} \<and> CHR ''/'' \<notin> set d \<and> CHR 0x5C \<notin> set d)) parts"
  by (induction parts rule: unsafe_segment.induct) (auto simp: ContainsAny_iff split: option.splits)

lemma clean_elems_plain:
  assumes "list_all (\<lambda>p. p \<notin> {''.'', ''..''}) ps"
  shows "clean_elems True stack ps = rev stack @ filter (\<lambda>p. p \<noteq> []) ps"
  using assms
proof (induction ps arbitrary: stack)
  case (Cons p ps)
  then show ?case by auto
qed simp

lemma PathUnescape_Nil: "PathUnescape p = Some [] \<longleftrightarrow> p = []"
  by (cases p) (auto split: list.splits option.splits prod.splits)

text \<open>A path the firewall sends upstream cannot leave the upstream's prefix: read with its
  escapes decoded, no segment is a dot segment or holds a separator, so cleaning the path, as a
  server would, removes nothing but empty segments.\<close>

theorem safeUpstreamPath_stays:
  assumes "safeUpstreamPath v = Inr p"
  shows "HasPrefix p ''/'' \<and> list_all (\<lambda>seg. PathUnescape seg \<noteq> None) (Split p CHR ''/'') \<and>
    clean_elems True [] (map (\<lambda>seg. the (PathUnescape seg)) (Split p CHR ''/'')) =
      map (\<lambda>seg. the (PathUnescape seg)) (filter (\<lambda>seg. seg \<noteq> []) (Split p CHR ''/''))"
proof -
  have p: "p = ''/'' @ TrimLeft v ''/''" and safe: "unsafe_segment (Split p CHR ''/'') = None"
    using assms by (auto simp: safeUpstreamPath_def Let_def split: option.splits)
  let ?dec = "\<lambda>seg. the (PathUnescape seg)"
  have seg: "PathUnescape q \<noteq> None \<and> ?dec q \<notin> {''.'', ''..''}" if "q \<in> set (Split p CHR ''/'')" for q
    using safe that by (fastforce simp: unsafe_segment_None list_all_iff)
  then have "clean_elems True [] (map ?dec (Split p CHR ''/'')) =
      filter (\<lambda>q. q \<noteq> []) (map ?dec (Split p CHR ''/''))"
    by (subst clean_elems_plain) (auto simp: list_all_iff)
  also have "\<dots> = map ?dec (filter (\<lambda>q. ?dec q \<noteq> []) (Split p CHR ''/''))" by (simp add: filter_map comp_def)
  also have "filter (\<lambda>q. ?dec q \<noteq> []) (Split p CHR ''/'') = filter (\<lambda>q. q \<noteq> []) (Split p CHR ''/'')"
  proof (rule filter_cong [OF refl])
    fix q assume "q \<in> set (Split p CHR ''/'')"
    then obtain d where "PathUnescape q = Some d" using seg by auto
    then show "(?dec q \<noteq> []) = (q \<noteq> [])" using PathUnescape_Nil [of q] by auto
  qed
  finally show ?thesis using seg p by (auto simp: list_all_iff HasPrefix_def)
qed

theorem safeUpstreamPath_stays_witness:
  "safeUpstreamPath ''lodash/-/lodash-4.17.21%2Etgz'' = Inr ''/lodash/-/lodash-4.17.21%2Etgz'' \<and>
   clean_elems True [] (map (\<lambda>seg. the (PathUnescape seg)) (Split ''/lodash/-/lodash-4.17.21%2Etgz'' CHR ''/'')) =
     [''lodash'', ''-'', ''lodash-4.17.21.tgz'']"
proof -
  have ok: "safeUpstreamPath ''lodash/-/lodash-4.17.21%2Etgz'' = Inr ''/lodash/-/lodash-4.17.21%2Etgz''" by code_simp
  have "map (\<lambda>seg. the (PathUnescape seg)) (filter (\<lambda>seg. seg \<noteq> []) (Split ''/lodash/-/lodash-4.17.21%2Etgz'' CHR ''/''))
      = [''lodash'', ''-'', ''lodash-4.17.21.tgz'']" by code_simp
  with ok safeUpstreamPath_stays [OF ok] show ?thesis by simp
qed

section \<open>Redirects are confined\<close>

text \<open>A URL the route trusts: the one first asked for, its origin, or an allowed origin.\<close>

definition trusted :: "url_lib \<Rightarrow> RouteConfig \<Rightarrow> url \<Rightarrow> url \<Rightarrow> bool" where
  "trusted lib route initial u \<longleftrightarrow> u = initial \<or>
     (\<exists>w. requestOrigin lib (Some u) = Inr w \<and> (requestOrigin lib (Some initial) = Inr w \<or>
        list_ex (\<lambda>v. NormalizeHTTPOrigin (ul_conf lib) v = Inr w) (rc_AllowedRedirectOrigins route)))"

lemma allowed_origins_ok:
  "allowed_origins lib vs = Inr os \<Longrightarrow> w \<in> set os \<Longrightarrow> list_ex (\<lambda>v. NormalizeHTTPOrigin (ul_conf lib) v = Inr w) vs"
  by (induction vs arbitrary: os) (fastforce split: sum.splits prod.splits)+

lemma checked_is_trusted:
  assumes "allowed_origins lib (rc_AllowedRedirectOrigins route) = Inr allowed"
    and "checkRedirect lib True allowed (Some nxt) via = None" and "hd via = initial"
  shows "trusted lib route initial nxt"
  using assms allowed_origins_ok [OF assms(1)]
  by (auto simp: checkRedirect_def trusted_def split: if_splits sum.splits)

lemma client_follow_confined:
  assumes ok: "\<And>nxt via. check (Some nxt) via = None \<Longrightarrow> via \<noteq> [] \<Longrightarrow> hd via = initial \<Longrightarrow> T nxt"
    and agree: "\<And>u. T u \<Longrightarrow> rt request u = rt' request u"
    and "T u" and "if via = [] then u = initial else hd via = initial"
  shows "client_follow n rt check request via u hops = client_follow n rt' check request via u hops"
  using assms(3,4)
proof (induction n arbitrary: via u hops)
  case (Suc n)
  show ?case
  proof (cases "rt request u")
    case (Inl e)
    then show ?thesis using agree [OF Suc.prems(1)] by simp
  next
    case (Inr resp)
    then have r': "rt' request u = Inr resp" using agree [OF Suc.prems(1)] by simp
    have hd: "hd (via @ [u]) = initial" using Suc.prems(2) by (cases via) (auto split: if_splits)
    have "client_follow n rt check request (via @ [u]) nxt h = client_follow n rt' check request (via @ [u]) nxt h"
      if "check (Some nxt) (via @ [u]) = None" for nxt h
      using Suc.IH [of nxt "via @ [u]" h] ok [OF that] hd by simp
    then show ?thesis using Inr r' by (simp add: Let_def split: option.split sum.split)
  qed
qed simp

lemma client_follow_returns:
  assumes limit: "\<And>nxt via. maxUpstreamRedirects \<le> length via \<Longrightarrow> check nxt via \<noteq> None"
    and "length via < maxUpstreamRedirects" and "maxUpstreamRedirects \<le> n + length via"
  shows "client_follow n rt check request via u hops \<noteq> None"
  using assms(2,3)
proof (induction n arbitrary: via u hops)
  case (Suc n)
  have "client_follow n rt check request (via @ [u]) nxt h \<noteq> None"
    if "check (Some nxt) (via @ [u]) = None" for nxt h
    using Suc.IH [of "via @ [u]" nxt h] Suc.prems limit [of "via @ [u]" "Some nxt"] that
    by (cases "maxUpstreamRedirects \<le> length (via @ [u])") auto
  then show ?case by (auto simp: Let_def split: option.split sum.split)
qed simp

lemma checkRedirect_limit:
  "maxUpstreamRedirects \<le> length via \<Longrightarrow> both_checks (checkRedirect lib enforce allowed) configured nxt via \<noteq> None"
  by (auto simp: both_checks_def checkRedirect_def maxUpstreamRedirects_def)

lemma doOnce_returns: "doOnce lib rt configured route request \<noteq> None"
proof (cases "allowed_origins lib (rc_AllowedRedirectOrigins route)")
  case (Inl e)
  then show ?thesis by (simp add: doOnce_def upstreamRedirectPolicy_def)
next
  case (Inr allowed)
  have "client_follow (Suc maxUpstreamRedirects) rt
      (both_checks (checkRedirect lib (rc_EnforceRedirectOrigins route) allowed) configured) request [] (ur_URL request) False \<noteq> None"
    by (rule client_follow_returns [OF checkRedirect_limit]) (auto simp: maxUpstreamRedirects_def)
  then show ?thesis using Inr
    by (auto simp: doOnce_def upstreamRedirectPolicy_def Let_def split: option.split sum.split prod.split)
qed

text \<open>C9: On a route that enforces its redirect origins, following redirects always ends, and no
  request ever goes to a URL outside the upstream's own origin and the allowed ones: what other
  servers would answer makes no difference to the outcome.\<close>

theorem redirects_confined:
  assumes "rc_EnforceRedirectOrigins route"
    and "\<And>u. trusted lib route (ur_URL request) u \<Longrightarrow> rt request u = rt' request u"
  shows "doOnce lib rt configured route request = doOnce lib rt' configured route request \<and>
    doOnce lib rt configured route request \<noteq> None"
proof (cases "allowed_origins lib (rc_AllowedRedirectOrigins route)")
  case (Inl e)
  then show ?thesis by (simp add: doOnce_def upstreamRedirectPolicy_def)
next
  case (Inr allowed)
  let ?check = "checkRedirect lib True allowed"
  let ?both = "both_checks ?check configured"
  have pol: "upstreamRedirectPolicy lib (rc_EnforceRedirectOrigins route) (rc_AllowedRedirectOrigins route) = Inr ?check"
    using Inr assms(1) by (simp add: upstreamRedirectPolicy_def)
  have "client_follow (Suc maxUpstreamRedirects) rt ?both request [] (ur_URL request) False =
      client_follow (Suc maxUpstreamRedirects) rt' ?both request [] (ur_URL request) False"
  proof (rule client_follow_confined [where T = "trusted lib route (ur_URL request)" and initial = "ur_URL request"])
    fix nxt via assume "?both (Some nxt) via = None" and "hd via = ur_URL request"
    then show "trusted lib route (ur_URL request) nxt"
      using checked_is_trusted [OF Inr] by (simp add: both_checks_def split: option.splits)
  qed (use assms(2) in \<open>simp_all add: trusted_def\<close>)
  then have "doOnce lib rt configured route request = doOnce lib rt' configured route request"
    by (simp add: doOnce_def pol)
  with doOnce_returns show ?thesis by blast
qed

text \<open>A route on https://a with one allowed origin, and a transport that redirects to a third.\<close>

definition host_url :: "string \<Rightarrow> url" where
  "host_url h = \<lparr>u_Scheme = ''https'', u_Host = h, u_HasUser = False, u_Path = [], u_RawQuery = [],
     u_ForceQuery = False, u_Fragment = []\<rparr>"

definition example_url_lib :: url_lib where
  "example_url_lib = \<lparr>ul_conf = example_clib, ul_Parse = (\<lambda>v. Inl v), ul_String = u_Host\<rparr>"

definition example_route :: RouteConfig where
  "example_route = \<lparr>rc_Name = ''r'', rc_Ecosystem = ''maven'', rc_PathPrefix = ''/m/'', rc_UpstreamURL = ''https://a'',
     rc_FileUpstreamURL = [], rc_UpstreamTokenEnv = [], rc_EnforceRedirectOrigins = True,
     rc_AllowedRedirectOrigins = [''b''], rc_AllowAnonymous = False\<rparr>"

definition example_upstream_request :: upstream_request where
  "example_upstream_request = \<lparr>ur_Method = ''GET'', ur_URL = host_url ''a'', ur_Header = [], ur_Body = None, ur_GetBody = False\<rparr>"

definition example_resp :: "int \<Rightarrow> url option \<Rightarrow> upstream_response" where
  "example_resp st loc = \<lparr>resp_StatusCode = st, resp_Header = [], resp_Body = [], resp_ContentLength = 0,
     resp_Uncompressed = False, resp_Location = map_option Inr loc, resp_Request = None\<rparr>"

definition example_transport :: "int \<Rightarrow> transport" where
  "example_transport st _ u =
     Inr (if u = host_url ''c'' then example_resp st None else example_resp 302 (Some (host_url ''c'')))"

lemma example_origins:
  "NormalizeHTTPOrigin example_clib ''a'' = Inr ''https://a:443''"
  "NormalizeHTTPOrigin example_clib ''b'' = Inr ''https://b:443''"
  "NormalizeHTTPOrigin example_clib ''c'' = Inr ''https://c:443''"
  by (simp_all add: NormalizeHTTPOrigin_def example_clib_def example_url_def url_Hostname_def
      url_Port_def splitHostPort_def validOptionalPort_def JoinHostPort_def Let_def go_eval)

lemmas example_redirect_defs = requestOrigin_def example_url_lib_def host_url_def example_route_def example_origins

lemma example_untrusted: "\<not> trusted example_url_lib example_route (host_url ''a'') (host_url ''c'')"
  by (simp add: trusted_def example_redirect_defs)

theorem redirects_confined_witness:
  "doOnce example_url_lib (example_transport 200) None example_route example_upstream_request =
     doOnce example_url_lib (example_transport 500) None example_route example_upstream_request \<and>
   doOnce example_url_lib (example_transport 200) None example_route example_upstream_request =
     Some (Inl (UnsafeUpstreamRedirect ''https://c:443''))"
proof
  show "doOnce example_url_lib (example_transport 200) None example_route example_upstream_request =
     Some (Inl (UnsafeUpstreamRedirect ''https://c:443''))"
    by (simp add: doOnce_def upstreamRedirectPolicy_def both_checks_def checkRedirect_def
        example_transport_def example_upstream_request_def example_resp_def follows_def example_redirect_defs
        hops_observe_def) (simp add: maxUpstreamRedirects_def requestOrigin_def example_origins)
  have "rc_EnforceRedirectOrigins example_route" by (simp add: example_route_def)
  then show "doOnce example_url_lib (example_transport 200) None example_route example_upstream_request =
     doOnce example_url_lib (example_transport 500) None example_route example_upstream_request"
  proof (rule redirects_confined [THEN conjunct1])
    fix u assume "trusted example_url_lib example_route (ur_URL example_upstream_request) u"
    then have "u \<noteq> host_url ''c''" using example_untrusted by (auto simp: example_upstream_request_def)
    then show "example_transport 200 example_upstream_request u = example_transport 500 example_upstream_request u"
      by (simp add: example_transport_def)
  qed
qed

end
