(* ===== verification/Coordination.thy ===== *)
theory Coordination
  imports Headers
begin

text \<open>
  internal/coordination: leases and cooldowns shared through a DynamoDB table. The client is a
  parameter of the coordinator; its inputs are the records the code builds, condition and update
  expressions included. What is assumed of the service is \<open>dynamodb_law\<close>: a conditional write
  is atomic and does what DynamoDB documents for the expressions used here, and a consistent read
  sees the last write. A write that reports an error may still have been applied. Random owners
  and the clock are arguments. The step relation interleaves the operations of any number of
  processes on one table; mutual exclusion is an invariant of its reachable states.
\<close>

datatype attr = AttrS string | AttrN string

type_synonym item = "(string, attr) gomap"

datatype ddb_error = ConditionalCheckFailed | DdbError string

record UpdateItemInput =
  ui_TableName :: string
  ui_Key :: item
  ui_Names :: "(string, string) gomap"
  ui_Values :: "(string, attr) gomap"
  ui_Condition :: string
  ui_Update :: string

record DeleteItemInput =
  di_TableName :: string
  di_Key :: item
  di_Names :: "(string, string) gomap"
  di_Values :: "(string, attr) gomap"
  di_Condition :: string

record GetItemInput =
  gi_TableName :: string
  gi_Key :: item
  gi_ConsistentRead :: bool
  gi_Projection :: string
  gi_Names :: "(string, string) gomap"

record 't DynamoDBCoordinator =
  dc_UpdateItem :: "ddb_error option \<Rightarrow> UpdateItemInput \<Rightarrow> 't \<Rightarrow> ddb_error option \<times> 't"
  dc_DeleteItem :: "ddb_error option \<Rightarrow> DeleteItemInput \<Rightarrow> 't \<Rightarrow> ddb_error option \<times> 't"
  dc_GetItem :: "ddb_error option \<Rightarrow> GetItemInput \<Rightarrow> 't \<Rightarrow> ddb_error + item"
  dc_sha256 :: "string \<Rightarrow> string"
  dc_table :: string
  dc_keyPrefix :: string

record dynamoLease =
  dl_key :: string
  dl_owner :: string

datatype coord_error = ErrLeaseLost | CoordError string

section \<open>Times as Unix seconds\<close>

definition unixEpoch :: int where "unixEpoch = 62135596800"

definition time_Unix :: "time \<Rightarrow> int" where
  "time_Unix t = t div nsSecond - unixEpoch"

definition Unix_time :: "int \<Rightarrow> time" where
  "Unix_time seconds = (seconds + unixEpoch) * nsSecond"

section \<open>The coordinator\<close>

definition keyAttribute :: string where "keyAttribute = ''coordination_key''"
definition ownerAttribute :: string where "ownerAttribute = ''owner''"
definition expiresAtAttribute :: string where "expiresAtAttribute = ''expires_at''"

definition NewDynamoDB :: "'t DynamoDBCoordinator option \<Rightarrow> string \<Rightarrow> string \<Rightarrow> string + 't DynamoDBCoordinator" where
  "NewDynamoDB client table keyPrefix =
     (case client of
        None \<Rightarrow> Inl ''DynamoDB coordination client is required''
      | Some c \<Rightarrow>
          if TrimSpace table = [] then Inl ''DynamoDB coordination table is required''
          else let pre = Trim (TrimSpace keyPrefix) ''#'' in
            Inr (c\<lparr>dc_table := table, dc_keyPrefix := (if pre = [] then ''package-firewall'' else pre)\<rparr>))"

definition itemKey_of :: "'t DynamoDBCoordinator \<Rightarrow> string \<Rightarrow> string \<Rightarrow> string" where
  "itemKey_of c kind resource = dc_keyPrefix c @ ''#'' @ kind @ ''#'' @ dc_sha256 c resource"

definition itemKey :: "string \<Rightarrow> item" where
  "itemKey value = [(keyAttribute, AttrS value)]"

definition number :: "int \<Rightarrow> attr" where
  "number value = AttrN (FormatInt value)"

definition isConditionalFailure :: "ddb_error option \<Rightarrow> bool" where
  "isConditionalFailure err \<longleftrightarrow> err = Some ConditionalCheckFailed"

definition acquire_input :: "'t DynamoDBCoordinator \<Rightarrow> string \<Rightarrow> string \<Rightarrow> time \<Rightarrow> duration \<Rightarrow> UpdateItemInput" where
  "acquire_input c key owner now duration =
     \<lparr>ui_TableName = dc_table c, ui_Key = itemKey key,
      ui_Names = [(''#expires_at'', expiresAtAttribute), (''#owner'', ownerAttribute)],
      ui_Values = [('':expires_at'', number (time_Unix (now + duration))), ('':now'', number (time_Unix now)),
        ('':owner'', AttrS owner)],
      ui_Condition = ''attribute_not_exists(#owner) OR #expires_at <= :now'',
      ui_Update = ''SET #owner = :owner, #expires_at = :expires_at''\<rparr>"

definition TryAcquire :: "'t DynamoDBCoordinator \<Rightarrow> ddb_error option \<Rightarrow> string + string \<Rightarrow> time \<Rightarrow> string \<Rightarrow> duration \<Rightarrow> 't
    \<Rightarrow> (coord_error + dynamoLease option) \<times> 't" where
  "TryAcquire c net newOwner now resource duration t =
     (case newOwner of
        Inl e \<Rightarrow> (Inl (CoordError e), t)
      | Inr owner \<Rightarrow>
          let key = itemKey_of c ''lease'' resource in
          (case dc_UpdateItem c net (acquire_input c key owner now duration) t of
             (err, t') \<Rightarrow>
               if isConditionalFailure err then (Inr None, t')
               else (case err of
                       Some _ \<Rightarrow> (Inl (CoordError ''acquire DynamoDB coordination lease''), t')
                     | None \<Rightarrow> (Inr (Some \<lparr>dl_key = key, dl_owner = owner\<rparr>), t'))))"

definition renew_input :: "'t DynamoDBCoordinator \<Rightarrow> dynamoLease \<Rightarrow> time \<Rightarrow> duration \<Rightarrow> UpdateItemInput" where
  "renew_input c l now duration =
     \<lparr>ui_TableName = dc_table c, ui_Key = itemKey (dl_key l),
      ui_Names = [(''#expires_at'', expiresAtAttribute), (''#owner'', ownerAttribute)],
      ui_Values = [('':expires_at'', number (time_Unix (now + duration))), ('':now'', number (time_Unix now)),
        ('':owner'', AttrS (dl_owner l))],
      ui_Condition = ''#owner = :owner AND #expires_at >= :now'',
      ui_Update = ''SET #expires_at = :expires_at''\<rparr>"

definition lease_result :: "ddb_error option \<Rightarrow> string \<Rightarrow> coord_error option" where
  "lease_result err what =
     (if isConditionalFailure err then Some ErrLeaseLost
      else case err of Some _ \<Rightarrow> Some (CoordError what) | None \<Rightarrow> None)"

definition Renew :: "'t DynamoDBCoordinator \<Rightarrow> ddb_error option \<Rightarrow> dynamoLease \<Rightarrow> time \<Rightarrow> duration \<Rightarrow> 't
    \<Rightarrow> coord_error option \<times> 't" where
  "Renew c net l now duration t =
     (case dc_UpdateItem c net (renew_input c l now duration) t of
        (err, t') \<Rightarrow> (lease_result err ''renew DynamoDB coordination lease'', t'))"

definition release_input :: "'t DynamoDBCoordinator \<Rightarrow> dynamoLease \<Rightarrow> DeleteItemInput" where
  "release_input c l =
     \<lparr>di_TableName = dc_table c, di_Key = itemKey (dl_key l), di_Names = [(''#owner'', ownerAttribute)],
      di_Values = [('':owner'', AttrS (dl_owner l))], di_Condition = ''#owner = :owner''\<rparr>"

definition Release :: "'t DynamoDBCoordinator \<Rightarrow> ddb_error option \<Rightarrow> dynamoLease \<Rightarrow> 't \<Rightarrow> coord_error option \<times> 't" where
  "Release c net l t =
     (case dc_DeleteItem c net (release_input c l) t of
        (err, t') \<Rightarrow> (lease_result err ''release DynamoDB coordination lease'', t'))"

definition cooldown_get_input :: "'t DynamoDBCoordinator \<Rightarrow> string \<Rightarrow> GetItemInput" where
  "cooldown_get_input c route =
     \<lparr>gi_TableName = dc_table c, gi_Key = itemKey (itemKey_of c ''cooldown'' route), gi_ConsistentRead = True,
      gi_Projection = ''#expires_at'', gi_Names = [(''#expires_at'', expiresAtAttribute)]\<rparr>"

definition Cooldown :: "'t DynamoDBCoordinator \<Rightarrow> ddb_error option \<Rightarrow> time \<Rightarrow> string \<Rightarrow> 't \<Rightarrow> coord_error + time" where
  "Cooldown c net now route t =
     (case dc_GetItem c net (cooldown_get_input c route) t of
        Inl _ \<Rightarrow> Inl (CoordError ''read DynamoDB upstream cooldown'')
      | Inr item \<Rightarrow>
          (case map_of item expiresAtAttribute of
             Some (AttrN v) \<Rightarrow>
               (case ParseInt64 v of
                  None \<Rightarrow> Inl (CoordError ''parse DynamoDB upstream cooldown'')
                | Some seconds \<Rightarrow>
                    let until = Unix_time seconds in if \<not> until > now then Inr 0 else Inr until)
           | _ \<Rightarrow> Inr 0))"

definition cooldown_input :: "'t DynamoDBCoordinator \<Rightarrow> string \<Rightarrow> time \<Rightarrow> UpdateItemInput" where
  "cooldown_input c route until =
     \<lparr>ui_TableName = dc_table c, ui_Key = itemKey (itemKey_of c ''cooldown'' route),
      ui_Names = [(''#expires_at'', expiresAtAttribute)],
      ui_Values = [('':expires_at'', number (time_Unix until))],
      ui_Condition = ''attribute_not_exists(#expires_at) OR #expires_at < :expires_at'',
      ui_Update = ''SET #expires_at = :expires_at''\<rparr>"

definition SetCooldown :: "'t DynamoDBCoordinator \<Rightarrow> ddb_error option \<Rightarrow> string \<Rightarrow> time \<Rightarrow> 't \<Rightarrow> coord_error option \<times> 't" where
  "SetCooldown c net route until t =
     (case dc_UpdateItem c net (cooldown_input c route until) t of
        (err, t') \<Rightarrow>
          if isConditionalFailure err then (None, t')
          else (case err of Some _ \<Rightarrow> (Some (CoordError ''set DynamoDB upstream cooldown''), t') | None \<Rightarrow> (None, t')))"

section \<open>What is relied on of DynamoDB\<close>

definition num_of :: "attr option \<Rightarrow> int option" where
  "num_of a = (case a of Some (AttrN v) \<Rightarrow> ParseInt64 v | _ \<Rightarrow> None)"

definition num_rel :: "(int \<Rightarrow> int \<Rightarrow> bool) \<Rightarrow> attr option \<Rightarrow> attr option \<Rightarrow> bool" where
  "num_rel rel a b = (case (num_of a, num_of b) of (Some i, Some j) \<Rightarrow> rel i j | _ \<Rightarrow> False)"

text \<open>The meaning of the expressions the coordinator uses, on the attributes of an item and the
  values given; a comparison with a missing attribute is false.\<close>

definition condition_holds :: "string \<Rightarrow> item \<Rightarrow> (string, attr) gomap \<Rightarrow> bool" where
  "condition_holds cond it vals =
     (if cond = ''attribute_not_exists(#owner) OR #expires_at <= :now'' then
        map_of it ownerAttribute = None \<or> num_rel (\<le>) (map_of it expiresAtAttribute) (map_of vals '':now'')
      else if cond = ''#owner = :owner AND #expires_at >= :now'' then
        map_of it ownerAttribute = map_of vals '':owner'' \<and>
        num_rel (\<ge>) (map_of it expiresAtAttribute) (map_of vals '':now'')
      else if cond = ''#owner = :owner'' then map_of it ownerAttribute = map_of vals '':owner''
      else if cond = ''attribute_not_exists(#expires_at) OR #expires_at < :expires_at'' then
        map_of it expiresAtAttribute = None \<or>
        num_rel (<) (map_of it expiresAtAttribute) (map_of vals '':expires_at'')
      else False)"

definition set_attr :: "string \<Rightarrow> attr option \<Rightarrow> item \<Rightarrow> item" where
  "set_attr name v it = (case v of Some a \<Rightarrow> AList.update name a it | None \<Rightarrow> it)"

definition apply_update :: "string \<Rightarrow> item \<Rightarrow> (string, attr) gomap \<Rightarrow> item" where
  "apply_update upd it vals =
     (if upd = ''SET #owner = :owner, #expires_at = :expires_at'' then
        set_attr expiresAtAttribute (map_of vals '':expires_at'') (set_attr ownerAttribute (map_of vals '':owner'') it)
      else if upd = ''SET #expires_at = :expires_at'' then
        set_attr expiresAtAttribute (map_of vals '':expires_at'') it
      else it)"

text \<open>A write answered with \<open>err\<close> took the table, seen as a map from keys to attributes, from
  \<open>v\<close> to \<open>v'\<close>: a failed condition changes nothing, any other error leaves it open whether the
  write took place.\<close>

definition wrote_item :: "bool \<Rightarrow> ddb_error option \<Rightarrow> string \<Rightarrow> item \<Rightarrow> (string \<Rightarrow> item) \<Rightarrow> (string \<Rightarrow> item) \<Rightarrow> bool" where
  "wrote_item cond err key it v v' =
     (case err of
        None \<Rightarrow> cond \<and> v' = v(key := it)
      | Some ConditionalCheckFailed \<Rightarrow> \<not> cond \<and> v' = v
      | Some (DdbError _) \<Rightarrow> v' = v \<or> cond \<and> v' = v(key := it))"

definition dynamodb_law :: "'t DynamoDBCoordinator \<Rightarrow> ('t \<Rightarrow> string \<Rightarrow> item) \<Rightarrow> bool" where
  "dynamodb_law c view \<longleftrightarrow>
     (\<forall>net inp t err t' key. dc_UpdateItem c net inp t = (err, t') \<longrightarrow> ui_Key inp = itemKey key \<longrightarrow>
        wrote_item (condition_holds (ui_Condition inp) (view t key) (ui_Values inp)) err key
          (apply_update (ui_Update inp) (view t key) (ui_Values inp)) (view t) (view t')) \<and>
     (\<forall>net inp t err t' key. dc_DeleteItem c net inp t = (err, t') \<longrightarrow> di_Key inp = itemKey key \<longrightarrow>
        wrote_item (condition_holds (di_Condition inp) (view t key) (di_Values inp)) err key [] (view t) (view t')) \<and>
     (\<forall>net inp t it key. dc_GetItem c net inp t = Inr it \<longrightarrow> gi_Key inp = itemKey key \<longrightarrow> gi_ConsistentRead inp \<longrightarrow>
        map_of it expiresAtAttribute = map_of (view t key) expiresAtAttribute) \<and>
     (\<forall>inp t. (\<exists>it. dc_GetItem c None inp t = Inr it)) \<and>
     (\<forall>inp t. fst (dc_UpdateItem c None inp t) \<in> {None, Some ConditionalCheckFailed})"

lemma dynamodb_update:
  assumes "dynamodb_law c view" and "dc_UpdateItem c net inp t = (err, t')" and "ui_Key inp = itemKey key"
  shows "wrote_item (condition_holds (ui_Condition inp) (view t key) (ui_Values inp)) err key
    (apply_update (ui_Update inp) (view t key) (ui_Values inp)) (view t) (view t')"
  by (rule assms(1) [unfolded dynamodb_law_def, THEN conjunct1, rule_format, OF assms(2,3)])

lemma dynamodb_delete:
  assumes "dynamodb_law c view" and "dc_DeleteItem c net inp t = (err, t')" and "di_Key inp = itemKey key"
  shows "wrote_item (condition_holds (di_Condition inp) (view t key) (di_Values inp)) err key [] (view t) (view t')"
  by (rule assms(1) [unfolded dynamodb_law_def, THEN conjunct2, THEN conjunct1, rule_format, OF assms(2,3)])

lemma dynamodb_read:
  assumes "dynamodb_law c view" and "dc_GetItem c net inp t = Inr it" and "gi_Key inp = itemKey key" and "gi_ConsistentRead inp"
  shows "map_of it expiresAtAttribute = map_of (view t key) expiresAtAttribute"
  by (rule assms(1) [unfolded dynamodb_law_def, THEN conjunct2, THEN conjunct2, THEN conjunct1, rule_format, OF assms(2-4)])

lemma dynamodb_quiet:
  assumes "dynamodb_law c view"
  shows "\<exists>it. dc_GetItem c None gin t = Inr it" and "fst (dc_UpdateItem c None inp t) \<in> {None, Some ConditionalCheckFailed}"
  by (rule assms [unfolded dynamodb_law_def, THEN conjunct2, THEN conjunct2, THEN conjunct2, THEN conjunct1, rule_format],
      rule assms [unfolded dynamodb_law_def, THEN conjunct2, THEN conjunct2, THEN conjunct2, THEN conjunct2, rule_format])

section \<open>Effect of each operation on the table\<close>

definition int64_time :: "time \<Rightarrow> bool" where
  "int64_time t \<longleftrightarrow> 0 \<le> t \<and> t < 2 ^ 63 * nsSecond"

lemma time_Unix_range: "int64_time t \<Longrightarrow> - (2 ^ 63) \<le> time_Unix t \<and> time_Unix t \<le> maxInt64"
  by (auto simp: int64_time_def time_Unix_def unixEpoch_def maxInt64_def)

lemma num_of_number: "int64_time t \<Longrightarrow> num_of (Some (number (time_Unix t))) = Some (time_Unix t)"
  using time_Unix_range [of t] by (simp add: num_of_def number_def ParseInt64_FormatInt)

lemma attributes_differ: "ownerAttribute \<noteq> expiresAtAttribute"
  by (simp add: ownerAttribute_def expiresAtAttribute_def)

abbreviation owner_of :: "item \<Rightarrow> attr option" where "owner_of it \<equiv> map_of it ownerAttribute"
abbreviation expiry_of :: "item \<Rightarrow> int option" where "expiry_of it \<equiv> num_of (map_of it expiresAtAttribute)"

text \<open>A lease is free for the taking at a time.\<close>

definition available :: "item \<Rightarrow> time \<Rightarrow> bool" where
  "available it now \<longleftrightarrow> owner_of it = None \<or> (\<exists>e. expiry_of it = Some e \<and> e \<le> time_Unix now)"

lemma acquire_effect:
  assumes law: "dynamodb_law c view" and t: "int64_time now" "int64_time (now + d)"
    and run: "TryAcquire c net (Inr owner) now res d t = (r, t')"
    and k: "k = itemKey_of c ''lease'' res"
  shows "(\<forall>l. r = Inr (Some l) \<longrightarrow> l = \<lparr>dl_key = k, dl_owner = owner\<rparr>) \<and>
    ((\<nexists>l. r = Inr (Some l)) \<and> view t' = view t \<or>
     available (view t k) now \<and> (\<exists>it. view t' = (view t)(k := it) \<and> owner_of it = Some (AttrS owner) \<and>
       expiry_of it = Some (time_Unix (now + d))))"
proof -
  let ?inp = "acquire_input c k owner now d"
  obtain err where up: "dc_UpdateItem c net ?inp t = (err, t')"
    and r: "r = (if isConditionalFailure err then Inr None else case err of
      Some _ \<Rightarrow> Inl (CoordError ''acquire DynamoDB coordination lease'') | None \<Rightarrow> Inr (Some \<lparr>dl_key = k, dl_owner = owner\<rparr>))"
    using run k by (auto simp: TryAcquire_def Let_def split: prod.splits if_splits option.splits)
  let ?it = "apply_update (ui_Update ?inp) (view t k) (ui_Values ?inp)"
  let ?cond = "condition_holds (ui_Condition ?inp) (view t k) (ui_Values ?inp)"
  have w: "wrote_item ?cond err k ?it (view t) (view t')"
    by (rule dynamodb_update [OF law up]) (simp add: acquire_input_def)
  have cond: "?cond \<Longrightarrow> available (view t k) now"
    using num_of_number [OF t(1)]
    by (auto simp: condition_holds_def acquire_input_def num_rel_def available_def split: option.splits)
  have it: "owner_of ?it = Some (AttrS owner)" "expiry_of ?it = Some (time_Unix (now + d))"
    using num_of_number [OF t(2)] attributes_differ
    by (simp_all add: apply_update_def acquire_input_def set_attr_def)
  show ?thesis
  proof (cases err)
    case None
    then show ?thesis using w cond it r by (auto simp: wrote_item_def isConditionalFailure_def)
  next
    case (Some e)
    then show ?thesis using w cond it r
      by (cases e) (auto simp: wrote_item_def isConditionalFailure_def)
  qed
qed

lemma renew_effect:
  assumes law: "dynamodb_law c view" and t: "int64_time now" "int64_time (now + d)"
    and run: "Renew c net l now d t = (r, t')"
  shows "r \<noteq> None \<and> view t' = view t \<or>
    owner_of (view t (dl_key l)) = Some (AttrS (dl_owner l)) \<and>
    (\<exists>it. view t' = (view t)(dl_key l := it) \<and> owner_of it = Some (AttrS (dl_owner l)) \<and>
       expiry_of it = Some (time_Unix (now + d)))"
proof -
  let ?inp = "renew_input c l now d" and ?k = "dl_key l"
  obtain err where up: "dc_UpdateItem c net ?inp t = (err, t')" and r: "r = lease_result err ''renew DynamoDB coordination lease''"
    using run by (auto simp: Renew_def split: prod.splits)
  let ?it = "apply_update (ui_Update ?inp) (view t ?k) (ui_Values ?inp)"
  let ?cond = "condition_holds (ui_Condition ?inp) (view t ?k) (ui_Values ?inp)"
  have w: "wrote_item ?cond err ?k ?it (view t) (view t')"
    by (rule dynamodb_update [OF law up]) (simp add: renew_input_def)
  have cond: "?cond \<Longrightarrow> owner_of (view t ?k) = Some (AttrS (dl_owner l))"
    by (simp add: condition_holds_def renew_input_def)
  have it: "owner_of ?it = owner_of (view t ?k)" "expiry_of ?it = Some (time_Unix (now + d))"
    using num_of_number [OF t(2)] attributes_differ
    by (simp_all add: apply_update_def renew_input_def set_attr_def)
  show ?thesis using w cond it r
    by (cases err; cases "the err") (auto simp: wrote_item_def lease_result_def isConditionalFailure_def)
qed

lemma release_effect:
  assumes law: "dynamodb_law c view" and run: "Release c net l t = (r, t')"
  shows "view t' = view t \<or>
    owner_of (view t (dl_key l)) = Some (AttrS (dl_owner l)) \<and> view t' = (view t)(dl_key l := [])"
proof -
  obtain err where up: "dc_DeleteItem c net (release_input c l) t = (err, t')"
    using run by (auto simp: Release_def split: prod.splits)
  have "wrote_item (condition_holds ''#owner = :owner'' (view t (dl_key l)) [('':owner'', AttrS (dl_owner l))]) err
      (dl_key l) [] (view t) (view t')"
    using dynamodb_delete [OF law up, of "dl_key l"] by (simp add: release_input_def)
  then show ?thesis
    by (cases err; cases "the err") (auto simp: wrote_item_def condition_holds_def)
qed

lemma SetCooldown_effect:
  assumes law: "dynamodb_law c view" and t: "int64_time until" and run: "SetCooldown c net route until t = (r, t')"
    and k: "k = itemKey_of c ''cooldown'' route"
  shows "view t' = view t \<and> (r = None \<longrightarrow> (\<forall>e. expiry_of (view t k) = Some e \<longrightarrow> time_Unix until \<le> e)) \<or>
    (\<exists>it. view t' = (view t)(k := it) \<and> expiry_of it = Some (time_Unix until) \<and>
       (\<forall>e. expiry_of (view t k) = Some e \<longrightarrow> e < time_Unix until))"
proof -
  let ?inp = "cooldown_input c route until"
  obtain err where up: "dc_UpdateItem c net ?inp t = (err, t')" and r: "r = None \<longrightarrow> err \<in> {None, Some ConditionalCheckFailed}"
    using run by (auto simp: SetCooldown_def isConditionalFailure_def split: prod.splits if_splits option.splits)
  let ?it = "apply_update (ui_Update ?inp) (view t k) (ui_Values ?inp)"
  let ?cond = "condition_holds (ui_Condition ?inp) (view t k) (ui_Values ?inp)"
  have w: "wrote_item ?cond err k ?it (view t) (view t')"
    by (rule dynamodb_update [OF law up]) (simp add: cooldown_input_def k)
  have cond: "?cond \<longrightarrow> (\<forall>e. expiry_of (view t k) = Some e \<longrightarrow> e < time_Unix until)"
    "\<not> ?cond \<longrightarrow> (\<forall>e. expiry_of (view t k) = Some e \<longrightarrow> time_Unix until \<le> e)"
    using num_of_number [OF t]
    by (auto simp: condition_holds_def cooldown_input_def num_rel_def num_of_def split: option.splits)
  have it: "expiry_of ?it = Some (time_Unix until)"
    using num_of_number [OF t] by (simp add: apply_update_def cooldown_input_def set_attr_def)
  show ?thesis using w cond it r
    by (cases err; cases "the err") (auto simp: wrote_item_def)
qed

section \<open>Processes sharing the table\<close>

text \<open>The world: the table, the clock all processes read, the leases processes hold with the
  expiry each has been granted, and the owners drawn so far, which randomness keeps distinct. All
  processes use the same lease duration \<open>D\<close>. A lease stays in the list after a failed renewal; it
  leaves when its process releases it.\<close>

record 't world =
  w_table :: 't
  w_now :: time
  w_leases :: "(dynamoLease \<times> int) list"
  w_owners :: "string list"

inductive coord_step :: "'t DynamoDBCoordinator \<Rightarrow> duration \<Rightarrow> 't world \<Rightarrow> 't world \<Rightarrow> bool"
  for c D where
  tick: "w_now w \<le> now \<Longrightarrow> int64_time (now + D) \<Longrightarrow> coord_step c D w (w\<lparr>w_now := now\<rparr>)"
| acquire: "owner \<notin> set (w_owners w) \<Longrightarrow>
    TryAcquire c net (Inr owner) (w_now w) res D (w_table w) = (Inr (Some l), t') \<Longrightarrow>
    coord_step c D w (w\<lparr>w_table := t', w_leases := (l, time_Unix (w_now w + D)) # w_leases w,
      w_owners := owner # w_owners w\<rparr>)"
| refused: "owner \<notin> set (w_owners w) \<Longrightarrow>
    TryAcquire c net (Inr owner) (w_now w) res D (w_table w) = (r, t') \<Longrightarrow> (\<nexists>l. r = Inr (Some l)) \<Longrightarrow>
    coord_step c D w (w\<lparr>w_table := t', w_owners := owner # w_owners w\<rparr>)"
| renew: "(l, e) \<in> set (w_leases w) \<Longrightarrow> Renew c net l (w_now w) D (w_table w) = (r, t') \<Longrightarrow>
    coord_step c D w (w\<lparr>w_table := t', w_leases :=
      (if r = None then [(l, time_Unix (w_now w + D))] else []) @ w_leases w\<rparr>)"
| release: "(l, e) \<in> set (w_leases w) \<Longrightarrow> Release c net l (w_table w) = (r, t') \<Longrightarrow>
    coord_step c D w (w\<lparr>w_table := t', w_leases := filter (\<lambda>(l', _). l' \<noteq> l) (w_leases w)\<rparr>)"
| cooldown: "int64_time until \<Longrightarrow> SetCooldown c net route until (w_table w) = (r, t') \<Longrightarrow>
    coord_step c D w (w\<lparr>w_table := t'\<rparr>)"

inductive coord_reach :: "'t DynamoDBCoordinator \<Rightarrow> duration \<Rightarrow> 't world \<Rightarrow> 't world \<Rightarrow> bool"
  for c D w0 where
  start: "coord_reach c D w0 w0"
| step: "coord_reach c D w0 w \<Longrightarrow> coord_step c D w w' \<Longrightarrow> coord_reach c D w0 w'"

text \<open>A lease that has not expired is the one the table records, to at least its expiry.\<close>

definition lease_inv :: "'t DynamoDBCoordinator \<Rightarrow> ('t \<Rightarrow> string \<Rightarrow> item) \<Rightarrow> duration \<Rightarrow> 't world \<Rightarrow> bool" where
  "lease_inv c view D w \<longleftrightarrow> 0 \<le> D \<and> 0 \<le> w_now w \<and> int64_time (w_now w + D) \<and>
     (\<forall>(l, e) \<in> set (w_leases w). dl_owner l \<in> set (w_owners w) \<and> (\<exists>res. dl_key l = itemKey_of c ''lease'' res) \<and>
        e \<le> time_Unix (w_now w + D) \<and>
        (time_Unix (w_now w) < e \<longrightarrow> owner_of (view (w_table w) (dl_key l)) = Some (AttrS (dl_owner l)) \<and>
           (\<exists>e'. expiry_of (view (w_table w) (dl_key l)) = Some e' \<and> e \<le> e')))"

lemma keys_of_kinds: "itemKey_of c ''lease'' res \<noteq> itemKey_of c ''cooldown'' route"
  by (simp add: itemKey_of_def)

lemma time_Unix_mono: "t \<le> u \<Longrightarrow> time_Unix t \<le> time_Unix u"
  by (simp add: time_Unix_def zdiv_mono1)

lemma lease_inv_step:
  assumes law: "dynamodb_law c view" and inv: "lease_inv c view D w" and step: "coord_step c D w w'"
  shows "lease_inv c view D w'"
proof -
  have now: "int64_time (w_now w)" "int64_time (w_now w + D)" and D: "0 \<le> D"
    using inv by (auto simp: lease_inv_def int64_time_def)
  show ?thesis using step
  proof cases
    case (tick now')
    then show ?thesis using inv time_Unix_mono [of "w_now w" now'] time_Unix_mono [of "w_now w + D" "now' + D"]
      by (fastforce simp: lease_inv_def)
  next
    case (acquire owner net res l t')
    let ?k = "itemKey_of c ''lease'' res"
    have l: "l = \<lparr>dl_key = ?k, dl_owner = owner\<rparr>" and av: "available (view (w_table w) ?k) (w_now w)"
      and ex: "\<exists>it. view t' = (view (w_table w))(?k := it) \<and> owner_of it = Some (AttrS owner) \<and>
       expiry_of it = Some (time_Unix (w_now w + D))"
      using acquire_effect [OF law now acquire(3) refl] by auto
    then show ?thesis using inv unfolding acquire(1) lease_inv_def available_def by fastforce
  next
    case (refused owner net res r t')
    then show ?thesis using acquire_effect [OF law now refused(3) refl] inv
      unfolding refused(1) lease_inv_def available_def by fastforce
  next
    case (renew l e net r t')
    then show ?thesis using renew_effect [OF law now renew(3)] inv D
      unfolding renew(1) lease_inv_def by fastforce
  next
    case (release l e net r t')
    then show ?thesis using release_effect [OF law release(3)] inv
      unfolding release(1) lease_inv_def by fastforce
  next
    case (cooldown until net route r t')
    then show ?thesis using SetCooldown_effect [OF law cooldown(2,3) refl] inv keys_of_kinds
      unfolding cooldown(1) lease_inv_def by fastforce
  qed
qed

lemma lease_inv_reach:
  assumes "dynamodb_law c view" and "coord_reach c D w0 w" and "lease_inv c view D w0"
  shows "lease_inv c view D w"
  using assms(2,3) by (induction rule: coord_reach.induct) (auto intro: lease_inv_step [OF assms(1)])

lemma lease_inv_owner:
  assumes "lease_inv c view D w" and "(l, e) \<in> set (w_leases w)" and "time_Unix (w_now w) < e"
  shows "owner_of (view (w_table w) (dl_key l)) = Some (AttrS (dl_owner l))"
  using assms by (fastforce simp: lease_inv_def)

section \<open>A table to try it on\<close>

definition table_write :: "ddb_error option \<Rightarrow> bool \<Rightarrow> string \<Rightarrow> item \<Rightarrow> (string \<Rightarrow> item) \<Rightarrow> ddb_error option \<times> (string \<Rightarrow> item)" where
  "table_write net cond key it t =
     (case net of Some e \<Rightarrow> (Some (DdbError ''network''), t)
      | None \<Rightarrow> if cond then (None, t(key := it)) else (Some ConditionalCheckFailed, t))"

definition key_of :: "item \<Rightarrow> string" where
  "key_of k = (case k of [(_, AttrS v)] \<Rightarrow> v | _ \<Rightarrow> [])"

definition example_coordinator :: "(string \<Rightarrow> item) DynamoDBCoordinator" where
  "example_coordinator = \<lparr>
     dc_UpdateItem = (\<lambda>net inp t. let k = key_of (ui_Key inp) in
       table_write net (condition_holds (ui_Condition inp) (t k) (ui_Values inp)) k (apply_update (ui_Update inp) (t k) (ui_Values inp)) t),
     dc_DeleteItem = (\<lambda>net inp t. let k = key_of (di_Key inp) in
       table_write net (condition_holds (di_Condition inp) (t k) (di_Values inp)) k [] t),
     dc_GetItem = (\<lambda>net inp t. Inr (t (key_of (gi_Key inp)))),
     dc_sha256 = (\<lambda>x. x), dc_table = ''coordination'', dc_keyPrefix = ''pfw''\<rparr>"

lemma example_dynamodb_law: "dynamodb_law example_coordinator (\<lambda>t. t)"
proof -
  have k: "key_of (itemKey key) = key" for key by (simp add: key_of_def itemKey_def)
  have w: "table_write net cond key it t = (err, t') \<Longrightarrow> wrote_item cond err key it t t'" for net cond key it t err t'
    by (auto simp: table_write_def wrote_item_def split: option.splits if_splits)
  show ?thesis unfolding dynamodb_law_def
  proof (intro conjI allI impI)
    fix inp :: UpdateItemInput and t
    show "fst (dc_UpdateItem example_coordinator None inp t) \<in> {None, Some ConditionalCheckFailed}"
      by (simp add: example_coordinator_def table_write_def Let_def)
  qed (auto simp: example_coordinator_def k Let_def intro: w)
qed

definition example_world :: "(string \<Rightarrow> item) world" where
  "example_world = \<lparr>w_table = (\<lambda>_. []), w_now = 0, w_leases = [], w_owners = []\<rparr>"


lemma example_acquire:
  "\<exists>l t'. TryAcquire example_coordinator None (Inr ''p'') 0 ''artifact:k'' (30 * nsSecond) (\<lambda>_. []) = (Inr (Some l), t')"
  by (simp add: TryAcquire_def acquire_input_def example_coordinator_def table_write_def condition_holds_def
      isConditionalFailure_def Let_def)


section \<open>Cooldowns\<close>

text \<open>What a caller relies on of a place that remembers until when a registry must not be asked:
  a cooldown that is set holds, to the precision of the store, and no later one shortens it.\<close>

locale cooldown_store =
  fixes get :: "time \<Rightarrow> string \<Rightarrow> 's \<Rightarrow> time" and put :: "string \<Rightarrow> time \<Rightarrow> 's \<Rightarrow> 's"
    and prec :: "time \<Rightarrow> time" and invar :: "'s \<Rightarrow> bool" and ok :: "time \<Rightarrow> bool"
  assumes invar_put: "invar s \<Longrightarrow> ok u \<Longrightarrow> invar (put r u s)"
    and get_put: "invar s \<Longrightarrow> ok u \<Longrightarrow> now < prec u \<Longrightarrow> prec u \<le> get now r (put r u s)"
    and put_keeps: "invar s \<Longrightarrow> ok u \<Longrightarrow> get now r s \<le> get now r (put r' u s)"
begin

lemma puts_keep:
  assumes "invar s" and "list_all (\<lambda>(r, u). ok u) us"
  shows "invar (fold (\<lambda>(r, u). put r u) us s) \<and> get now r s \<le> get now r (fold (\<lambda>(r, u). put r u) us s)"
  using assms
proof (induction us arbitrary: s)
  case (Cons ru us)
  obtain r' u where ru: "ru = (r', u)" by (cases ru)
  have "invar (put r' u s)" "get now r s \<le> get now r (put r' u s)"
    using Cons.prems ru invar_put put_keeps by auto
  then show ?case using Cons.IH [of "put r' u s"] Cons.prems ru by fastforce
qed simp

lemma cooldown_holds:
  assumes "invar s" and "list_all (\<lambda>(r, u). ok u) us" and "(r, u) \<in> set us" and "now < prec u"
  shows "prec u \<le> get now r (fold (\<lambda>(r, u). put r u) us s)"
proof -
  obtain as bs where us: "us = as @ (r, u) # bs" using assms(3) by (meson split_list)
  let ?s = "fold (\<lambda>(r, u). put r u) as s"
  have "invar ?s" "ok u" using puts_keep [of s as] assms(1,2) us by auto
  then have "prec u \<le> get now r (put r u ?s)" "invar (put r u ?s)"
    using get_put assms(4) invar_put by auto
  moreover have "get now r (put r u ?s) \<le> get now r (fold (\<lambda>(r, u). put r u) bs (put r u ?s))"
    using puts_keep [of "put r u ?s" bs] calculation(2) assms(2) us by auto
  ultimately show ?thesis using us by simp
qed

end

definition dynamo_get :: "time \<Rightarrow> string \<Rightarrow> 't DynamoDBCoordinator \<times> 't \<Rightarrow> time" where
  "dynamo_get now route = (\<lambda>(c, t). case Cooldown c None now route t of Inr until \<Rightarrow> until | Inl _ \<Rightarrow> 0)"

definition dynamo_put :: "string \<Rightarrow> time \<Rightarrow> 't DynamoDBCoordinator \<times> 't \<Rightarrow> 't DynamoDBCoordinator \<times> 't" where
  "dynamo_put route until = (\<lambda>(c, t). (c, snd (SetCooldown c None route until t)))"

definition dynamo_inv :: "'t DynamoDBCoordinator \<times> 't \<Rightarrow> bool" where
  "dynamo_inv = (\<lambda>(c, t). \<exists>view. dynamodb_law c view \<and> (\<forall>route. let it = view t (itemKey_of c ''cooldown'' route) in
     map_of it expiresAtAttribute \<noteq> None \<longrightarrow> (\<exists>e. expiry_of it = Some e)))"

lemma dynamo_get_view:
  assumes "dynamodb_law c view"
  shows "dynamo_get now route (c, t) = (case expiry_of (view t (itemKey_of c ''cooldown'' route)) of
    Some e \<Rightarrow> if now < Unix_time e then Unix_time e else 0 | None \<Rightarrow> 0)"
proof -
  obtain it where it: "dc_GetItem c None (cooldown_get_input c route) t = Inr it"
    using dynamodb_quiet(1) [OF assms] by blast
  have "map_of it expiresAtAttribute = map_of (view t (itemKey_of c ''cooldown'' route)) expiresAtAttribute"
    by (rule dynamodb_read [OF assms it]) (simp_all add: cooldown_get_input_def)
  then show ?thesis using it
    by (simp add: dynamo_get_def Cooldown_def num_of_def Let_def split: option.split attr.split)
qed

lemma dynamo_put_view:
  assumes law: "dynamodb_law c view" and u: "int64_time u" and k: "k = itemKey_of c ''cooldown'' route"
    and wf: "map_of (view t k) expiresAtAttribute \<noteq> None \<longrightarrow> (\<exists>e. expiry_of (view t k) = Some e)"
    and t': "dynamo_put route u (c, t) = (c, t')"
  shows "\<exists>e it. view t' = (view t)(k := it) \<and> expiry_of it = Some e \<and> time_Unix u \<le> e \<and>
    (\<forall>e'. expiry_of (view t k) = Some e' \<longrightarrow> e' \<le> e)"
proof -
  obtain r where run: "SetCooldown c None route u t = (r, t')"
    using t' by (cases "SetCooldown c None route u t") (simp add: dynamo_put_def)
  have "fst (dc_UpdateItem c None (cooldown_input c route u) t) \<in> {None, Some ConditionalCheckFailed}"
    by (rule dynamodb_quiet(2) [OF law])
  then have r: "r = None" using run
    by (cases "dc_UpdateItem c None (cooldown_input c route u) t") (auto simp: SetCooldown_def isConditionalFailure_def)
  have none: "map_of (view t k) expiresAtAttribute = None \<Longrightarrow> view t' \<noteq> view t"
  proof
    assume new: "map_of (view t k) expiresAtAttribute = None" and same: "view t' = view t"
    let ?inp = "cooldown_input c route u"
    obtain err where up: "dc_UpdateItem c None ?inp t = (err, t')"
      using run by (auto simp: SetCooldown_def split: prod.splits if_splits option.splits)
    have w: "wrote_item (condition_holds (ui_Condition ?inp) (view t k) (ui_Values ?inp)) err k
        (apply_update (ui_Update ?inp) (view t k) (ui_Values ?inp)) (view t) (view t')"
      by (rule dynamodb_update [OF law up]) (simp add: cooldown_input_def k)
    have c: "condition_holds (ui_Condition ?inp) (view t k) (ui_Values ?inp)"
      using new by (simp add: condition_holds_def cooldown_input_def)
    have "err \<in> {None, Some ConditionalCheckFailed}" using dynamodb_quiet(2) [OF law, of ?inp t] up by simp
    with w c have "view t' = (view t)(k := apply_update (ui_Update ?inp) (view t k) (ui_Values ?inp))"
      by (auto simp: wrote_item_def)
    then have "map_of (view t' k) expiresAtAttribute \<noteq> None"
      by (simp add: apply_update_def cooldown_input_def set_attr_def)
    with same new show False by simp
  qed
  from SetCooldown_effect [OF law u run k] r show ?thesis
  proof (elim disjE conjE exE)
    assume same: "view t' = view t" and le: "r = None \<longrightarrow> (\<forall>e. expiry_of (view t k) = Some e \<longrightarrow> time_Unix u \<le> e)"
    obtain e where e: "expiry_of (view t k) = Some e" using wf none same by blast
    show ?thesis using same le r e by (intro exI [of _ e] exI [of _ "view t k"]) auto
  next
    fix it assume "view t' = (view t)(k := it)" "expiry_of it = Some (time_Unix u)"
      "\<forall>e. expiry_of (view t k) = Some e \<longrightarrow> e < time_Unix u"
    then show ?thesis by (intro exI [of _ "time_Unix u"] exI [of _ it]) auto
  qed
qed

lemma Unix_time_mono: "a \<le> b \<Longrightarrow> Unix_time a \<le> Unix_time b"
  by (simp add: Unix_time_def)

lemma dynamo_put_cases:
  assumes "dynamo_inv s" and "int64_time u"
  obtains c t view t' e it where "s = (c, t)" "dynamodb_law c view" "dynamo_put r u s = (c, t')"
    "\<And>route. map_of (view t (itemKey_of c ''cooldown'' route)) expiresAtAttribute \<noteq> None \<longrightarrow>
      (\<exists>e. expiry_of (view t (itemKey_of c ''cooldown'' route)) = Some e)"
    "view t' = (view t)(itemKey_of c ''cooldown'' r := it)" "expiry_of it = Some e" "time_Unix u \<le> e"
    "\<And>e'. expiry_of (view t (itemKey_of c ''cooldown'' r)) = Some e' \<Longrightarrow> e' \<le> e"
proof -
  obtain c t view where s: "s = (c, t)" and law: "dynamodb_law c view"
    and wf: "\<And>route. map_of (view t (itemKey_of c ''cooldown'' route)) expiresAtAttribute \<noteq> None \<longrightarrow>
      (\<exists>e. expiry_of (view t (itemKey_of c ''cooldown'' route)) = Some e)"
    using assms(1) by (cases s) (auto simp: dynamo_inv_def Let_def)
  obtain t' where t': "dynamo_put r u (c, t) = (c, t')" by (simp add: dynamo_put_def)
  from dynamo_put_view [OF law assms(2) refl wf t'] show thesis using that s law wf t' by blast
qed

lemma dynamo_invar_put: "dynamo_inv s \<Longrightarrow> int64_time u \<Longrightarrow> dynamo_inv (dynamo_put r u s)"
proof (erule (1) dynamo_put_cases [where r = r])
  fix c t view t' e it
  assume "dynamodb_law c view" "dynamo_put r u s = (c, t')"
    "\<And>route. map_of (view t (itemKey_of c ''cooldown'' route)) expiresAtAttribute \<noteq> None \<longrightarrow>
      (\<exists>e. expiry_of (view t (itemKey_of c ''cooldown'' route)) = Some e)"
    "view t' = (view t)(itemKey_of c ''cooldown'' r := it)" "expiry_of it = Some e"
  then show "dynamo_inv (dynamo_put r u s)"
    by (force simp: dynamo_inv_def Let_def split: if_splits intro!: exI [of _ view])
qed

lemma dynamo_get_put:
  assumes "dynamo_inv s" and "int64_time u" and "now < Unix_time (time_Unix u)"
  shows "Unix_time (time_Unix u) \<le> dynamo_get now r (dynamo_put r u s)"
  using assms(1,2)
proof (rule dynamo_put_cases [where r = r])
  fix c view t t' e it
  assume "dynamodb_law c view" "dynamo_put r u s = (c, t')"
    "view t' = (view t)(itemKey_of c ''cooldown'' r := it)" "expiry_of it = Some e" "time_Unix u \<le> e"
  with assms(3) show ?thesis using Unix_time_mono [of "time_Unix u" e] by (simp add: dynamo_get_view)
qed

lemma dynamo_put_keeps:
  assumes "dynamo_inv s" and "int64_time u"
  shows "dynamo_get now r s \<le> dynamo_get now r (dynamo_put r' u s)"
  using assms
proof (rule dynamo_put_cases [where r = r'])
  fix c view t t' e it
  assume a: "s = (c, t)" "dynamodb_law c view" "dynamo_put r' u s = (c, t')"
    "view t' = (view t)(itemKey_of c ''cooldown'' r' := it)" "expiry_of it = Some e"
    and ge: "time_Unix u \<le> e" and le: "\<And>e'. expiry_of (view t (itemKey_of c ''cooldown'' r')) = Some e' \<Longrightarrow> e' \<le> e"
  have "0 \<le> u div nsSecond" using assms(2) by (simp add: int64_time_def pos_imp_zdiv_nonneg_iff)
  then have "0 \<le> Unix_time (time_Unix u)" by (simp add: Unix_time_def time_Unix_def)
  then have nonneg: "0 \<le> Unix_time e" using Unix_time_mono [OF ge] by simp
  have m: "dynamo_get now r (c, t') = (case expiry_of (view t' (itemKey_of c ''cooldown'' r)) of
      Some e \<Rightarrow> if now < Unix_time e then Unix_time e else 0 | None \<Rightarrow> 0)"
    by (rule dynamo_get_view [OF a(2)])
  have n: "dynamo_get now r (c, t) = (case expiry_of (view t (itemKey_of c ''cooldown'' r)) of
      Some e \<Rightarrow> if now < Unix_time e then Unix_time e else 0 | None \<Rightarrow> 0)"
    by (rule dynamo_get_view [OF a(2)])
  show ?thesis
  proof (cases "itemKey_of c ''cooldown'' r = itemKey_of c ''cooldown'' r'")
    case False
    then show ?thesis using m n a by simp
  next
    case True
    show ?thesis
    proof (cases "expiry_of (view t (itemKey_of c ''cooldown'' r))")
      case None
      with nonneg show ?thesis using m n a True by simp
    next
      case (Some e')
      then show ?thesis using m n a True le [of e'] Unix_time_mono [of e' e] nonneg by auto
    qed
  qed
qed

interpretation dynamo_cooldowns: cooldown_store dynamo_get dynamo_put "\<lambda>u. Unix_time (time_Unix u)" dynamo_inv int64_time
  by unfold_locales (fact dynamo_invar_put dynamo_get_put dynamo_put_keeps)+

end
