(* ===== verification/Upstream.thy ===== *)
theory Upstream
  imports Redirect Coordination
begin

text \<open>
  internal/proxy/upstream.go: requests to a registry are limited in number, wait out a cooldown
  and are tried again when the registry answers 429. What a call meets on the way (clock readings,
  the coordinator's cooldown, whether a slot came free, the transport, the jitter, whether a wait
  was cut short) is given for each attempt; what it does is a list of events. A body handed back
  carries the events its Close causes. Durations are int64 and wrap. The limiter itself, shared
  by all requests, is a step relation.
\<close>

section \<open>Durations\<close>

definition int64 :: "int \<Rightarrow> int" where
  "int64 x = (x + 2 ^ 63) mod 2 ^ 64 - 2 ^ 63"

definition quot64 :: "int \<Rightarrow> int \<Rightarrow> int" where
  "quot64 x y = (if x < 0 then - ((- x) div y) else x div y)"

abbreviation (input) nsMillisecond :: duration where "nsMillisecond \<equiv> 1000000"

section \<open>Limits and cooldowns\<close>

record UpstreamProtectionConfig =
  upc_MaxConcurrentPerRegistry :: int
  upc_QueueTimeout :: duration
  upc_RateLimitRetries :: int
  upc_MaxRetryAfter :: duration

definition WithUpstreamProtection :: "UpstreamProtectionConfig \<Rightarrow> UpstreamProtectionConfig" where
  "WithUpstreamProtection cfg =
     \<lparr>upc_MaxConcurrentPerRegistry = (if upc_MaxConcurrentPerRegistry cfg \<le> 0 then 4 else upc_MaxConcurrentPerRegistry cfg),
      upc_QueueTimeout = (if upc_QueueTimeout cfg \<le> 0 then 15 * nsSecond else upc_QueueTimeout cfg),
      upc_RateLimitRetries = (if upc_RateLimitRetries cfg < 0 then 1 else upc_RateLimitRetries cfg),
      upc_MaxRetryAfter = (if upc_MaxRetryAfter cfg \<le> 0 then 30 * nsSecond else upc_MaxRetryAfter cfg)\<rparr>"

type_synonym routeCooldowns = "(string, time) gomap"

definition cooldowns_get :: "string \<Rightarrow> routeCooldowns \<Rightarrow> time" where
  "cooldowns_get route c = (case map_of c route of Some t \<Rightarrow> t | None \<Rightarrow> 0)"

definition cooldowns_set :: "string \<Rightarrow> time \<Rightarrow> routeCooldowns \<Rightarrow> routeCooldowns" where
  "cooldowns_set route until c = (if until > cooldowns_get route c then AList.update route until c else c)"

text \<open>A limiter is a buffered channel: its capacity and how many slots are taken.\<close>

type_synonym routeLimiters = "(string, nat \<times> nat) gomap"

definition limiter :: "string \<Rightarrow> nat \<Rightarrow> routeLimiters \<Rightarrow> (nat \<times> nat) \<times> routeLimiters" where
  "limiter route capacity l =
     (case map_of l route of
        Some chan \<Rightarrow> (chan, l)
      | None \<Rightarrow> ((capacity, 0), AList.update route (capacity, 0) l))"

section \<open>Retry-After\<close>

definition ParseInt32 :: "string \<Rightarrow> int option" where
  "ParseInt32 s = (case ParseInt64 s of Some i \<Rightarrow> if - (2 ^ 31) \<le> i \<and> i < 2 ^ 31 then Some i else None | None \<Rightarrow> None)"

definition retryAfterDelay :: "http_lib \<Rightarrow> string \<Rightarrow> time \<Rightarrow> duration \<times> bool" where
  "retryAfterDelay lib value now =
     (let value = TrimSpace value in
      if value = [] then (0, False)
      else case ParseInt32 value of
        Some seconds \<Rightarrow> if seconds < 0 then (0, False) else (seconds * nsSecond, True)
      | None \<Rightarrow>
          (case hl_ParseTime lib value of
             None \<Rightarrow> (0, False)
           | Some when \<Rightarrow> (max (time_Sub when now) 0, True)))"

definition retryAfterSeconds :: "duration \<Rightarrow> string" where
  "retryAfterSeconds delay =
     (let seconds = quot64 (int64 (delay + nsSecond - 1)) nsSecond in
      FormatInt (if seconds < 1 then 1 else seconds))"

definition rateLimitBackoff :: "UpstreamProtectionConfig \<Rightarrow> (duration \<Rightarrow> duration) \<Rightarrow> nat \<Rightarrow> duration" where
  "rateLimitBackoff cfg jitter attempt =
     (let maximum = nsSecond * 2 ^ min attempt 5;
          maximum = (if maximum > upc_MaxRetryAfter cfg then upc_MaxRetryAfter cfg else maximum);
          delay = jitter maximum;
          minimum = min (100 * nsMillisecond) maximum
      in if delay < minimum then minimum else delay)"

definition randomJitter :: "int \<Rightarrow> duration \<Rightarrow> duration" where
  "randomJitter rand maximum = (if maximum \<le> 0 then 0 else rand mod maximum)"

definition retryableRequest :: "upstream_request \<Rightarrow> bool" where
  "retryableRequest request \<longleftrightarrow> (ur_Method request = ''GET'' \<or> ur_Method request = ''HEAD'') \<and> ur_Body request = None"

definition cooldownResponse :: "upstream_request \<Rightarrow> duration \<Rightarrow> upstream_response" where
  "cooldownResponse request remaining =
     (let body = ''upstream registry is rate limited'' @ [CHR 0x0A] in
      \<lparr>resp_StatusCode = 429,
       resp_Header = [(''Content-Type'', [''text/plain; charset=utf-8'']), (''Retry-After'', [retryAfterSeconds remaining])],
       resp_Body = [(body, ReadEOF)], resp_ContentLength = int (length body), resp_Uncompressed = False,
       resp_Location = None, resp_Request = Some \<lparr>rr_URL = Some (ur_URL request), rr_Header = ur_Header request,
         rr_redirected = False, rr_uncacheableHops = False\<rparr>\<rparr>)"

definition upstreamRegistryKey :: "config_lib \<Rightarrow> upstream_request \<Rightarrow> string" where
  "upstreamRegistryKey lib request =
     (let origin = u_Scheme (ur_URL request) @ ''://'' @ u_Host (ur_URL request) in
      case NormalizeHTTPOrigin lib origin of Inr normalized \<Rightarrow> normalized | Inl _ \<Rightarrow> ToLower origin)"

section \<open>One request\<close>

datatype upstream_error = ErrUpstreamQueueTimeout | UpstreamCtx string | UpstreamFailed redirect_error

datatype upstream_event = EvThrottled string | EvWait duration | EvAcquire | EvRelease | EvInFlight int
  | EvRequest string | EvRetry string | EvSetCooldown time | EvCancel

record attempt_env =
  ae_remote :: "(string + time) option"
  ae_nowCooldown :: time
  ae_waitCooldown :: "string option"
  ae_acquire :: "upstream_error option"
  ae_transport :: transport
  ae_nowRetry :: time
  ae_nowSet :: time
  ae_jitter :: "duration \<Rightarrow> duration"
  ae_waitRetry :: "string option"

type_synonym upstream_result = "upstream_error + upstream_response \<times> upstream_event list"

datatype cooldown_verdict = Proceed | Answer upstream_response | CooldownFailed string

definition waitForCooldown :: "UpstreamProtectionConfig \<Rightarrow> attempt_env \<Rightarrow> upstream_request \<Rightarrow> string \<Rightarrow> routeCooldowns
    \<Rightarrow> cooldown_verdict \<times> routeCooldowns \<times> upstream_event list" where
  "waitForCooldown cfg e request registry cd =
     (let until = cooldowns_get registry cd;
          (until, cd) = (case ae_remote e of
              Some (Inr remote) \<Rightarrow> if remote > until then (remote, cooldowns_set registry remote cd) else (until, cd)
            | _ \<Rightarrow> (until, cd));
          remaining = time_Sub until (ae_nowCooldown e)
      in if remaining \<le> 0 then (Proceed, cd, [])
         else if remaining > upc_MaxRetryAfter cfg
         then (Answer (cooldownResponse request remaining), cd, [EvThrottled ''cooldown''])
         else (case ae_waitCooldown e of Some err \<Rightarrow> CooldownFailed err | None \<Rightarrow> Proceed,
               cd, [EvThrottled ''cooldown_wait'', EvWait remaining]))"

definition setCooldown :: "string \<Rightarrow> time \<Rightarrow> routeCooldowns \<Rightarrow> routeCooldowns \<times> upstream_event list" where
  "setCooldown registry until cd = (cooldowns_set registry until cd, [EvSetCooldown until])"

definition retry_delay :: "http_lib \<Rightarrow> UpstreamProtectionConfig \<Rightarrow> attempt_env \<Rightarrow> nat \<Rightarrow> upstream_response
    \<Rightarrow> duration \<times> upstream_response" where
  "retry_delay lib cfg e attempt response =
     (case retryAfterDelay lib (header_Get (resp_Header response) ''Retry-After'') (ae_nowRetry e) of
        (_, False) \<Rightarrow>
          let delay = rateLimitBackoff cfg (ae_jitter e) attempt in
          (delay, response\<lparr>resp_Header := header_Set ''Retry-After'' (retryAfterSeconds delay) (resp_Header response)\<rparr>)
      | (delay, True) \<Rightarrow>
          if delay > 0 then
            let jittered = int64 (delay + ae_jitter e (min (delay div 10) (250 * nsMillisecond))) in
            (if delay \<le> upc_MaxRetryAfter cfg \<and> jittered > upc_MaxRetryAfter cfg then upc_MaxRetryAfter cfg else jittered,
             response)
          else (delay, response))"

record do_lib =
  dol_url :: url_lib
  dol_http :: http_lib
  dol_configured :: "(url option \<Rightarrow> url list \<Rightarrow> redirect_error option) option"

function do_loop :: "do_lib \<Rightarrow> UpstreamProtectionConfig \<Rightarrow> (nat \<Rightarrow> attempt_env) \<Rightarrow> RouteConfig \<Rightarrow> upstream_request \<Rightarrow> string
    \<Rightarrow> nat \<Rightarrow> routeCooldowns \<Rightarrow> (upstream_result \<times> routeCooldowns \<times> upstream_event list) option" where
  "do_loop lib cfg env route request registry attempt cd =
     (let e = env attempt in
      case waitForCooldown cfg e request registry cd of
        (Answer response, cd, evs) \<Rightarrow> Some (Inr (response, [EvCancel]), cd, evs)
      | (CooldownFailed err, cd, evs) \<Rightarrow> Some (Inl (UpstreamCtx err), cd, evs @ [EvCancel])
      | (Proceed, cd, evs) \<Rightarrow>
          (case ae_acquire e of
             Some err \<Rightarrow>
               Some (Inl err, cd, evs @ (if err = ErrUpstreamQueueTimeout then [EvThrottled ''queue_timeout''] else []) @ [EvCancel])
           | None \<Rightarrow>
               (case doOnce (dol_url lib) (ae_transport e) (dol_configured lib) route request of
                  None \<Rightarrow> None
                | Some (Inl err) \<Rightarrow>
                    Some (Inl (UpstreamFailed err), cd,
                      evs @ [EvAcquire, EvInFlight 1, EvRelease, EvInFlight (-1), EvRequest ''error'', EvCancel])
                | Some (Inr response) \<Rightarrow>
                    let evs = evs @ [EvAcquire, EvInFlight 1, EvRequest (FormatInt (resp_StatusCode response))];
                        closing = [EvRelease, EvInFlight (-1)] in
                    if resp_StatusCode response \<noteq> 429 then Some (Inr (response, closing @ [EvCancel]), cd, evs)
                    else (case retry_delay (dol_http lib) cfg e attempt response of
                            (delay, response) \<Rightarrow>
                              (case setCooldown registry (ae_nowSet e + delay) cd of
                                 (cd, sets) \<Rightarrow>
                                   if \<not> retryableRequest request \<or> int attempt \<ge> upc_RateLimitRetries cfg
                                      \<or> delay > upc_MaxRetryAfter cfg
                                   then Some (Inr (response, closing @ [EvCancel]), cd, evs @ sets)
                                   else
                                     let evs = evs @ sets @ closing @ [EvRetry ''rate_limited'', EvWait delay] in
                                     (case ae_waitRetry e of
                                        Some err \<Rightarrow> Some (Inl (UpstreamCtx err), cd, evs @ [EvCancel])
                                      | None \<Rightarrow>
                                          map_option (\<lambda>(r, cd, more). (r, cd, evs @ more))
                                            (do_loop lib cfg env route request registry (Suc attempt) cd)))))))"
  by pat_completeness auto
termination
  by (relation "measure (\<lambda>(_, cfg, _, _, _, _, attempt, _). nat (upc_RateLimitRetries cfg - int attempt))") auto

declare do_loop.simps [simp del]

definition proxy_do :: "do_lib \<Rightarrow> UpstreamProtectionConfig \<Rightarrow> (nat \<Rightarrow> attempt_env) \<Rightarrow> RouteConfig \<Rightarrow> upstream_request
    \<Rightarrow> routeCooldowns \<Rightarrow> (upstream_result \<times> routeCooldowns \<times> upstream_event list) option" where
  "proxy_do lib cfg env route request cd =
     do_loop lib cfg env route request (upstreamRegistryKey (ul_conf (dol_url lib)) request) 0 cd"

section \<open>Local cooldowns\<close>

lemma cooldowns_get_set: "cooldowns_get r (cooldowns_set r' u c) = (if r = r' then max u (cooldowns_get r c) else cooldowns_get r c)"
  by (auto simp: cooldowns_get_def cooldowns_set_def max_def)

interpretation local_cooldowns: cooldown_store "\<lambda>_. cooldowns_get" cooldowns_set "\<lambda>u. u" "\<lambda>_. True" "\<lambda>_. True"
  by unfold_locales (auto simp: cooldowns_get_set)

section \<open>Accounting for one request\<close>

definition closing :: "upstream_result \<Rightarrow> upstream_event list" where
  "closing r = (case r of Inr (_, evs) \<Rightarrow> evs | Inl _ \<Rightarrow> [])"

definition inflight :: "upstream_event list \<Rightarrow> int" where
  "inflight evs = sum_list (map (\<lambda>e. case e of EvInFlight d \<Rightarrow> d | _ \<Rightarrow> 0) evs)"

definition requests :: "upstream_event list \<Rightarrow> nat" where
  "requests evs = length (filter (\<lambda>e. case e of EvRequest _ \<Rightarrow> True | _ \<Rightarrow> False) evs)"

definition waits_within :: "duration \<Rightarrow> upstream_event list \<Rightarrow> bool" where
  "waits_within m evs = list_all (\<lambda>e. case e of EvWait d \<Rightarrow> d \<le> m | _ \<Rightarrow> True) evs"

lemmas accounting = closing_def inflight_def requests_def waits_within_def

lemma accounting_append [simp]:
  "inflight (xs @ ys) = inflight xs + inflight ys" "requests (xs @ ys) = requests xs + requests ys"
  "waits_within m (xs @ ys) \<longleftrightarrow> waits_within m xs \<and> waits_within m ys"
  "count_list (xs @ ys) e = count_list xs e + count_list ys e"
  by (simp_all add: accounting count_list_append)

lemma waitForCooldown_events:
  assumes "waitForCooldown cfg e request registry cd = (v, cd', evs)"
  shows "count_list evs EvAcquire = 0" "count_list evs EvRelease = 0" "count_list evs EvCancel = 0"
    "inflight evs = 0" "requests evs = 0" "waits_within (upc_MaxRetryAfter cfg) evs"
    "cooldowns_get registry cd \<le> cooldowns_get registry cd'" "EvSetCooldown u \<notin> set evs"
  using assms
  by (auto simp: waitForCooldown_def Let_def accounting cooldowns_get_set split: if_splits option.splits sum.splits)

text \<open>Each attempt either ends the call or gives back what it took and goes on.\<close>

lemma do_loop_cases:
  obtains (ends) r cd' evs where "do_loop lib cfg env route request registry attempt cd = Some (r, cd', evs)"
      "count_list (evs @ closing r) EvAcquire = count_list (evs @ closing r) EvRelease"
      "inflight (evs @ closing r) = 0" "count_list (evs @ closing r) EvCancel = 1" "requests (evs @ closing r) \<le> 1"
      "waits_within (upc_MaxRetryAfter cfg) (evs @ closing r)"
      "cooldowns_get registry cd \<le> cooldowns_get registry cd'"
      "\<And>u. EvSetCooldown u \<in> set evs \<Longrightarrow> u \<le> cooldowns_get registry cd'"
  | (again) evs cd' where "do_loop lib cfg env route request registry attempt cd =
        map_option (\<lambda>(r, cd, more). (r, cd, evs @ more)) (do_loop lib cfg env route request registry (Suc attempt) cd')"
      "retryableRequest request" "int attempt < upc_RateLimitRetries cfg"
      "count_list evs EvAcquire = count_list evs EvRelease" "inflight evs = 0" "count_list evs EvCancel = 0" "requests evs = 1"
      "waits_within (upc_MaxRetryAfter cfg) evs"
      "cooldowns_get registry cd \<le> cooldowns_get registry cd'"
      "\<And>u. EvSetCooldown u \<in> set evs \<Longrightarrow> u \<le> cooldowns_get registry cd'"
proof -
  let ?e = "env attempt"
  obtain v cd1 evs where w: "waitForCooldown cfg ?e request registry cd = (v, cd1, evs)" by (metis prod.exhaust)
  note ev = waitForCooldown_events [OF w]
  note unfold = do_loop.simps [of lib cfg env route request registry attempt cd] w Let_def
  show thesis
  proof (cases v)
    case (Answer response)
    then have "do_loop lib cfg env route request registry attempt cd = Some (Inr (response, [EvCancel]), cd1, evs)"
      by (simp add: unfold)
    then show thesis by (rule ends) (use ev in \<open>auto simp: accounting\<close>)
  next
    case (CooldownFailed err)
    then have "do_loop lib cfg env route request registry attempt cd = Some (Inl (UpstreamCtx err), cd1, evs @ [EvCancel])"
      by (simp add: unfold)
    then show thesis by (rule ends) (use ev in \<open>auto simp: accounting\<close>)
  next
    case Proceed
    show thesis
    proof (cases "ae_acquire ?e")
      case (Some err)
      then have "do_loop lib cfg env route request registry attempt cd = Some (Inl err, cd1,
          evs @ (if err = ErrUpstreamQueueTimeout then [EvThrottled ''queue_timeout''] else []) @ [EvCancel])"
        using Proceed by (simp add: unfold)
      then show thesis by (rule ends) (use ev in \<open>auto simp: accounting\<close>)
    next
      case None
      obtain out where out: "doOnce (dol_url lib) (ae_transport ?e) (dol_configured lib) route request = Some out"
        using doOnce_returns by blast
      show thesis
      proof (cases out)
        case (Inl err)
        then have "do_loop lib cfg env route request registry attempt cd = Some (Inl (UpstreamFailed err), cd1,
            evs @ [EvAcquire, EvInFlight 1, EvRelease, EvInFlight (-1), EvRequest ''error'', EvCancel])"
          using Proceed None out by (simp add: unfold)
        then show thesis by (rule ends) (use ev in \<open>auto simp: accounting\<close>)
      next
        case (Inr response)
        let ?evs = "evs @ [EvAcquire, EvInFlight 1, EvRequest (FormatInt (resp_StatusCode response))]"
        let ?close = "[EvRelease, EvInFlight (-1)]"
        show thesis
        proof (cases "resp_StatusCode response = 429")
          case False
          then have "do_loop lib cfg env route request registry attempt cd = Some (Inr (response, ?close @ [EvCancel]), cd1, ?evs)"
            using Proceed None out Inr by (simp add: unfold)
          then show thesis by (rule ends) (use ev in \<open>auto simp: accounting\<close>)
        next
          case limited: True
          obtain delay resp' where d: "retry_delay (dol_http lib) cfg ?e attempt response = (delay, resp')"
            by (metis prod.exhaust)
          let ?until = "ae_nowSet ?e + delay"
          let ?cd = "cooldowns_set registry ?until cd1"
          show thesis
          proof (cases "\<not> retryableRequest request \<or> int attempt \<ge> upc_RateLimitRetries cfg \<or> delay > upc_MaxRetryAfter cfg")
            case True
            then have "do_loop lib cfg env route request registry attempt cd =
                Some (Inr (resp', ?close @ [EvCancel]), ?cd, ?evs @ [EvSetCooldown ?until])"
              using Proceed None out Inr limited d by (simp add: unfold setCooldown_def)
            then show thesis by (rule ends) (use ev in \<open>auto simp: accounting cooldowns_get_set\<close>)
          next
            case retry: False
            let ?more = "?evs @ [EvSetCooldown ?until] @ ?close @ [EvRetry ''rate_limited'', EvWait delay]"
            show thesis
            proof (cases "ae_waitRetry ?e")
              case (Some err)
              then have "do_loop lib cfg env route request registry attempt cd =
                  Some (Inl (UpstreamCtx err), ?cd, ?more @ [EvCancel])"
                using Proceed None out Inr limited d retry by (simp add: unfold setCooldown_def)
              then show thesis by (rule ends) (use ev retry in \<open>auto simp: accounting cooldowns_get_set\<close>)
            next
              case go: None
              then have "do_loop lib cfg env route request registry attempt cd =
                  map_option (\<lambda>(r, cd, more). (r, cd, ?more @ more)) (do_loop lib cfg env route request registry (Suc attempt) ?cd)"
                using Proceed None out Inr limited d retry by (simp add: unfold setCooldown_def)
              then show thesis by (rule again) (use ev retry in \<open>auto simp: accounting cooldowns_get_set\<close>)
            qed
          qed
        qed
      qed
    qed
  qed
qed

lemma do_loop_accounts:
  "\<exists>r cd' evs. do_loop lib cfg env route request registry attempt cd = Some (r, cd', evs) \<and>
     count_list (evs @ closing r) EvAcquire = count_list (evs @ closing r) EvRelease \<and>
     inflight (evs @ closing r) = 0 \<and> count_list (evs @ closing r) EvCancel = 1 \<and>
     requests (evs @ closing r) \<le> (if retryableRequest request then nat (upc_RateLimitRetries cfg - int attempt) + 1 else 1) \<and>
     waits_within (upc_MaxRetryAfter cfg) (evs @ closing r) \<and>
     cooldowns_get registry cd \<le> cooldowns_get registry cd' \<and>
     (\<forall>u. EvSetCooldown u \<in> set evs \<longrightarrow> u \<le> cooldowns_get registry cd')"
proof (induction "nat (upc_RateLimitRetries cfg - int attempt)" arbitrary: attempt cd rule: less_induct)
  case less
  show ?case
  proof (cases rule: do_loop_cases [of lib cfg env route request registry attempt cd])
    case (ends r cd' evs)
    then show ?thesis by (intro exI [of _ r] exI [of _ cd'] exI [of _ evs]) auto
  next
    case (again evs cd1)
    have lt: "nat (upc_RateLimitRetries cfg - int (Suc attempt)) < nat (upc_RateLimitRetries cfg - int attempt)"
      using again(3) by simp
    from less [OF this, of cd1] obtain r cd' more where
      rec: "do_loop lib cfg env route request registry (Suc attempt) cd1 = Some (r, cd', more)"
        "count_list (more @ closing r) EvAcquire = count_list (more @ closing r) EvRelease"
        "inflight (more @ closing r) = 0" "count_list (more @ closing r) EvCancel = 1"
        "requests (more @ closing r) \<le> (if retryableRequest request then nat (upc_RateLimitRetries cfg - int (Suc attempt)) + 1 else 1)"
        "waits_within (upc_MaxRetryAfter cfg) (more @ closing r)"
        "cooldowns_get registry cd1 \<le> cooldowns_get registry cd'"
        "\<forall>u. EvSetCooldown u \<in> set more \<longrightarrow> u \<le> cooldowns_get registry cd'"
      by blast
    have "requests ((evs @ more) @ closing r) \<le> nat (upc_RateLimitRetries cfg - int attempt) + 1"
      using rec(5) again(2,3,7) by auto
    then show ?thesis
      using again rec by (intro exI [of _ r] exI [of _ cd'] exI [of _ "evs @ more"]) (fastforce intro: order_trans)
  qed
qed

text \<open>C14: A request to a registry always comes to an end and leaves nothing behind: once the caller
  has closed the body it was given, every slot taken is free again, the in-flight count is where it
  was and the context has been cancelled exactly once, on every path. The registry is asked at most
  once more than the configured retries, only once unless the request can be repeated, and no
  single wait exceeds the configured maximum.\<close>

theorem upstream_request_accounted:
  "\<exists>r cd' evs. proxy_do lib cfg env route request cd = Some (r, cd', evs) \<and>
     (let all = evs @ closing r in
      count_list all EvAcquire = count_list all EvRelease \<and> inflight all = 0 \<and> count_list all EvCancel = 1 \<and>
      requests all \<le> (if retryableRequest request then nat (upc_RateLimitRetries cfg) + 1 else 1) \<and>
      waits_within (upc_MaxRetryAfter cfg) all)"
  using do_loop_accounts [of lib cfg env route request "upstreamRegistryKey (ul_conf (dol_url lib)) request" 0 cd]
  unfolding proxy_do_def Let_def by auto

lemma waitForCooldown_late:
  assumes late: "\<And>t. cooldowns_get registry cd \<le> t \<Longrightarrow> upc_MaxRetryAfter cfg < time_Sub t (ae_nowCooldown e)"
    and "0 < upc_MaxRetryAfter cfg"
  shows "\<exists>remaining cd'. waitForCooldown cfg e request registry cd =
      (Answer (cooldownResponse request remaining), cd', [EvThrottled ''cooldown'']) \<and> upc_MaxRetryAfter cfg < remaining"
proof -
  define until where "until = (case ae_remote e of
      Some (Inr remote) \<Rightarrow> max remote (cooldowns_get registry cd) | _ \<Rightarrow> cooldowns_get registry cd)"
  let ?rem = "time_Sub until (ae_nowCooldown e)"
  have "upc_MaxRetryAfter cfg < ?rem" by (rule late) (simp add: until_def split: option.split sum.split)
  moreover have "\<exists>cd'. waitForCooldown cfg e request registry cd = (if ?rem \<le> 0 then (Proceed, cd', [])
      else if upc_MaxRetryAfter cfg < ?rem then (Answer (cooldownResponse request ?rem), cd', [EvThrottled ''cooldown''])
      else (case ae_waitCooldown e of Some err \<Rightarrow> CooldownFailed err | None \<Rightarrow> Proceed,
        cd', [EvThrottled ''cooldown_wait'', EvWait ?rem]))"
  proof (cases "\<exists>remote. ae_remote e = Some (Inr remote) \<and> cooldowns_get registry cd < remote")
    case True
    then show ?thesis by (auto simp: waitForCooldown_def until_def Let_def)
  next
    case False
    then have "until = cooldowns_get registry cd" by (auto simp: until_def max_def split: option.split sum.split)
    with False show ?thesis by (auto simp: waitForCooldown_def Let_def split: option.split sum.split)
  qed
  ultimately show ?thesis using assms(2) by auto
qed


definition example_429 :: upstream_response where
  "example_429 = (example_resp 429 None)\<lparr>resp_Header := [(''Retry-After'', [''3600''])]\<rparr>"

definition example_attempt :: "time \<Rightarrow> attempt_env" where
  "example_attempt now = \<lparr>ae_remote = None, ae_nowCooldown = now, ae_waitCooldown = None, ae_acquire = None,
     ae_transport = (\<lambda>_ _. Inr example_429), ae_nowRetry = now, ae_nowSet = now, ae_jitter = (\<lambda>_. 0), ae_waitRetry = None\<rparr>"

definition example_do_lib :: do_lib where
  "example_do_lib = \<lparr>dol_url = example_url_lib, dol_http = \<lparr>hl_ParseTime = (\<lambda>_. None), hl_FormatTime = (\<lambda>_. [])\<rparr>, dol_configured = None\<rparr>"

definition example_limits :: UpstreamProtectionConfig where
  "example_limits = \<lparr>upc_MaxConcurrentPerRegistry = 4, upc_QueueTimeout = 15 * nsSecond, upc_RateLimitRetries = 1,
     upc_MaxRetryAfter = 30 * nsSecond\<rparr>"

lemma example_once: "doOnce example_url_lib (\<lambda>_ _. Inr example_429) None example_route example_upstream_request = Some (Inr example_429)"
  by (simp add: doOnce_def upstreamRedirectPolicy_def example_redirect_defs example_429_def example_resp_def follows_def
      validateReturnedRedirect_def)

lemma example_delay: "retry_delay (dol_http example_do_lib) example_limits (example_attempt 0) 0 example_429 = (3600 * nsSecond, example_429)"
proof -
  have "header_Get (resp_Header example_429) ''Retry-After'' = ''3600''"
    by (simp add: example_429_def header_Get_def CanonicalHeaderKey_def header_token_def go_eval)
  moreover have "TrimSpace ''3600'' = ''3600''" by (simp add: go_eval)
  moreover have "ParseInt32 ''3600'' = Some 3600"
    by (simp add: ParseInt32_def ParseInt64_def parse_nat_def go_eval)
  ultimately show ?thesis
    by (simp add: retry_delay_def retryAfterDelay_def example_attempt_def int64_def example_limits_def)
qed

lemma example_limited:
  "\<exists>cd' evs. proxy_do example_do_lib example_limits (\<lambda>_. example_attempt 0) example_route example_upstream_request [] =
     Some (Inr (example_429, [EvRelease, EvInFlight (-1), EvCancel]), cd', evs) \<and> EvSetCooldown (3600 * nsSecond) \<in> set evs"
proof -
  have "waitForCooldown example_limits (example_attempt 0) example_upstream_request k [] = (Proceed, [], [])" for k
    by (simp add: waitForCooldown_def example_attempt_def cooldowns_get_def time_Sub_def minDuration_def maxDuration_def)
  moreover have "ae_acquire (example_attempt 0) = None" "ae_transport (example_attempt 0) = (\<lambda>_ _. Inr example_429)"
    "ae_nowSet (example_attempt 0) = 0" "resp_StatusCode example_429 = 429" "dol_url example_do_lib = example_url_lib"
    "dol_configured example_do_lib = None" "upc_MaxRetryAfter example_limits = 30 * nsSecond"
    by (simp_all add: example_attempt_def example_429_def example_resp_def example_do_lib_def example_limits_def)
  ultimately show ?thesis
    using example_delay example_once
    by (simp add: proxy_do_def do_loop.simps [of _ _ _ _ _ _ 0] setCooldown_def Let_def)
qed


text \<open>A Retry-After date more than 292 years ahead defeats the limit on waiting: the jitter
  carries the saturated duration past the largest 64-bit integer, the delay becomes negative, and
  the firewall takes the registry to be ready at once instead of giving up.\<close>

theorem far_retry_after_wraps:
  assumes "retryAfterDelay lib (header_Get (resp_Header response) ''Retry-After'') (ae_nowRetry e) = (maxDuration, True)"
    and "upc_MaxRetryAfter cfg < maxDuration" and "ae_jitter e (250 * nsMillisecond) = j" and "0 < j" and "j < 250 * nsMillisecond"
  shows "fst (retry_delay lib cfg e attempt response) = j - 1 - 2 ^ 63 \<and> fst (retry_delay lib cfg e attempt response) < 0"
proof -
  have "int64 (maxDuration + j) = j - 1 - 2 ^ 63"
  proof -
    have "maxDuration + j + 2 ^ 63 = (j - 1) + 2 ^ 64" by (simp add: maxDuration_def)
    then have "(maxDuration + j + 2 ^ 63) mod 2 ^ 64 = (j - 1) mod 2 ^ 64" by (simp only: mod_add_self2)
    also have "\<dots> = j - 1" using assms(4,5) by (intro mod_pos_pos_trivial) auto
    finally show ?thesis by (simp add: int64_def)
  qed
  moreover have "min (maxDuration div 10) (250 * nsMillisecond) = 250 * nsMillisecond" by (simp add: maxDuration_def)
  ultimately show ?thesis using assms by (simp add: retry_delay_def Let_def maxDuration_def)
qed

definition example_far_lib :: http_lib where
  "example_far_lib = \<lparr>hl_ParseTime = (\<lambda>_. Some (2 ^ 64)), hl_FormatTime = (\<lambda>_. [])\<rparr>"

definition example_far :: upstream_response where
  "example_far = (example_resp 429 None)\<lparr>resp_Header := [(''Retry-After'', [''x''])]\<rparr>"

theorem far_retry_after_wraps_witness:
  "retryAfterDelay example_far_lib (header_Get (resp_Header example_far) ''Retry-After'') 0 = (maxDuration, True) \<and>
   fst (retry_delay example_far_lib example_limits ((example_attempt 0)\<lparr>ae_jitter := (\<lambda>_. 1)\<rparr>) 0 example_far) = - (2 ^ 63)"
proof -
  have "header_Get (resp_Header example_far) ''Retry-After'' = ''x''"
    by (simp add: example_far_def header_Get_def CanonicalHeaderKey_def header_token_def go_eval)
  moreover have "TrimSpace ''x'' = ''x''" by (simp add: go_eval)
  moreover have "ParseInt32 ''x'' = None" by (simp add: ParseInt32_def ParseInt64_def parse_nat_def go_eval)
  ultimately have d: "retryAfterDelay example_far_lib (header_Get (resp_Header example_far) ''Retry-After'') 0 = (maxDuration, True)"
    by (simp add: retryAfterDelay_def example_far_lib_def time_Sub_def maxDuration_def minDuration_def)
  have "fst (retry_delay example_far_lib example_limits ((example_attempt 0)\<lparr>ae_jitter := (\<lambda>_. 1)\<rparr>) 0 example_far) = 1 - 1 - 2 ^ 63 \<and>
      fst (retry_delay example_far_lib example_limits ((example_attempt 0)\<lparr>ae_jitter := (\<lambda>_. 1)\<rparr>) 0 example_far) < 0"
    by (rule far_retry_after_wraps) (use d in \<open>simp_all add: example_attempt_def example_limits_def maxDuration_def\<close>)
  with d show ?thesis by simp
qed

section \<open>The limiter under concurrency\<close>

text \<open>Every holder of a slot is a token, released at most once (sync.OnceFunc). A step is one
  goroutine taking a slot, which blocks while the channel is full, or giving one back.\<close>

record limiter_state =
  ls_limiters :: routeLimiters
  ls_tokens :: "(nat \<times> string) list"

definition take_slot :: "string \<Rightarrow> nat \<Rightarrow> routeLimiters \<Rightarrow> routeLimiters option" where
  "take_slot registry capacity l =
     (case limiter registry capacity l of
        ((c, n), l') \<Rightarrow> if n < c then Some (AList.update registry (c, Suc n) l') else None)"

definition give_slot :: "string \<Rightarrow> routeLimiters \<Rightarrow> routeLimiters" where
  "give_slot registry l =
     (case map_of l registry of Some (c, Suc n) \<Rightarrow> AList.update registry (c, n) l | _ \<Rightarrow> l)"

inductive limiter_step :: "nat \<Rightarrow> limiter_state \<Rightarrow> limiter_state \<Rightarrow> bool" for capacity where
  takes: "take_slot registry capacity (ls_limiters s) = Some l \<Longrightarrow> i \<notin> fst ` set (ls_tokens s) \<Longrightarrow>
     limiter_step capacity s (s\<lparr>ls_limiters := l, ls_tokens := (i, registry) # ls_tokens s\<rparr>)"
| gives: "(i, registry) \<in> set (ls_tokens s) \<Longrightarrow>
     limiter_step capacity s (s\<lparr>ls_limiters := give_slot registry (ls_limiters s),
       ls_tokens := removeAll (i, registry) (ls_tokens s)\<rparr>)"

inductive limiter_reach :: "nat \<Rightarrow> limiter_state \<Rightarrow> bool" for capacity where
  start: "limiter_reach capacity \<lparr>ls_limiters = [], ls_tokens = []\<rparr>"
| step: "limiter_reach capacity s \<Longrightarrow> limiter_step capacity s s' \<Longrightarrow> limiter_reach capacity s'"

definition held :: "string \<Rightarrow> limiter_state \<Rightarrow> nat" where
  "held registry s = length (filter (\<lambda>(_, r). r = registry) (ls_tokens s))"

definition slots_ok :: "nat \<Rightarrow> (nat \<times> nat) option \<Rightarrow> nat \<Rightarrow> bool" where
  "slots_ok capacity chan h =
     (case chan of None \<Rightarrow> h = 0 | Some (c, n) \<Rightarrow> c = capacity \<and> n = h \<and> n \<le> capacity)"

definition limiter_inv :: "nat \<Rightarrow> limiter_state \<Rightarrow> bool" where
  "limiter_inv capacity s \<longleftrightarrow> distinct (ls_tokens s) \<and>
     (\<forall>registry. slots_ok capacity (map_of (ls_limiters s) registry) (held registry s))"

lemma held_removeAll:
  assumes "distinct (ls_tokens s)" and "(i, registry) \<in> set (ls_tokens s)"
  shows "held r (s\<lparr>ls_limiters := l, ls_tokens := removeAll (i, registry) (ls_tokens s)\<rparr>) =
    (if r = registry then held r s - 1 else held r s) \<and> (r = registry \<longrightarrow> 0 < held r s)"
proof -
  obtain as bs where t: "ls_tokens s = as @ (i, registry) # bs" "(i, registry) \<notin> set as" "(i, registry) \<notin> set bs"
    using assms by (metis distinct.simps(2) distinct_append split_list_first)
  then show ?thesis by (simp add: held_def)
qed

lemma limiter_inv_step:
  assumes "limiter_inv capacity s" and "limiter_step capacity s s'"
  shows "limiter_inv capacity s'"
  using assms(2)
proof cases
  case (takes registry l i)
  have "slots_ok capacity (map_of (ls_limiters s) registry) (held registry s)"
    using assms(1) by (simp add: limiter_inv_def)
  then have l: "held registry s < capacity" "\<And>r. map_of (ls_limiters s') r = (if r = registry then Some (capacity, Suc (held registry s)) else map_of (ls_limiters s) r)"
    using takes(1,2) by (auto simp: take_slot_def limiter_def slots_ok_def split: option.splits if_splits)
  have h: "held r s' = (if r = registry then Suc (held r s) else held r s)" for r by (simp add: takes(1) held_def)
  have "distinct (ls_tokens s')" using takes assms(1) by (auto simp: limiter_inv_def image_iff)
  moreover have "slots_ok capacity (map_of (ls_limiters s') r) (held r s')" for r
    using assms(1) l by (cases "r = registry") (simp_all add: h limiter_inv_def slots_ok_def)
  ultimately show ?thesis by (simp add: limiter_inv_def)
next
  case (gives i registry)
  have d: "distinct (ls_tokens s)" using assms(1) by (simp add: limiter_inv_def)
  note h = held_removeAll [OF d gives(2), of _ "give_slot registry (ls_limiters s)"]
  have "slots_ok capacity (map_of (ls_limiters s) registry) (held registry s)"
    using assms(1) by (simp add: limiter_inv_def)
  then obtain n where n: "map_of (ls_limiters s) registry = Some (capacity, Suc n)" "held registry s = Suc n" "Suc n \<le> capacity"
    using h [of registry] by (auto split: option.splits simp: gr0_conv_Suc slots_ok_def)
  have l: "map_of (ls_limiters s') r = (if r = registry then Some (capacity, n) else map_of (ls_limiters s) r)" for r
    using n gives(1) by (simp add: give_slot_def)
  have "slots_ok capacity (map_of (ls_limiters s') r) (held r s')" for r
    using assms(1) l n h [of r] gives(1) by (cases "r = registry") (auto simp: limiter_inv_def slots_ok_def)
  then show ?thesis using d gives(1) by (simp add: limiter_inv_def distinct_removeAll)
qed

text \<open>However requests come and go, no registry ever has more of them in flight than the
  configured limit, and a slot is free whenever fewer are.\<close>

theorem limiter_bounds:
  assumes "limiter_reach capacity s"
  shows "held registry s \<le> capacity \<and>
    (take_slot registry capacity (ls_limiters s) \<noteq> None \<longleftrightarrow> held registry s < capacity)"
proof -
  have "limiter_inv capacity s"
    using assms
  proof induction
    case start
    show ?case by (simp add: limiter_inv_def held_def slots_ok_def)
  qed (rule limiter_inv_step)
  then have "slots_ok capacity (map_of (ls_limiters s) registry) (held registry s)"
    by (simp add: limiter_inv_def)
  then show ?thesis by (auto simp: take_slot_def limiter_def slots_ok_def split: option.splits)
qed

theorem limiter_bounds_witness:
  "\<exists>s. limiter_reach 1 s \<and> held ''https://r:443'' s = 1 \<and> take_slot ''https://r:443'' 1 (ls_limiters s) = None"
proof -
  let ?s = "\<lparr>ls_limiters = [(''https://r:443'', (1, 1))], ls_tokens = [(0, ''https://r:443'')]\<rparr>"
  have "take_slot ''https://r:443'' 1 [] = Some [(''https://r:443'', (1, 1))]" by (simp add: take_slot_def limiter_def)
  then have "limiter_step 1 \<lparr>ls_limiters = [], ls_tokens = []\<rparr> ?s"
    using limiter_step.takes [of "''https://r:443''" 1 "\<lparr>ls_limiters = [], ls_tokens = []\<rparr>" _ 0] by simp
  then have r: "limiter_reach 1 ?s" by (rule limiter_reach.step [OF limiter_reach.start])
  moreover have "held ''https://r:443'' ?s = 1" by (simp add: held_def)
  ultimately show ?thesis using limiter_bounds [OF r, of "''https://r:443''"] by (metis less_irrefl)
qed

end
