(* ===== verification/NpmCache.thy ===== *)
theory NpmCache
  imports Redirect Upstream
begin

text \<open>
  internal/proxy/npm_cache.go and responseBypassReason of proxy.go: which upstream responses may
  be stored, and for how long an npm tarball stays fresh by its own Cache-Control. Parsing a
  Set-Cookie value is a function of net/http and a parameter.
\<close>

record cookie =
  ck_Name :: string
  ck_Value :: string
  ck_Unparsed :: "string list"
  ck_Valid :: bool
  ck_Expires :: time

record cache_lib =
  cl_url :: url_lib
  cl_http :: http_lib
  cl_ParseSetCookie :: "string \<Rightarrow> cookie option"

section \<open>Cookies\<close>

definition cookie_attribute_ok :: "cookie \<Rightarrow> string \<Rightarrow> bool" where
  "cookie_attribute_ok c attribute =
     (case Cut (TrimSpace attribute) CHR ''='' of
        (name, value, hasValue) \<Rightarrow>
          let name = ToLower name in
          if List.member [''secure'', ''httponly'', ''partitioned''] name then \<not> hasValue
          else if name = ''samesite'' then
            hasValue \<and> (EqualFold value ''none'' \<or> EqualFold value ''lax'' \<or> EqualFold value ''strict'')
          else if List.member [''domain'', ''path'', ''max-age''] name then
            hasValue \<and> value \<noteq> [] \<and> \<not> Contains value '',''
          else if name = ''expires'' then hasValue \<and> \<not> IsZero (ck_Expires c)
          else False)"

definition validCDNCookie :: "cache_lib \<Rightarrow> string \<Rightarrow> bool" where
  "validCDNCookie lib value =
     (case cl_ParseSetCookie lib value of
        None \<Rightarrow> False
      | Some c \<Rightarrow>
          if ck_Unparsed c \<noteq> [] \<or> \<not> ck_Valid c \<or> (ck_Name c \<noteq> ''__cf_bm'' \<and> ck_Name c \<noteq> ''_cfuvid'') then False
          else if ContainsAny (ck_Value c) [CHR '','', CHR '' '', CHR 0x09] then False
          else list_all (cookie_attribute_ok c) (tl (Split value CHR '';'')))"

section \<open>Freshness\<close>

definition npmDeltaSeconds :: "string \<Rightarrow> duration \<times> bool" where
  "npmDeltaSeconds value =
     (if value = [] \<or> Trim value ''0123456789'' \<noteq> [] then (0, False)
      else case parse_nat value of
        None \<Rightarrow> (0, False)
      | Some n \<Rightarrow> if n < 2 ^ 32 then (int n * nsSecond, True) else ((2 ^ 32 - 1) * nsSecond, False))"

record freshness =
  fr_public :: bool
  fr_ages :: "(string, duration) gomap"

fun npm_directives :: "string list \<Rightarrow> freshness \<Rightarrow> freshness option" where
  "npm_directives [] st = Some st"
| "npm_directives (directive # rest) st =
     (case Cut (TrimSpace directive) CHR ''='' of
        (name, value, hasValue) \<Rightarrow>
          let name = ToLower (TrimSpace name) in
          if List.member [''public'', ''immutable'', ''must-revalidate'', ''proxy-revalidate'', ''no-transform''] name then
            (if hasValue then None
             else npm_directives rest (st\<lparr>fr_public := fr_public st \<or> name = ''public''\<rparr>))
          else if List.member [''max-age'', ''s-maxage''] name then
            (if map_of (fr_ages st) name \<noteq> None \<or> \<not> hasValue then None
             else case npmDeltaSeconds (TrimSpace value) of
               (age, valid) \<Rightarrow>
                 if \<not> valid then None
                 else npm_directives rest (st\<lparr>fr_ages := AList.update name age (fr_ages st)\<rparr>))
          else None)"

fun npm_values :: "string list \<Rightarrow> freshness \<Rightarrow> freshness option" where
  "npm_values [] st = Some st"
| "npm_values (value # rest) st =
     (if ContainsAny value [CHR 0x22, CHR 0x5C] then None
      else case npm_directives (Split value CHR '','') st of
        None \<Rightarrow> None
      | Some st \<Rightarrow> npm_values rest st)"

definition npmFreshnessLifetime :: "header \<Rightarrow> duration \<times> bool" where
  "npmFreshnessLifetime headers =
     (case npm_values (header_Values headers ''Cache-Control'') \<lparr>fr_public = False, fr_ages = []\<rparr> of
        None \<Rightarrow> (0, False)
      | Some st \<Rightarrow>
          let lifetime = (case map_of (fr_ages st) ''s-maxage'' of
                Some age \<Rightarrow> age
              | None \<Rightarrow> (case map_of (fr_ages st) ''max-age'' of Some age \<Rightarrow> age | None \<Rightarrow> 0))
          in (lifetime, fr_public st \<and> lifetime > 0))"

section \<open>Which responses may be stored\<close>

definition redirected_away :: "cache_lib \<Rightarrow> upstream_response \<Rightarrow> string \<Rightarrow> bool" where
  "redirected_away lib resp target =
     (case resp_Request resp of
        None \<Rightarrow> False
      | Some req \<Rightarrow> rr_redirected req \<or>
          (case rr_URL req of None \<Rightarrow> False | Some u \<Rightarrow> ul_String (cl_url lib) u \<noteq> target))"

definition responseBypassReason :: "cache_lib \<Rightarrow> int \<Rightarrow> upstream_response \<Rightarrow> RouteConfig \<Rightarrow> string \<Rightarrow> bool \<Rightarrow> string" where
  "responseBypassReason lib maxObjectSize resp route target freshNPM =
     (let headers = resp_Header resp; encoding = TrimSpace (header_Get headers ''Content-Encoding'') in
      if resp_StatusCode resp \<noteq> 200 then ''upstream_status''
      else if redirected_away lib resp target \<and> \<not> cacheableRedirect (cl_url lib) resp route then ''upstream_redirect''
      else if \<not> cacheableResponseVary headers then ''response_vary''
      else if header_Values headers ''Set-Cookie'' \<noteq> [] then ''response_set_cookie''
      else if header_Get headers ''Content-Range'' \<noteq> [] then ''response_content_range''
      else if encoding \<noteq> [] \<and> \<not> EqualFold encoding ''identity'' then ''response_encoding''
      else if resp_Uncompressed resp then ''response_encoding''
      else if responseDisablesCaching headers freshNPM then ''response_cache_control''
      else if resp_ContentLength resp > maxObjectSize then ''object_too_large''
      else [])"

definition anonymous_request :: "upstream_response \<Rightarrow> bool" where
  "anonymous_request resp =
     (case resp_Request resp of
        None \<Rightarrow> False
      | Some req \<Rightarrow> header_Get (rr_Header req) ''Authorization'' = [] \<and> header_Get (rr_Header req) ''Cookie'' = [])"

definition npmjs_target :: "cache_lib \<Rightarrow> string \<Rightarrow> bool" where
  "npmjs_target lib target =
     (case ul_Parse (cl_url lib) target of
        Inl _ \<Rightarrow> False
      | Inr upstream \<Rightarrow>
          \<not> u_HasUser upstream \<and> u_RawQuery upstream = [] \<and> \<not> u_ForceQuery upstream \<and>
          NormalizeHTTPOrigin (ul_conf (cl_url lib)) (u_Scheme upstream @ ''://'' @ u_Host upstream)
            = Inr ''https://registry.npmjs.org:443'')"

definition npm_age :: "cache_lib \<Rightarrow> header \<Rightarrow> time \<Rightarrow> time \<Rightarrow> duration option" where
  "npm_age lib headers requestedAt receivedAt =
     (if length (header_Values headers ''Age'') > 1 \<or> length (header_Values headers ''Date'') > 1 then None
      else case (case header_Values headers ''Age'' of
                   [] \<Rightarrow> Some 0
                 | v # _ \<Rightarrow> (case npmDeltaSeconds (TrimSpace v) of (age, valid) \<Rightarrow> if valid then Some age else None)) of
        None \<Rightarrow> None
      | Some age \<Rightarrow>
          let age = int64 (age + max (time_Sub receivedAt requestedAt) 0) in
          (case header_Values headers ''Date'' of
             [] \<Rightarrow> Some age
           | v # _ \<Rightarrow>
               (case hl_ParseTime (cl_http lib) v of
                  None \<Rightarrow> None
                | Some date \<Rightarrow> Some (max age (time_Sub receivedAt date)))))"

definition prepareNPMCacheResponse :: "cache_lib \<Rightarrow> int \<Rightarrow> upstream_response \<Rightarrow> RouteConfig \<Rightarrow> string \<Rightarrow> time \<Rightarrow> time
    \<Rightarrow> (time \<times> string) \<times> upstream_response" where
  "prepareNPMCacheResponse lib maxObjectSize resp route target requestedAt receivedAt =
     (if rc_Ecosystem route \<noteq> ''npm'' \<or> rc_UpstreamTokenEnv route \<noteq> [] \<or> shouldRewrite route (resp_Header resp)
      then ((0, []), resp)
      else if \<not> npmjs_target lib target then ((0, []), resp)
      else if \<not> anonymous_request resp then ((0, []), resp)
      else case npmFreshnessLifetime (resp_Header resp) of
        (lifetime, ok) \<Rightarrow>
          if \<not> ok then ((0, ''response_cache_control''), resp)
          else if \<not> list_all (validCDNCookie lib) (header_Values (resp_Header resp) ''Set-Cookie'')
          then ((0, ''response_set_cookie''), resp)
          else (case npm_age lib (resp_Header resp) requestedAt receivedAt of
                  None \<Rightarrow> ((0, ''response_cache_control''), resp)
                | Some age \<Rightarrow>
                    if age \<ge> lifetime then ((0, ''response_cache_control''), resp)
                    else let candidate = resp\<lparr>resp_Header := header_Del ''Set-Cookie'' (resp_Header resp)\<rparr>;
                             reason = responseBypassReason lib maxObjectSize candidate route target True in
                      if reason \<noteq> [] then ((0, reason), resp)
                      else ((receivedAt + int64 (lifetime - age), []),
                            candidate\<lparr>resp_Header := header_Set ''Age'' (FormatInt (quot64 age nsSecond)) (resp_Header candidate)\<rparr>)))"

section \<open>What is stored is fit for others\<close>

lemma no_directive:
  assumes "\<not> hasCacheDirective values directives" and "d \<in> set directives" and "v \<in> set values"
    and "p \<in> set (Split (ToLower v) CHR '','')"
  shows "TrimSpace p \<noteq> d \<and> \<not> HasPrefix (TrimSpace p) (d @ ''='')"
  using assms by (auto simp: hasCacheDirective_def list_ex_iff Let_def)

lemma cacheableRedirect_allowed:
  assumes "cacheableRedirect lib resp route"
  shows "rc_EnforceRedirectOrigins route \<and> (\<exists>req u w up v. resp_Request resp = Some req \<and> rr_URL req = Some u \<and>
    requestOrigin lib (Some u) = Inr w \<and> upstreamOrigin lib (rc_UpstreamURL route) = Inr up \<and> w \<noteq> up \<and>
    v \<in> set (rc_AllowedRedirectOrigins route) \<and> NormalizeHTTPOrigin (ul_conf lib) v = Inr w \<and> \<not> rr_uncacheableHops req)"
proof -
  obtain req w up where r: "resp_Request resp = Some req" "rc_EnforceRedirectOrigins route" "\<not> rr_uncacheableHops req"
    "requestOrigin lib (rr_URL req) = Inr w" "upstreamOrigin lib (rc_UpstreamURL route) = Inr up" "w \<noteq> up"
    "list_ex (\<lambda>v. NormalizeHTTPOrigin (ul_conf lib) v = Inr w) (rc_AllowedRedirectOrigins route)"
    using assms by (auto simp: cacheableRedirect_def split: option.splits if_splits sum.splits)
  then obtain u where "rr_URL req = Some u" by (cases "rr_URL req") (auto simp: requestOrigin_def)
  moreover obtain v where "v \<in> set (rc_AllowedRedirectOrigins route)" "NormalizeHTTPOrigin (ul_conf lib) v = Inr w"
    using r(7) by (auto simp: list_ex_iff)
  ultimately show ?thesis using r by metis
qed

text \<open>A response the firewall stores is one that may be given to anyone who asks for the same
  URL: it is complete (200, no range), carries no cookie, is not encoded, varies on nothing but the
  encoding, is not marked private, no-store or no-cache, fits the size limit, and if it came by a
  redirect, then from an origin the route explicitly allows and that is not the upstream itself.\<close>

theorem stored_response_shareable:
  assumes "responseBypassReason lib maxSize resp route target fresh = []"
  shows "resp_StatusCode resp = 200 \<and> header_Values (resp_Header resp) ''Set-Cookie'' = [] \<and>
    header_Get (resp_Header resp) ''Content-Range'' = [] \<and> \<not> resp_Uncompressed resp \<and> resp_ContentLength resp \<le> maxSize \<and>
    (\<forall>v p d. v \<in> set (header_Values (resp_Header resp) ''Cache-Control'') \<and> p \<in> set (Split (ToLower v) CHR '','') \<and>
       d \<in> {''private'', ''no-store'', ''no-cache''} \<longrightarrow> TrimSpace p \<noteq> d \<and> \<not> HasPrefix (TrimSpace p) (d @ ''='')) \<and>
    (\<forall>v p. v \<in> set (header_Values (resp_Header resp) ''Vary'') \<and> p \<in> set (Split v CHR '','') \<longrightarrow>
       ToLower (TrimSpace p) \<in> {[], ''accept-encoding''}) \<and>
    (redirected_away lib resp target \<longrightarrow> rc_EnforceRedirectOrigins route \<and>
       (\<exists>req u w up v. resp_Request resp = Some req \<and> rr_URL req = Some u \<and> requestOrigin (cl_url lib) (Some u) = Inr w \<and>
          upstreamOrigin (cl_url lib) (rc_UpstreamURL route) = Inr up \<and> w \<noteq> up \<and>
          v \<in> set (rc_AllowedRedirectOrigins route) \<and> NormalizeHTTPOrigin (ul_conf (cl_url lib)) v = Inr w))"
proof -
  have basic: "resp_StatusCode resp = 200" "header_Values (resp_Header resp) ''Set-Cookie'' = []"
    "header_Get (resp_Header resp) ''Content-Range'' = []" "\<not> resp_Uncompressed resp" "resp_ContentLength resp \<le> maxSize"
    and vary: "cacheableResponseVary (resp_Header resp)" and cc: "\<not> responseDisablesCaching (resp_Header resp) fresh"
    and red: "redirected_away lib resp target \<Longrightarrow> cacheableRedirect (cl_url lib) resp route"
    using assms by (simp_all add: responseBypassReason_def Let_def split: if_splits)
  have nd: "\<not> hasCacheDirective (header_Values (resp_Header resp) ''Cache-Control'') [''no-cache'', ''no-store'', ''private'']"
    using cc by (simp add: responseDisablesCaching_def)
  have varies: "\<forall>v p. v \<in> set (header_Values (resp_Header resp) ''Vary'') \<and> p \<in> set (Split v CHR '','') \<longrightarrow>
      ToLower (TrimSpace p) \<in> {[], ''accept-encoding''}"
    using vary by (auto simp: cacheableResponseVary_def list_all_iff)
  have directives: "\<forall>v p d. v \<in> set (header_Values (resp_Header resp) ''Cache-Control'') \<and> p \<in> set (Split (ToLower v) CHR '','') \<and>
      d \<in> {''private'', ''no-store'', ''no-cache''} \<longrightarrow> TrimSpace p \<noteq> d \<and> \<not> HasPrefix (TrimSpace p) (d @ ''='')"
  proof (intro allI impI, elim conjE)
    fix v p d assume "v \<in> set (header_Values (resp_Header resp) ''Cache-Control'')" "p \<in> set (Split (ToLower v) CHR '','')"
      and d: "d \<in> {''private'', ''no-store'', ''no-cache''}"
    from no_directive [OF nd _ this(1,2), of d] d
    show "TrimSpace p \<noteq> d \<and> \<not> HasPrefix (TrimSpace p) (d @ ''='')" by auto
  qed
  have origin: "redirected_away lib resp target \<longrightarrow> rc_EnforceRedirectOrigins route \<and>
      (\<exists>req u w up v. resp_Request resp = Some req \<and> rr_URL req = Some u \<and> requestOrigin (cl_url lib) (Some u) = Inr w \<and>
         upstreamOrigin (cl_url lib) (rc_UpstreamURL route) = Inr up \<and> w \<noteq> up \<and>
         v \<in> set (rc_AllowedRedirectOrigins route) \<and> NormalizeHTTPOrigin (ul_conf (cl_url lib)) v = Inr w)"
    using cacheableRedirect_allowed [OF red] by metis
  show ?thesis by (intro conjI; fact basic directives varies origin)
qed

section \<open>npm freshness\<close>

lemma npmDeltaSeconds_range:
  assumes "npmDeltaSeconds v = (age, True)"
  shows "0 \<le> age \<and> age < 2 ^ 32 * nsSecond"
proof -
  obtain n where "n < 2 ^ 32" "age = int n * nsSecond"
    using assms by (auto simp: npmDeltaSeconds_def split: if_splits option.splits)
  then show ?thesis by auto
qed

lemma npm_directives_range:
  assumes "npm_directives ds st = Some st'" and "\<And>n a. map_of (fr_ages st) n = Some a \<Longrightarrow> 0 \<le> a \<and> a < 2 ^ 32 * nsSecond"
  shows "map_of (fr_ages st') n = Some a \<Longrightarrow> 0 \<le> a \<and> a < 2 ^ 32 * nsSecond"
  using assms
proof (induction ds arbitrary: st)
  case (Cons directive rest)
  obtain name v hasValue where cut: "Cut (TrimSpace directive) CHR ''='' = (name, v, hasValue)" by (metis prod.exhaust)
  let ?name = "ToLower (TrimSpace name)"
  show ?case
  proof (cases "List.member [''public'', ''immutable'', ''must-revalidate'', ''proxy-revalidate'', ''no-transform''] ?name")
    case True
    then have "npm_directives rest (st\<lparr>fr_public := fr_public st \<or> ?name = ''public''\<rparr>) = Some st'"
      using Cons.prems(2) cut by (simp add: Let_def split: if_splits)
    from Cons.IH [OF Cons.prems(1) this] Cons.prems(3) show ?thesis by simp
  next
    case False
    obtain age valid where d: "npmDeltaSeconds (TrimSpace v) = (age, valid)" by (metis prod.exhaust)
    have valid and rest: "npm_directives rest (st\<lparr>fr_ages := AList.update ?name age (fr_ages st)\<rparr>) = Some st'"
      using Cons.prems(2) False cut d by (simp_all add: Let_def split: if_splits)
    then have "0 \<le> age \<and> age < 2 ^ 32 * nsSecond" using d npmDeltaSeconds_range by simp
    then have "map_of (fr_ages (st\<lparr>fr_ages := AList.update ?name age (fr_ages st)\<rparr>)) m = Some b \<Longrightarrow> 0 \<le> b \<and> b < 2 ^ 32 * nsSecond" for m b
      using Cons.prems(3) by (simp split: if_splits)
    from Cons.IH [OF Cons.prems(1) rest this] show ?thesis .
  qed
qed simp

lemma npm_values_range:
  assumes "npm_values vs st = Some st'" and "\<And>n a. map_of (fr_ages st) n = Some a \<Longrightarrow> 0 \<le> a \<and> a < 2 ^ 32 * nsSecond"
  shows "map_of (fr_ages st') n = Some a \<Longrightarrow> 0 \<le> a \<and> a < 2 ^ 32 * nsSecond"
  using assms
proof (induction vs arbitrary: st)
  case (Cons v vs)
  then obtain st1 where "npm_directives (Split v CHR '','') st = Some st1" "npm_values vs st1 = Some st'"
    by (auto split: if_splits option.splits)
  with Cons npm_directives_range [OF this(1)] show ?case by blast
qed simp

lemma npmFreshnessLifetime_range:
  assumes "npmFreshnessLifetime h = (lifetime, True)"
  shows "0 < lifetime \<and> lifetime < 2 ^ 32 * nsSecond"
proof -
  obtain st where st: "npm_values (header_Values h ''Cache-Control'') \<lparr>fr_public = False, fr_ages = []\<rparr> = Some st"
    using assms by (auto simp: npmFreshnessLifetime_def split: option.splits)
  note range = npm_values_range [OF st]
  show ?thesis using assms st range
    by (auto simp: npmFreshnessLifetime_def Let_def split: option.splits)
qed

lemma npm_age_bounds:
  assumes "npm_age lib h requestedAt receivedAt = Some age" and "receivedAt - requestedAt < 2 ^ 62"
  shows "0 \<le> age \<and> (\<forall>d ds date. header_Values h ''Date'' = d # ds \<longrightarrow> hl_ParseTime (cl_http lib) d = Some date \<longrightarrow>
    time_Sub receivedAt date \<le> age)"
proof -
  obtain a0 where a0: "(case header_Values h ''Age'' of [] \<Rightarrow> Some 0
      | v # _ \<Rightarrow> (case npmDeltaSeconds (TrimSpace v) of (age, valid) \<Rightarrow> if valid then Some age else None)) = Some a0"
    using assms(1) by (auto simp: npm_age_def split: if_splits option.splits)
  then have r: "0 \<le> a0 \<and> a0 < 2 ^ 32 * nsSecond"
    using npmDeltaSeconds_range by (auto split: list.splits prod.splits if_splits)
  have s: "0 \<le> max (time_Sub receivedAt requestedAt) 0" "max (time_Sub receivedAt requestedAt) 0 < 2 ^ 62"
    using assms(2) by (auto simp: time_Sub_def minDuration_def maxDuration_def)
  have "int64 (a0 + max (time_Sub receivedAt requestedAt) 0) = a0 + max (time_Sub receivedAt requestedAt) 0"
    using r s unfolding int64_def by (subst mod_pos_pos_trivial) auto
  then have "0 \<le> int64 (a0 + max (time_Sub receivedAt requestedAt) 0)" using r s by simp
  then show ?thesis using assms(1) a0
    by (auto simp: npm_age_def Let_def split: if_splits option.splits list.splits)
qed


section \<open>An example\<close>

definition example_cache_lib :: cache_lib where
  "example_cache_lib = \<lparr>cl_url = \<lparr>ul_conf = example_clib\<lparr>clib_ParseRequestURI := (\<lambda>v. Inr (host_url (TrimPrefix v ''https://'')))\<rparr>,
       ul_Parse = (\<lambda>_. Inr (host_url ''registry.npmjs.org'')), ul_String = (\<lambda>_. ''https://registry.npmjs.org/x'')\<rparr>,
     cl_http = \<lparr>hl_ParseTime = (\<lambda>_. Some 0), hl_FormatTime = (\<lambda>_. [])\<rparr>,
     cl_ParseSetCookie = (\<lambda>_. Some \<lparr>ck_Name = ''__cf_bm'', ck_Value = ''x'', ck_Unparsed = [], ck_Valid = True, ck_Expires = 0\<rparr>)\<rparr>"

definition example_npm_route :: RouteConfig where
  "example_npm_route = example_route\<lparr>rc_Ecosystem := ''npm''\<rparr>"

definition example_tarball :: "string list \<Rightarrow> upstream_response" where
  "example_tarball cookies = (example_resp 200 None)\<lparr>
     resp_Header := [(''Cache-Control'', [''public, max-age=300'']), (''Date'', [''d'']), (''Set-Cookie'', cookies)],
     resp_Request := Some \<lparr>rr_URL = Some (host_url ''registry.npmjs.org''), rr_Header = [], rr_redirected = False,
       rr_uncacheableHops = False\<rparr>\<rparr>"

lemmas example_header_eval = header_Get_def header_Values_def CanonicalHeaderKey_def header_token_def go_eval

lemma hasCacheDirective_map: "hasCacheDirective values directives \<longleftrightarrow>
    list_ex (\<lambda>v. list_ex (\<lambda>part. List.member directives part \<or> list_ex (\<lambda>d. HasPrefix part (d @ ''='')) directives)
      (map TrimSpace (Split (ToLower v) CHR '',''))) values"
  by (simp add: hasCacheDirective_def Let_def list_ex_iff)

lemma example_tarball_headers:
  assumes "resp_Header r \<in> {resp_Header (example_tarball []), take 2 (resp_Header (example_tarball []))}"
  shows "header_Values (resp_Header r) ''Cache-Control'' = [''public, max-age=300'']" "header_Values (resp_Header r) ''Vary'' = []"
    "header_Values (resp_Header r) ''Set-Cookie'' = []" "header_Values (resp_Header r) ''Pragma'' = []"
    "header_Get (resp_Header r) ''Content-Range'' = []" "header_Get (resp_Header r) ''Content-Encoding'' = []"
  using assms by (auto simp: example_tarball_def example_header_eval)

lemma example_not_disabled:
  "\<not> hasCacheDirective [''public, max-age=300''] [''no-cache'', ''no-store'', ''private'']" "\<not> hasCacheDirective [] ds"
proof -
  have "map TrimSpace (Split (ToLower ''public, max-age=300'') CHR '','') = [''public'', ''max-age=300'']" by (simp add: go_eval)
  then show "\<not> hasCacheDirective [''public, max-age=300''] [''no-cache'', ''no-store'', ''private'']"
    unfolding hasCacheDirective_map list_ex_iff by (simp add: HasPrefix_def)
qed (simp add: hasCacheDirective_def)

lemma example_tarball_kept:
  assumes "resp_Header r \<in> {resp_Header (example_tarball []), take 2 (resp_Header (example_tarball []))}"
    and "resp_StatusCode r = 200" and "resp_Request r = resp_Request (example_tarball [])" and "\<not> resp_Uncompressed r"
    and "resp_ContentLength r = 0"
  shows "responseBypassReason example_cache_lib 1000 r example_npm_route ''https://registry.npmjs.org/x'' True = []"
proof -
  have "\<not> redirected_away example_cache_lib r ''https://registry.npmjs.org/x''"
    using assms(3) by (simp add: redirected_away_def example_tarball_def example_cache_lib_def)
  moreover have "TrimSpace [] = []" by (simp add: go_eval)
  ultimately show ?thesis using assms(2,4,5)
    by (simp add: responseBypassReason_def example_tarball_headers [OF assms(1)] example_not_disabled
        cacheableResponseVary_def responseDisablesCaching_def)
qed

theorem stored_response_shareable_witness:
  "resp_StatusCode (example_tarball []) = 200 \<and> header_Values (resp_Header (example_tarball [])) ''Set-Cookie'' = []"
proof -
  have "responseBypassReason example_cache_lib 1000 (example_tarball []) example_npm_route ''https://registry.npmjs.org/x'' True = []"
    by (rule example_tarball_kept) (simp_all add: example_tarball_def example_resp_def)
  from stored_response_shareable [OF this] show ?thesis by blast
qed

lemma example_lifetime: "npmFreshnessLifetime (resp_Header (example_tarball cookies)) = (300 * nsSecond, True)"
  by (simp add: npmFreshnessLifetime_def example_tarball_def npmDeltaSeconds_def parse_nat_def example_header_eval)

lemma example_prepared:
  "\<exists>resp'. prepareNPMCacheResponse example_cache_lib 1000 (example_tarball [''__cf_bm=x; Path=/'']) example_npm_route
     ''https://registry.npmjs.org/x'' (9 * nsSecond) (10 * nsSecond) = ((300 * nsSecond, []), resp')"
proof -
  let ?r = "example_tarball [''__cf_bm=x; Path=/'']"
  have "NormalizeHTTPOrigin (ul_conf (cl_url example_cache_lib)) ''https://registry.npmjs.org'' = Inr ''https://registry.npmjs.org:443''"
    by (simp add: NormalizeHTTPOrigin_def example_cache_lib_def example_clib_def host_url_def url_Hostname_def
      url_Port_def splitHostPort_def validOptionalPort_def JoinHostPort_def Let_def go_eval)
  then have "npmjs_target example_cache_lib t" for t
    by (simp add: npmjs_target_def) (simp add: example_cache_lib_def host_url_def)
  moreover have "anonymous_request ?r" by (simp add: anonymous_request_def example_tarball_def header_Get_def)
  moreover have "\<not> shouldRewrite example_npm_route (resp_Header ?r)"
    by (simp add: shouldRewrite_def example_npm_route_def example_route_def example_tarball_def example_header_eval)
  moreover have "list_all (validCDNCookie example_cache_lib) (header_Values (resp_Header ?r) ''Set-Cookie'')"
    by (simp add: validCDNCookie_def cookie_attribute_ok_def example_cache_lib_def example_tarball_def example_header_eval)
  moreover have "npm_age example_cache_lib (resp_Header ?r) (9 * nsSecond) (10 * nsSecond) = Some (10 * nsSecond)"
    by (simp add: npm_age_def example_tarball_def example_cache_lib_def time_Sub_def minDuration_def maxDuration_def
        int64_def example_header_eval)
  moreover have "?r\<lparr>resp_Header := header_Del ''Set-Cookie'' (resp_Header ?r)\<rparr> =
      (example_tarball [])\<lparr>resp_Header := take 2 (resp_Header (example_tarball []))\<rparr>"
    by (simp add: example_tarball_def header_Del_def example_resp_def example_header_eval)
  moreover have "responseBypassReason example_cache_lib 1000 ((example_tarball [])\<lparr>resp_Header := take 2 (resp_Header (example_tarball []))\<rparr>)
      example_npm_route ''https://registry.npmjs.org/x'' True = []"
    by (rule example_tarball_kept) (simp_all add: example_tarball_def example_resp_def)
  moreover have "rc_Ecosystem example_npm_route = ''npm''" "rc_UpstreamTokenEnv example_npm_route = []"
    by (simp_all add: example_npm_route_def example_route_def)
  ultimately show ?thesis
    by (simp add: prepareNPMCacheResponse_def example_lifetime Let_def int64_def)
qed


end
