(* ===== verification/Proxy.thy ===== *)
theory Proxy
  imports NpmCache Rewrite "HOL-Library.List_Lexorder"
begin

text \<open>
  internal/proxy/proxy.go: the cache key of a request, reading an entry back and checking it,
  streaming an upstream response while capturing it, and serveUpstream as a whole. The client is
  a function that may fail a write; a failed write delivers nothing. The temporary file of the
  spool may take only part of a write. A response is what has been written: headers, status and
  bytes. The Put of an artifact runs after the response, so it is part of the result.
\<close>

section \<open>Writers and readers\<close>

record rw =
  rw_Header :: header
  rw_Status :: "int option"
  rw_Body :: string

type_synonym client = "string \<Rightarrow> string \<Rightarrow> string option"

definition WriteHeader :: "int \<Rightarrow> rw \<Rightarrow> rw" where
  "WriteHeader status w = (if rw_Status w = None then w\<lparr>rw_Status := Some status\<rparr> else w)"

definition client_write :: "client \<Rightarrow> rw writer" where
  "client_write client w d =
     (case client (rw_Body w) d of
        Some e \<Rightarrow> Inl e
      | None \<Rightarrow> Inr ((WriteHeader 200 w)\<lparr>rw_Body := rw_Body w @ d\<rparr>))"

definition reader_size :: "reader \<Rightarrow> nat" where
  "reader_size rd = sum_list (map (length \<circ> fst) rd)"

lemma Read_shrinks: "Read n rd = ((c, ReadOK), rd') \<Longrightarrow> c \<noteq> [] \<Longrightarrow> reader_size rd' < reader_size rd"
  by (cases "(n, rd)" rule: Read.cases) (auto simp: reader_size_def split: if_splits)

lemma Read_shrinks_sym: "((c, ReadOK), rd') = Read n rd \<Longrightarrow> c \<noteq> [] \<Longrightarrow> reader_size rd' < reader_size rd"
  by (rule Read_shrinks) (auto simp: eq_commute)

lemma Read_consumes: "((c, ReadOK), rd') = Read (Suc n) rd \<Longrightarrow> reader_size rd' + length rd' < reader_size rd + length rd"
  by (cases "(Suc n, rd)" rule: Read.cases) (auto simp: reader_size_def split: if_splits)

function io_Copy :: "client \<Rightarrow> rw \<Rightarrow> reader \<Rightarrow> string option \<times> rw" where
  "io_Copy client w src =
     (case Read 32768 src of
        ((c, e), src') \<Rightarrow>
          (case (if c = [] then Inr w else client_write client w c) of
             Inl err \<Rightarrow> (Some err, w)
           | Inr w' \<Rightarrow>
               (case e of ReadOK \<Rightarrow> io_Copy client w' src' | ReadEOF \<Rightarrow> (None, w') | ReadErr err \<Rightarrow> (Some err, w'))))"
  by pat_completeness auto
termination
  by (relation "measure (\<lambda>(_, _, src). reader_size src + length src)")
    (auto simp: Suc_numeral [symmetric] dest: Read_consumes [of _ _ 32767, simplified])

declare io_Copy.simps [simp del]

section \<open>Bounded copies\<close>

datatype copy_error = ObjectTooLarge | CopyError string

function copy_bounded_loop :: "(nat \<Rightarrow> string option) \<Rightarrow> (nat \<Rightarrow> string option) \<Rightarrow> int \<Rightarrow> nat \<Rightarrow> string \<Rightarrow> reader
    \<Rightarrow> string \<times> copy_error option" where
  "copy_bounded_loop ctx wr maximum i written src =
     (case ctx (2 * i) of
        Some e \<Rightarrow> (written, Some (CopyError e))
      | None \<Rightarrow>
          (case Read 32768 src of
             ((c, readErr), src') \<Rightarrow>
               (case ctx (2 * i + 1) of
                  Some e \<Rightarrow> (written, Some (CopyError e))
                | None \<Rightarrow>
                    let remaining = maximum - int (length written);
                        allowed = (if int (length c) > remaining then remaining else int (length c)) in
                    if c \<noteq> [] \<and> allowed > 0 \<and> wr i \<noteq> None then (written, map_option CopyError (wr i))
                    else let written = (if c \<noteq> [] \<and> allowed > 0 then written @ take (nat allowed) c else written) in
                      if c \<noteq> [] \<and> allowed < int (length c) then (written, Some ObjectTooLarge)
                      else (case readErr of
                              ReadEOF \<Rightarrow> (written, None)
                            | ReadErr e \<Rightarrow> (written, Some (CopyError e))
                            | ReadOK \<Rightarrow>
                                if c = [] then (written, Some (CopyError ''no progress''))
                                else copy_bounded_loop ctx wr maximum (Suc i) written src'))))"
  by pat_completeness auto
termination
  by (relation "measure (\<lambda>(_, _, _, _, _, src). reader_size src)") (auto dest: Read_shrinks_sym)

declare copy_bounded_loop.simps [simp del]

definition copyBounded :: "(string \<Rightarrow> string) \<Rightarrow> (nat \<Rightarrow> string option) \<Rightarrow> (nat \<Rightarrow> string option) \<Rightarrow> reader \<Rightarrow> int
    \<Rightarrow> string \<times> string \<times> copy_error option" where
  "copyBounded sha256 ctx wr src maximum =
     (case copy_bounded_loop ctx wr maximum 0 [] src of (written, err) \<Rightarrow> (written, sha256 written, err))"

section \<open>Capturing a response\<close>

record captureSpool =
  sp_data :: string
  sp_maximum :: int
  sp_size :: int
  sp_overflow :: bool
  sp_err :: "string option"

type_synonym spool_file = "string \<Rightarrow> string \<Rightarrow> nat \<times> string option"

definition newCaptureSpool :: "int \<Rightarrow> captureSpool" where
  "newCaptureSpool maximum = \<lparr>sp_data = [], sp_maximum = maximum, sp_size = 0, sp_overflow = False, sp_err = None\<rparr>"

definition spool_write :: "spool_file \<Rightarrow> string \<Rightarrow> int \<Rightarrow> captureSpool \<Rightarrow> captureSpool" where
  "spool_write file_write body allowed s =
     (case file_write (sp_data s) (take (nat allowed) body) of
        (n, err) \<Rightarrow>
          let s = (if n > 0 then s\<lparr>sp_data := sp_data s @ take n body, sp_size := sp_size s + int n\<rparr> else s) in
          (case err of
             Some e \<Rightarrow> s\<lparr>sp_err := Some e\<rparr>
           | None \<Rightarrow> if int n \<noteq> allowed then s\<lparr>sp_err := Some ''short write''\<rparr> else s))"

definition capture :: "spool_file \<Rightarrow> string \<Rightarrow> captureSpool \<Rightarrow> captureSpool" where
  "capture file_write body s =
     (if sp_err s \<noteq> None \<or> sp_overflow s \<or> body = [] then s
      else let remaining = sp_maximum s - sp_size s;
               allowed = (if int (length body) > remaining then remaining else int (length body));
               s = (if allowed > 0 then spool_write file_write body allowed s else s)
           in if sp_err s \<noteq> None then s
              else if allowed < int (length body) then s\<lparr>sp_overflow := True\<rparr> else s)"

function streamAndCapture :: "client \<Rightarrow> spool_file \<Rightarrow> rw \<Rightarrow> reader \<Rightarrow> captureSpool \<Rightarrow> string option \<times> rw \<times> captureSpool" where
  "streamAndCapture client file_write w src spool =
     (case Read 32768 src of
        ((c, readErr), src') \<Rightarrow>
          (case (if c = [] then Inr w else client_write client w c) of
             Inl e \<Rightarrow> (Some e, w, spool)
           | Inr w' \<Rightarrow>
               let spool = (if c = [] then spool else capture file_write c spool) in
               (case readErr of
                  ReadEOF \<Rightarrow> (None, w', spool)
                | ReadErr e \<Rightarrow> (Some e, w', spool)
                | ReadOK \<Rightarrow>
                    if c = [] then (Some ''no progress'', w', spool)
                    else streamAndCapture client file_write w' src' spool)))"
  by pat_completeness auto
termination
  by (relation "measure (\<lambda>(_, _, _, src, _). reader_size src)") (auto dest: Read_shrinks_sym)

declare streamAndCapture.simps [simp del]

section \<open>The cache\<close>

record proxy_lib =
  pl_cache :: cache_lib
  pl_sha256 :: "string \<Rightarrow> string"
  pl_configured :: "(url option \<Rightarrow> url list \<Rightarrow> redirect_error option) option"

record proxy_CacheConfig =
  pc_Store :: bool
  pc_ArtifactTTL :: duration
  pc_MaxObjectSize :: int
  pc_ReadTimeout :: duration
  pc_StoreTimeout :: duration

definition WithCache :: "proxy_CacheConfig \<Rightarrow> proxy_CacheConfig" where
  "WithCache cfg = cfg\<lparr>pc_ReadTimeout := (if pc_ReadTimeout cfg \<le> 0 then 30 * nsSecond else pc_ReadTimeout cfg),
     pc_StoreTimeout := (if pc_StoreTimeout cfg \<le> 0 then 600 * nsSecond else pc_StoreTimeout cfg)\<rparr>"

record Proxy =
  px_baseURL :: string
  px_cache :: proxy_CacheConfig
  px_upstream :: UpstreamProtectionConfig

record proxy_request =
  pr_Method :: string
  pr_URL :: url
  pr_Header :: header
  pr_Body :: "reader option"

definition redirectPolicyFingerprint :: "proxy_lib \<Rightarrow> RouteConfig \<Rightarrow> string" where
  "redirectPolicyFingerprint lib route =
     (if \<not> rc_EnforceRedirectOrigins route then []
      else let origins = map (\<lambda>v. case NormalizeHTTPOrigin (ul_conf (cl_url (pl_cache lib))) v of Inr w \<Rightarrow> w | Inl _ \<Rightarrow> v)
                 (rc_AllowedRedirectOrigins route)
           in ''redirect-policy-'' @ take 16 (pl_sha256 lib (Join (sort_key (map byte) origins) [CHR 0x0A])))"

definition key_components :: "proxy_lib \<Rightarrow> RouteConfig \<Rightarrow> string \<Rightarrow> string list" where
  "key_components lib route target =
     [''GET'', rc_Name route, rc_Ecosystem route, target, ''representation-v2'', ''identity''] @
     (if rc_Ecosystem route = ''npm'' then [''npm-freshness-v2''] else []) @
     (let fingerprint = redirectPolicyFingerprint lib route in if fingerprint \<noteq> [] then [fingerprint] else [])"

definition cacheKey :: "proxy_lib \<Rightarrow> Proxy \<Rightarrow> proxy_request \<Rightarrow> RouteConfig \<Rightarrow> RequestInfo \<Rightarrow> string \<Rightarrow> string \<times> string" where
  "cacheKey lib p r route info target =
     (if \<not> pc_Store (px_cache p) then ([], ''cache_disabled'')
      else if pr_Method r \<noteq> ''GET'' then ([], ''method'')
      else if (ri_Kind info \<noteq> ''artifact'' \<and> \<not> ri_Cacheable info) \<or> \<not> ri_NeedsDecision info \<or> pkg_PURL (ri_Package info) = [] \<or>
              pkg_Name (ri_Package info) = [] \<or> pkg_Version (ri_Package info) = [] then ([], ''not_exact_artifact'')
      else if u_RawQuery (pr_URL r) \<noteq> [] \<or> u_ForceQuery (pr_URL r) then ([], ''query'')
      else if header_Get (pr_Header r) ''Range'' \<noteq> [] then ([], ''range'')
      else if hasConditionalHeader (pr_Header r) then ([], ''conditional'')
      else if requestDisablesCaching (pr_Header r) then ([], ''request_cache_control'')
      else if pr_Body r \<noteq> None then ([], ''request_body'')
      else if \<not> cacheableRequestRepresentation (pr_Header r) then ([], ''representation'')
      else (Key (pl_sha256 lib) (key_components lib route target), []))"

record stagedEntry =
  se_body :: string
  se_headers :: header
  se_size :: int
  se_storedAt :: time

record load_env =
  le_ctx :: "nat \<Rightarrow> string option"
  le_write :: "nat \<Rightarrow> string option"
  le_createTemp :: "string option"
  le_close :: "string option"
  le_seek :: "string option"
  le_now :: time
  le_later :: time

definition loadCached :: "proxy_lib \<Rightarrow> Proxy \<Rightarrow> load_env \<Rightarrow> store_error + Entry \<Rightarrow> store_error + stagedEntry" where
  "loadCached lib p env got =
     (case got of
        Inl e \<Rightarrow> Inl e
      | Inr entry \<Rightarrow>
          (case ValidateEntry entry of
             Some e \<Rightarrow> Inl e
           | None \<Rightarrow>
               if Entry_Expired (le_now env) entry then Inl ErrNotFound
               else if ent_Size entry > pc_MaxObjectSize (px_cache p) then Inl (ErrInvalidEntry ''artifact exceeds cache object limit'')
               else case le_createTemp env of
                 Some e \<Rightarrow> Inl (StoreError e)
               | None \<Rightarrow>
                   (case copyBounded (pl_sha256 lib) (le_ctx env) (le_write env) (the (ent_Body entry)) (pc_MaxObjectSize (px_cache p)) of
                      (written, checksum, copyErr) \<Rightarrow>
                        if copyErr \<noteq> None \<or> le_close env \<noteq> None then Inl (StoreError ''copy cached body'')
                        else if int (length written) \<noteq> ent_Size entry
                        then Inl (ErrInvalidEntry ''cached body size does not match metadata size'')
                        else if \<not> EqualFold checksum (ent_SHA256 entry)
                        then Inl (ErrInvalidEntry ''cached body checksum does not match metadata checksum'')
                        else case le_seek env of
                          Some e \<Rightarrow> Inl (StoreError e)
                        | None \<Rightarrow>
                            if Entry_Expired (le_later env) entry then Inl ErrNotFound
                            else Inr \<lparr>se_body = written, se_headers = SafeHeaders (ent_Headers entry), se_size = ent_Size entry,
                                   se_storedAt = ent_StoredAt entry\<rparr>)))"

datatype serve_error = SEUpstream upstream_error | SEText string | SEEncodedRewrite string

datatype cache_metric = MHit | MMiss | MStoreError | MReadError | MBypass string

record serve_result =
  sr_Status :: int
  sr_Err :: "serve_error option"
  sr_Writer :: rw
  sr_Metrics :: "cache_metric list"
  sr_Put :: "(string \<times> PutRequest) option"

definition serveCached :: "http_lib \<Rightarrow> client \<Rightarrow> rw \<Rightarrow> stagedEntry \<Rightarrow> time \<Rightarrow> serve_result" where
  "serveCached lib client w cached now =
     (let w = w\<lparr>rw_Header := header_Set cacheHeader ''HIT'' (header_Set ''Content-Length'' (FormatInt (se_size cached))
                (copyResponseHeaders (rw_Header w) (agedHeaders lib (se_headers cached) (se_storedAt cached) now)))\<rparr>;
          (err, w) = io_Copy client (WriteHeader 200 w) [(take (nat (se_size cached)) (se_body cached), ReadEOF)];
          err = (if err = None \<and> int (length (se_body cached)) < se_size cached then Some ''EOF'' else err)
      in \<lparr>sr_Status = 200, sr_Err = map_option SEText err, sr_Writer = w, sr_Metrics = [MHit], sr_Put = None\<rparr>)"

section \<open>Serving from the upstream\<close>

record serve_env =
  sv_client :: client
  sv_environ :: environ
  sv_attempts :: "nat \<Rightarrow> attempt_env"
  sv_requestedAt :: time
  sv_receivedAt :: time
  sv_createTemp :: "string option"
  sv_file :: spool_file
  sv_seek :: "string option"
  sv_storedAt :: time

definition store_headers :: "http_lib \<Rightarrow> header \<Rightarrow> time \<Rightarrow> time \<Rightarrow> time \<Rightarrow> header" where
  "store_headers lib h receivedAt storedAt npmExpiresAt =
     (let headers = SafeHeaders h;
          headers = (if \<not> IsZero npmExpiresAt then agedHeaders lib headers receivedAt storedAt else headers)
      in if header_Get headers ''Date'' = [] then header_Set ''Date'' (hl_FormatTime lib storedAt) headers else headers)"

definition store_expiry :: "Proxy \<Rightarrow> time \<Rightarrow> time \<Rightarrow> time" where
  "store_expiry p storedAt npmExpiresAt =
     (let expiresAt = storedAt + pc_ArtifactTTL (px_cache p) in
      if \<not> IsZero npmExpiresAt \<and> npmExpiresAt < expiresAt then npmExpiresAt else expiresAt)"

definition serveAndStore :: "proxy_lib \<Rightarrow> Proxy \<Rightarrow> serve_env \<Rightarrow> rw \<Rightarrow> upstream_response \<Rightarrow> string \<Rightarrow> time \<Rightarrow> time \<Rightarrow> serve_result" where
  "serveAndStore lib p env w resp key receivedAt npmExpiresAt =
     (let status = resp_StatusCode resp; w = WriteHeader status w;
          done = (\<lambda>err w metrics. \<lparr>sr_Status = status, sr_Err = err, sr_Writer = w, sr_Metrics = metrics, sr_Put = None\<rparr>) in
      case sv_createTemp env of
        Some _ \<Rightarrow> (case io_Copy (sv_client env) w (resp_Body resp) of (err, w) \<Rightarrow> done (map_option SEText err) w [MStoreError])
      | None \<Rightarrow>
          (case streamAndCapture (sv_client env) (sv_file env) w (resp_Body resp) (newCaptureSpool (pc_MaxObjectSize (px_cache p))) of
             (Some e, w, spool) \<Rightarrow> done (Some (SEText e)) w []
           | (None, w, spool) \<Rightarrow>
               if sp_err spool \<noteq> None then done None w [MStoreError]
               else if sp_overflow spool then done None w [MBypass ''object_too_large'']
               else if sv_seek env \<noteq> None then done None w [MStoreError]
               else let storedAt = sv_storedAt env in
                 if \<not> IsZero npmExpiresAt \<and> \<not> npmExpiresAt > storedAt then done None w [MBypass ''response_cache_control'']
                 else \<lparr>sr_Status = status, sr_Err = None, sr_Writer = w, sr_Metrics = [],
                   sr_Put = Some (key, \<lparr>put_Headers = store_headers (cl_http (pl_cache lib)) (resp_Header resp) receivedAt storedAt npmExpiresAt,
                     put_Body = Some [(sp_data spool, ReadEOF)], put_SHA256 = pl_sha256 lib (sp_data spool), put_Size = sp_size spool,
                     put_StoredAt = storedAt, put_ExpiresAt = store_expiry p storedAt npmExpiresAt\<rparr>)\<rparr>))"

definition outgoing_request :: "environ \<Rightarrow> proxy_request \<Rightarrow> RouteConfig \<Rightarrow> url \<Rightarrow> string \<Rightarrow> bool \<Rightarrow> upstream_request" where
  "outgoing_request env r route target key rewritesMetadata =
     (let h = copyRequestHeaders [] (pr_Header r);
          h = (if key \<noteq> [] \<or> rewritesMetadata then header_Set ''Accept-Encoding'' ''identity'' h else h);
          token = Getenv env (rc_UpstreamTokenEnv route);
          h = (if rc_UpstreamTokenEnv route \<noteq> [] \<and> token \<noteq> [] then header_Set ''Authorization'' (''Bearer '' @ token) h else h)
      in \<lparr>ur_Method = pr_Method r, ur_URL = target, ur_Header = h, ur_Body = pr_Body r, ur_GetBody = False\<rparr>)"

definition strip_cdn_cookies :: "cache_lib \<Rightarrow> RouteConfig \<Rightarrow> upstream_response \<Rightarrow> upstream_response" where
  "strip_cdn_cookies lib route resp =
     (let cookies = header_Values (resp_Header resp) ''Set-Cookie'' in
      if rc_Ecosystem route \<noteq> ''npm'' \<and> cookies \<noteq> [] \<and> list_all (validCDNCookie lib) cookies
      then resp\<lparr>resp_Header := header_Del ''Set-Cookie'' (resp_Header resp)\<rparr> else resp)"

definition prepare_response :: "proxy_lib \<Rightarrow> Proxy \<Rightarrow> serve_env \<Rightarrow> RouteConfig \<Rightarrow> string \<Rightarrow> string \<Rightarrow> upstream_response
    \<Rightarrow> (time \<times> string) \<times> upstream_response" where
  "prepare_response lib p env route target key resp =
     (if key = [] then ((0, []), resp)
      else case prepareNPMCacheResponse (pl_cache lib) (pc_MaxObjectSize (px_cache p)) resp route target
             (sv_requestedAt env) (sv_receivedAt env) of
        (npm, resp) \<Rightarrow> (npm, strip_cdn_cookies (pl_cache lib) route resp))"

definition rewrite_response :: "proxy_lib \<Rightarrow> Proxy \<Rightarrow> serve_env \<Rightarrow> rw \<Rightarrow> RouteConfig \<Rightarrow> string \<Rightarrow> upstream_response \<Rightarrow> serve_result option" where
  "rewrite_response lib p env w route key resp =
     (case identityContentEncoding (header_Values (resp_Header resp) ''Content-Encoding'') of
        (encoding, False) \<Rightarrow>
          Some \<lparr>sr_Status = 0, sr_Err = Some (SEEncodedRewrite encoding), sr_Writer = w, sr_Metrics = [], sr_Put = None\<rparr>
      | (_, True) \<Rightarrow>
          let metrics = (if key \<noteq> [] then [MBypass ''response_rewrite''] else []);
              w = WriteHeader (resp_StatusCode resp) (w\<lparr>rw_Header := header_Del ''Content-Length'' (rw_Header w)\<rparr>) in
          (case rewriteStream (client_write (sv_client env)) w (resp_Body resp) (rewriteRules (px_baseURL p) route) of
             None \<Rightarrow> None
           | Some (err, w') \<Rightarrow>
               Some \<lparr>sr_Status = resp_StatusCode resp, sr_Err = map_option SEText err,
                 sr_Writer = (case w' of Some w \<Rightarrow> w | None \<Rightarrow> w), sr_Metrics = metrics, sr_Put = None\<rparr>))"

definition pass_through :: "serve_env \<Rightarrow> rw \<Rightarrow> upstream_response \<Rightarrow> cache_metric list \<Rightarrow> serve_result" where
  "pass_through env w resp metrics =
     (case io_Copy (sv_client env) (WriteHeader (resp_StatusCode resp) w) (resp_Body resp) of
        (err, w) \<Rightarrow> \<lparr>sr_Status = resp_StatusCode resp, sr_Err = map_option SEText err, sr_Writer = w,
          sr_Metrics = metrics, sr_Put = None\<rparr>)"

definition serve_response :: "proxy_lib \<Rightarrow> Proxy \<Rightarrow> serve_env \<Rightarrow> rw \<Rightarrow> RouteConfig \<Rightarrow> string \<Rightarrow> string \<Rightarrow> upstream_response
    \<Rightarrow> serve_result option" where
  "serve_response lib p env w route target key resp =
     (case prepare_response lib p env route target key resp of
        ((npmExpiresAt, npmBypassReason), resp) \<Rightarrow>
          let w = w\<lparr>rw_Header := copyResponseHeaders (rw_Header w) (resp_Header resp)\<rparr> in
          if shouldRewrite route (resp_Header resp) then rewrite_response lib p env w route key resp
          else if key = [] then Some (pass_through env w resp [])
          else let reason = (if npmBypassReason = []
                     then responseBypassReason (pl_cache lib) (pc_MaxObjectSize (px_cache p)) resp route target (\<not> IsZero npmExpiresAt)
                     else npmBypassReason) in
            if reason = [] then Some (serveAndStore lib p env w resp key (sv_receivedAt env) npmExpiresAt)
            else Some (pass_through env w resp [MBypass reason]))"

definition do_lib_of :: "proxy_lib \<Rightarrow> do_lib" where
  "do_lib_of lib = \<lparr>dol_url = cl_url (pl_cache lib), dol_http = cl_http (pl_cache lib), dol_configured = pl_configured lib\<rparr>"

definition serveUpstream :: "proxy_lib \<Rightarrow> Proxy \<Rightarrow> serve_env \<Rightarrow> rw \<Rightarrow> proxy_request \<Rightarrow> RouteConfig \<Rightarrow> string \<Rightarrow> string \<Rightarrow> bool
    \<Rightarrow> routeCooldowns \<Rightarrow> (serve_result \<times> routeCooldowns) option" where
  "serveUpstream lib p env w r route target key rewritesMetadata cd =
     (let failed = (\<lambda>e. \<lparr>sr_Status = 0, sr_Err = Some e, sr_Writer = w, sr_Metrics = [], sr_Put = None\<rparr>) in
      case ul_Parse (cl_url (pl_cache lib)) target of
        Inl e \<Rightarrow> Some (failed (SEText e), cd)
      | Inr u \<Rightarrow>
          (case proxy_do (do_lib_of lib)
                  (px_upstream p) (sv_attempts env) route (outgoing_request (sv_environ env) r route u key rewritesMetadata) cd of
             None \<Rightarrow> None
           | Some (Inl err, cd, _) \<Rightarrow> Some (failed (SEUpstream err), cd)
           | Some (Inr (resp, _), cd, _) \<Rightarrow>
               map_option (\<lambda>res. (res, cd)) (serve_response lib p env w route target key resp)))"

section \<open>Copies deliver what they read\<close>

lemma client_write_ok:
  "client_write client w d = Inr w' \<Longrightarrow> rw_Body w' = rw_Body w @ d \<and> rw_Header w' = rw_Header w"
  by (auto simp: client_write_def WriteHeader_def split: option.splits if_splits)

lemma io_Copy_delivers:
  assumes "io_Copy client w src = (err, w')"
  shows "\<exists>d. rw_Body w' = rw_Body w @ d \<and> prefix d (reader_bytes src) \<and> (err = None \<longrightarrow> d = reader_bytes src)
    \<and> rw_Header w' = rw_Header w"
  using assms
proof (induction client w src arbitrary: err w' rule: io_Copy.induct)
  case (1 client w src)
  obtain c e src' where r: "Read 32768 src = ((c, e), src')" by (metis surj_pair)
  note b = Read_bytes [OF r]
  note step = io_Copy.simps [of client w src, unfolded r, simplified]
  show ?case
  proof (cases "if c = [] then Inr w else client_write client w c")
    case (Inl x)
    with 1(2) step show ?thesis by (auto split: if_splits)
  next
    case (Inr v)
    then have v: "rw_Body v = rw_Body w @ c" "rw_Header v = rw_Header w"
      using client_write_ok by (auto split: if_splits)
    show ?thesis
    proof (cases e)
      case ReadOK
      with 1(2) step Inr have "io_Copy client v src' = (err, w')" by simp
      from 1(1) [OF r [symmetric] refl Inr ReadOK this] show ?thesis using v b by auto
    next
      case ReadEOF
      then show ?thesis using 1(2) step Inr v b Read_end [OF r] by (intro exI [of _ c]) auto
    next
      case (ReadErr x)
      then show ?thesis using 1(2) step Inr v b by (intro exI [of _ c]) auto
    qed
  qed
qed

text \<open>A spool that has taken b: the bytes themselves, or the knowledge that they are too many.\<close>

definition spool_inv :: "string \<Rightarrow> captureSpool \<Rightarrow> bool" where
  "spool_inv b s \<longleftrightarrow> sp_err s = None \<longrightarrow> sp_size s = int (length (sp_data s)) \<and>
     (sp_overflow s \<longleftrightarrow> nat (sp_maximum s) < length b) \<and> (\<not> sp_overflow s \<longrightarrow> sp_data s = b)"

lemma spool_inv_new: "spool_inv [] (newCaptureSpool maximum)"
  by (simp add: spool_inv_def newCaptureSpool_def)

lemma capture_maximum: "sp_maximum (capture f c s) = sp_maximum s"
  by (auto simp: capture_def spool_write_def Let_def split: prod.splits option.splits)

lemma spool_write_ok:
  assumes "sp_err (spool_write f c a s) = None" and "0 < a" and "a \<le> int (length c)" and "sp_err s = None"
  shows "sp_data (spool_write f c a s) = sp_data s @ take (nat a) c \<and> sp_size (spool_write f c a s) = sp_size s + a
    \<and> sp_overflow (spool_write f c a s) = sp_overflow s \<and> sp_maximum (spool_write f c a s) = sp_maximum s"
  using assms by (auto simp: spool_write_def Let_def split: prod.splits option.splits if_splits)

lemma capture_inv:
  assumes "spool_inv b s"
  shows "spool_inv (b @ c) (capture f c s)"
proof (cases "sp_err s \<noteq> None \<or> sp_overflow s \<or> c = []")
  case True
  then show ?thesis using assms by (auto simp: capture_def spool_inv_def)
next
  case False
  define a where "a = min (sp_maximum s - sp_size s) (int (length c))"
  have inv: "sp_size s = int (length b)" "sp_data s = b" "length b \<le> nat (sp_maximum s)" "sp_err s = None" "\<not> sp_overflow s"
    using False assms by (auto simp: spool_inv_def)
  have cap: "capture f c s = (let s = (if a > 0 then spool_write f c a s else s) in
      if sp_err s \<noteq> None then s else if a < int (length c) then s\<lparr>sp_overflow := True\<rparr> else s)"
    using False by (auto simp: capture_def Let_def a_def min_def)
  have over: "a < int (length c) \<longleftrightarrow> nat (sp_maximum s) < length (b @ c)"
    using inv(1,3) False by (cases c) (auto simp: a_def min_def)
  show ?thesis
  proof (cases "0 < a")
    case True
    have "a \<le> int (length c)" by (simp add: a_def)
    with spool_write_ok [OF _ True this inv(4)] over True inv show ?thesis
      by (auto simp: spool_inv_def cap Let_def)
  next
    case F: False
    then have "a < int (length c)" using False by (cases c) auto
    then show ?thesis using F over inv by (auto simp: spool_inv_def cap Let_def)
  qed
qed

lemma streamAndCapture_delivers:
  assumes "streamAndCapture client f w src spool = (err, w', spool')" and "spool_inv b spool"
  shows "\<exists>d. rw_Body w' = rw_Body w @ d \<and> prefix d (reader_bytes src) \<and> sp_maximum spool' = sp_maximum spool
    \<and> (err = None \<longrightarrow> d = reader_bytes src \<and> spool_inv (b @ d) spool')"
  using assms
proof (induction client f w src spool arbitrary: err w' spool' b rule: streamAndCapture.induct)
  case (1 client f w src spool)
  obtain c e src' where r: "Read 32768 src = ((c, e), src')" by (metis surj_pair)
  note bytes = Read_bytes [OF r]
  note step = streamAndCapture.simps [of client f w src spool, unfolded r, simplified]
  define sp where "sp = (if c = [] then spool else capture f c spool)"
  have sp: "spool_inv (b @ c) sp" "sp_maximum sp = sp_maximum spool"
    using capture_inv [OF 1(3), of c f] 1(3) by (auto simp: sp_def capture_maximum)
  show ?case
  proof (cases "if c = [] then Inr w else client_write client w c")
    case (Inl x)
    with 1(2) step show ?thesis by (auto split: if_splits)
  next
    case (Inr v)
    then have v: "rw_Body v = rw_Body w @ c" using client_write_ok by (auto split: if_splits)
    show ?thesis
    proof (cases "e = ReadOK \<and> c \<noteq> []")
      case True
      with 1(2) step Inr have s: "streamAndCapture client f v src' sp = (err, w', spool')"
        by (simp add: sp_def Let_def)
      have e: "e = ReadOK" and c: "\<not> c = []" using True by simp_all
      from 1(1) [OF r [symmetric] refl Inr sp_def e c s sp(1)]
      show ?thesis using v bytes sp by auto
    next
      case False
      then show ?thesis using 1(2) step Inr v bytes sp Read_end [OF r]
        by (intro exI [of _ c]) (cases e; auto simp: sp_def Let_def split: if_splits)
    qed
  qed
qed

lemma copy_bounded_delivers:
  assumes "copy_bounded_loop ctx wr maximum i written src = (out, None)"
  shows "out = written @ reader_bytes src"
  using assms
proof (induction ctx wr maximum i written src arbitrary: out rule: copy_bounded_loop.induct)
  case (1 ctx wr maximum i written src)
  obtain c e src' where r: "Read 32768 src = ((c, e), src')" by (metis surj_pair)
  note bytes = Read_bytes [OF r]
  note step = copy_bounded_loop.simps [of ctx wr maximum i written src, unfolded r, simplified]
  define a where "a = (if int (length c) > maximum - int (length written) then maximum - int (length written) else int (length c))"
  have ctx: "ctx (2 * i) = None" "ctx (Suc (2 * i)) = None"
    using 1(2) step by (auto split: option.splits)
  have full: "c = [] \<or> a = int (length c)"
    using 1(2) step ctx by (auto simp: a_def Let_def split: if_splits option.splits)
  have ok: "\<not> (c \<noteq> [] \<and> 0 < a \<and> wr i \<noteq> None)"
    using 1(2) step ctx by (auto simp: a_def Let_def split: if_splits option.splits)
  show ?case
  proof (cases "e = ReadOK")
    case False
    then show ?thesis using 1(2) step ctx full ok bytes Read_end [OF r]
      by (cases e) (auto simp: Let_def a_def [symmetric] split: if_splits)
  next
    case True
    then have c: "c \<noteq> []" using 1(2) step ctx by (auto simp: Let_def split: if_splits)
    with full have "a = int (length c)" "0 < a" by auto
    then have "copy_bounded_loop ctx wr maximum (Suc i) (written @ c) src' = (out, None)"
      using 1(2) step ctx ok c True by (simp add: Let_def a_def [symmetric])
    then show ?thesis
      using 1(1) [OF ctx(1) r [symmetric] refl _ refl a_def _ refl, of out] ctx(2) full ok c True bytes \<open>0 < a\<close> by simp
  qed
qed

lemma copy_bounded_file:
  assumes "\<And>n. ctx n = None" and "\<And>n. wr n = None" and "int (length written) + int (length d) \<le> maximum"
  shows "copy_bounded_loop ctx wr maximum i written [(d, ReadEOF)] = (written @ d, None)"
  using assms(3)
proof (induction "length d" arbitrary: d i written rule: less_induct)
  case less
  show ?case
  proof (cases "length d \<le> 32768")
    case True
    then show ?thesis using less(2) assms(1,2)
      by (simp add: copy_bounded_loop.simps [of _ _ _ i] Let_def)
  next
    case False
    let ?c = "take 32768 d" and ?d = "drop 32768 d"
    have "length ?d < length d" using False by simp
    moreover have "int (length (written @ ?c)) + int (length ?d) \<le> maximum" using less(2) False by simp
    ultimately have "copy_bounded_loop ctx wr maximum (Suc i) (written @ ?c) [(?d, ReadEOF)] = ((written @ ?c) @ ?d, None)"
      by (rule less(1))
    moreover have "d \<noteq> []" using False by auto
    ultimately show ?thesis using False less(2) assms(1,2)
      by (simp add: copy_bounded_loop.simps [of _ _ _ i] Let_def)
  qed
qed

lemma loadCached_ok:
  assumes "loadCached lib p env got = Inr staged"
  shows "\<exists>entry b. got = Inr entry \<and> ent_Body entry = Some b \<and> se_body staged = reader_bytes b \<and>
    se_size staged = int (length (se_body staged)) \<and> ent_Size entry = se_size staged \<and>
    se_size staged \<le> pc_MaxObjectSize (px_cache p) \<and> EqualFold (pl_sha256 lib (se_body staged)) (ent_SHA256 entry) \<and>
    le_later env < ent_ExpiresAt entry \<and> se_headers staged = SafeHeaders (ent_Headers entry) \<and>
    se_storedAt staged = ent_StoredAt entry"
proof -
  obtain entry where got: "got = Inr entry" using assms by (cases got) (auto simp: loadCached_def)
  have v: "ValidateEntry entry = None" using assms got by (auto simp: loadCached_def split: option.splits)
  then obtain b where b: "ent_Body entry = Some b" by (auto simp: ValidateEntry_def split: if_splits)
  obtain out sum err where c: "copyBounded (pl_sha256 lib) (le_ctx env) (le_write env) b (pc_MaxObjectSize (px_cache p)) = (out, sum, err)"
    by (metis surj_pair)
  have s: "err = None" "int (length out) = ent_Size entry" "EqualFold sum (ent_SHA256 entry)" "se_body staged = out"
    "ent_Size entry \<le> pc_MaxObjectSize (px_cache p)" "\<not> Entry_Expired (le_later env) entry"
    "se_headers staged = SafeHeaders (ent_Headers entry)" "se_size staged = ent_Size entry" "se_storedAt staged = ent_StoredAt entry"
    using assms got v b c by (auto simp: loadCached_def split: if_splits option.splits)
  with c have "out = reader_bytes b" "sum = pl_sha256 lib out"
    by (auto simp: copyBounded_def dest!: copy_bounded_delivers split: prod.splits)
  with got b s show ?thesis by (auto simp: Entry_Expired_def)
qed

text \<open>An environment in which a load meets no error.\<close>

definition load_quiet :: "load_env \<Rightarrow> bool" where
  "load_quiet env \<longleftrightarrow> (\<forall>n. le_ctx env n = None \<and> le_write env n = None) \<and> le_createTemp env = None \<and>
     le_close env = None \<and> le_seek env = None"

lemma loadCached_alive:
  assumes "load_quiet env" and "ValidateEntry entry = None" and "ent_Body entry = Some [(d, ReadEOF)]"
    and "ent_Size entry = int (length d)" and "ent_SHA256 entry = pl_sha256 lib d"
    and "int (length d) \<le> pc_MaxObjectSize (px_cache p)"
    and "le_now env < ent_ExpiresAt entry" and "le_later env < ent_ExpiresAt entry"
  shows "\<exists>staged. loadCached lib p env (Inr entry) = Inr staged"
proof -
  have "copy_bounded_loop (le_ctx env) (le_write env) (pc_MaxObjectSize (px_cache p)) 0 [] [(d, ReadEOF)] = ([] @ d, None)"
    using assms(1,6) by (intro copy_bounded_file) (auto simp: load_quiet_def)
  then show ?thesis using assms
    by (simp add: loadCached_def copyBounded_def load_quiet_def Entry_Expired_def EqualFold_def)
qed

lemma fs_get_body:
  assumes "FileSystemStore_Get e now k s = Inr en"
  shows "\<exists>b. ent_Body en = Some [(b, ReadEOF)]"
proof -
  obtain content where "parse_file s (env_io e) now content = Inr en"
    using assms by (auto simp: FileSystemStore_Get_def split: option.splits)
  then show ?thesis by (auto simp: parse_file_def Let_def split: if_splits sum.splits option.splits)
qed

lemma serveAndStore_put:
  assumes "sr_Put (serveAndStore lib p env w resp key receivedAt npmExpiresAt) = Some (k, req)"
  shows "k = key \<and> put_bytes req = reader_bytes (resp_Body resp) \<and> put_Size req = int (length (put_bytes req)) \<and>
    put_SHA256 req = pl_sha256 lib (put_bytes req) \<and> length (put_bytes req) \<le> nat (pc_MaxObjectSize (px_cache p)) \<and>
    rw_Body (sr_Writer (serveAndStore lib p env w resp key receivedAt npmExpiresAt)) = rw_Body w @ reader_bytes (resp_Body resp) \<and>
    sr_Err (serveAndStore lib p env w resp key receivedAt npmExpiresAt) = None \<and>
    put_ExpiresAt req = store_expiry p (put_StoredAt req) npmExpiresAt \<and> put_StoredAt req = sv_storedAt env"
proof -
  let ?r = "serveAndStore lib p env w resp key receivedAt npmExpiresAt"
  obtain err v spool where s: "streamAndCapture (sv_client env) (sv_file env) (WriteHeader (resp_StatusCode resp) w) (resp_Body resp)
      (newCaptureSpool (pc_MaxObjectSize (px_cache p))) = (err, v, spool)" by (metis surj_pair)
  have ok: "err = None" "sp_err spool = None" "\<not> sp_overflow spool" "sr_Writer ?r = v" "sr_Err ?r = None" "k = key"
    "put_Body req = Some [(sp_data spool, ReadEOF)]" "put_Size req = sp_size spool" "put_SHA256 req = pl_sha256 lib (sp_data spool)"
    "put_StoredAt req = sv_storedAt env" "put_ExpiresAt req = store_expiry p (sv_storedAt env) npmExpiresAt"
    using assms s by (auto simp: serveAndStore_def Let_def split: option.splits if_splits prod.splits)
  obtain d where "rw_Body v = rw_Body w @ d" "d = reader_bytes (resp_Body resp)" "spool_inv ([] @ d) spool"
    "sp_maximum spool = pc_MaxObjectSize (px_cache p)"
    using streamAndCapture_delivers [OF s spool_inv_new] ok(1)
    by (auto simp: newCaptureSpool_def WriteHeader_def split: if_splits)
  with ok show ?thesis by (simp add: put_bytes_def spool_inv_def)
qed

text \<open>What a request loads after a Put, whatever the store.\<close>

context artifact_store
begin

lemma load_put:
  assumes "invar s" and "put e k req s = (None, s')" and "storable req" and "quiet e'"
    and load: "loadCached lib p env (get e' now k s') = Inr staged"
  shows "se_body staged = put_bytes req \<and> se_storedAt staged = put_StoredAt req \<and> le_later env < put_ExpiresAt req"
proof -
  have "now < put_ExpiresAt req"
    using get_put_expired [OF assms(1-4), of now] load by (cases "now < put_ExpiresAt req") (auto simp: loadCached_def)
  then obtain en where "get e' now k s' = Inr en" "describes req en" using get_put [OF assms(1-4)] by blast
  with loadCached_ok [OF load] show ?thesis by (auto simp: describes_def)
qed

end

lemma load_after_put:
  assumes inv: "fs_inv s" and store: "FileSystemStore_Put e k req s = (None, s')" and st: "storable req" and q: "fs_quiet e'"
    and req: "put_Size req = int (length (put_bytes req))" "put_SHA256 req = pl_sha256 lib (put_bytes req)"
      "length (put_bytes req) \<le> nat (pc_MaxObjectSize (px_cache p))"
    and "load_quiet lenv" and "0 \<le> pc_MaxObjectSize (px_cache p)"
    and time: "now < put_ExpiresAt req" "le_now lenv < put_ExpiresAt req" "le_later lenv < put_ExpiresAt req"
  shows "\<exists>staged. loadCached lib p lenv (FileSystemStore_Get e' now k s') = Inr staged \<and> se_body staged = put_bytes req \<and>
    se_size staged = int (length (se_body staged)) \<and> se_storedAt staged = put_StoredAt req"
proof -
  obtain en where get: "FileSystemStore_Get e' now k s' = Inr en" and d: "describes req en"
    using fs.get_put [OF inv store st q time(1)] by blast
  obtain b where b: "ent_Body en = Some [(b, ReadEOF)]" using fs_get_body [OF get] by blast
  with d have "b = put_bytes req" by (auto simp: describes_def)
  then have "\<exists>staged. loadCached lib p lenv (Inr en) = Inr staged"
    using d b req time fs.get_sound [OF get] assms(8,9)
    by (intro loadCached_alive [where d = b]) (auto simp: describes_def)
  then obtain staged where l: "loadCached lib p lenv (FileSystemStore_Get e' now k s') = Inr staged" using get by auto
  then show ?thesis using fs.load_put [OF inv store st q l] loadCached_ok [OF l] by auto
qed

lemma header_Get_Set_other:
  "CanonicalHeaderKey k \<noteq> CanonicalHeaderKey k' \<Longrightarrow> header_Get (header_Set k v h) k' = header_Get h k'"
  by (simp add: header_Get_def header_Set_def update_conv')

lemma cacheHeader_not_length: "CanonicalHeaderKey cacheHeader \<noteq> CanonicalHeaderKey ''Content-Length''"
  by (simp add: cacheHeader_def CanonicalHeaderKey_def header_token_def go_eval)

section \<open>What the proxy guarantees\<close>

text \<open>C8: A cache hit is served only after the whole body has been read back and checked: it has
  the recorded size, at most the configured limit, its SHA-256 is the recorded one, and the entry
  has not expired by the end of the check. The client then gets exactly those bytes, or a prefix
  of them and an error.\<close>

theorem cache_hit_verified:
  assumes load: "loadCached lib p env got = Inr staged"
    and serve: "serveCached (cl_http (pl_cache lib)) client w staged now = res"
  shows "\<exists>entry d. got = Inr entry \<and> EqualFold (pl_sha256 lib (se_body staged)) (ent_SHA256 entry) \<and>
    int (length (se_body staged)) = ent_Size entry \<and> ent_Size entry \<le> pc_MaxObjectSize (px_cache p) \<and>
    le_later env < ent_ExpiresAt entry \<and>
    rw_Body (sr_Writer res) = rw_Body w @ d \<and> prefix d (se_body staged) \<and> (sr_Err res = None \<longrightarrow> d = se_body staged) \<and>
    header_Get (rw_Header (sr_Writer res)) ''Content-Length'' = FormatInt (ent_Size entry) \<and>
    header_Get (rw_Header (sr_Writer res)) ''X-Package-Firewall-Cache'' = ''HIT'' \<and> sr_Put res = None"
proof -
  obtain entry where en: "got = Inr entry" "se_size staged = int (length (se_body staged))" "ent_Size entry = se_size staged"
    "se_size staged \<le> pc_MaxObjectSize (px_cache p)" "EqualFold (pl_sha256 lib (se_body staged)) (ent_SHA256 entry)"
    "le_later env < ent_ExpiresAt entry" using loadCached_ok [OF load] by blast
  define v where "v = WriteHeader 200 (w\<lparr>rw_Header := header_Set cacheHeader ''HIT'' (header_Set ''Content-Length'' (FormatInt (se_size staged))
    (copyResponseHeaders (rw_Header w) (agedHeaders (cl_http (pl_cache lib)) (se_headers staged) (se_storedAt staged) now)))\<rparr>)"
  obtain err u where c: "io_Copy client v [(se_body staged, ReadEOF)] = (err, u)" by (metis surj_pair)
  obtain d where d: "rw_Body u = rw_Body v @ d" "prefix d (se_body staged)" "err = None \<longrightarrow> d = se_body staged"
    "rw_Header u = rw_Header v" using io_Copy_delivers [OF c] by auto
  have v: "rw_Body v = rw_Body w" by (simp add: v_def WriteHeader_def)
  have "header_Get (rw_Header v) ''X-Package-Firewall-Cache'' = ''HIT''"
    by (simp add: v_def WriteHeader_def cacheHeader_def header_Get_Set)
  moreover have "header_Get (rw_Header v) ''Content-Length'' = FormatInt (se_size staged)"
    by (simp add: v_def WriteHeader_def header_Get_Set_other [OF cacheHeader_not_length] header_Get_Set)
  moreover have "sr_Writer res = u" "sr_Err res = map_option SEText err" "sr_Put res = None"
    using serve c en(2) by (auto simp: serveCached_def Let_def v_def)
  ultimately show ?thesis using en d v by auto
qed

text \<open>What the first client downloads is what every later client gets from the cache: when
  serveAndStore hands an artifact to the filesystem store and the store accepts it, both the
  client and the store have received exactly the bytes the upstream sent, and until the entry
  expires a request that meets no I/O error loads those bytes again, checked and complete.\<close>

theorem artifact_cached_roundtrip:
  assumes serve: "serveAndStore lib p env w resp key receivedAt npmExpiresAt = res" and put: "sr_Put res = Some (k, req)"
    and inv: "fs_inv s" and store: "FileSystemStore_Put e k req s = (None, s')" and st: "storable req" and q: "fs_quiet e'"
    and lq: "load_quiet lenv" and max: "0 \<le> pc_MaxObjectSize (px_cache p)"
    and time: "now < put_ExpiresAt req" "le_now lenv < put_ExpiresAt req" "le_later lenv < put_ExpiresAt req"
  shows "k = key \<and> sr_Err res = None \<and> rw_Body (sr_Writer res) = rw_Body w @ reader_bytes (resp_Body resp) \<and>
    (\<exists>staged. loadCached lib p lenv (FileSystemStore_Get e' now k s') = Inr staged \<and>
       se_body staged = reader_bytes (resp_Body resp) \<and> se_storedAt staged = sv_storedAt env)"
proof -
  note sp = serveAndStore_put [OF put [folded serve], unfolded serve]
  have "\<exists>staged. loadCached lib p lenv (FileSystemStore_Get e' now k s') = Inr staged \<and> se_body staged = put_bytes req \<and>
      se_size staged = int (length (se_body staged)) \<and> se_storedAt staged = put_StoredAt req"
    by (rule load_after_put [OF inv store st q]) (use sp lq max time in auto)
  with sp show ?thesis by auto
qed


text \<open>The response a request finally got from upstream, when it is given to the store.\<close>

lemma prepare_response_keeps:
  assumes "prepare_response lib p env route target key resp = (npm, resp')"
  shows "resp_Body resp' = resp_Body resp \<and> resp_StatusCode resp' = resp_StatusCode resp"
  using assms by (auto simp: prepare_response_def prepareNPMCacheResponse_def strip_cdn_cookies_def Let_def
      split: if_splits option.splits prod.splits)

lemma serve_response_put:
  assumes sr: "serve_response lib p env w route target key resp = Some res" and put: "sr_Put res = Some (k, req)"
    and pr: "prepare_response lib p env route target key resp = (npm, resp')"
  shows "k = key" "key \<noteq> []" "snd npm = []" "\<not> shouldRewrite route (resp_Header resp')" "resp_StatusCode resp = 200"
    "responseBypassReason (pl_cache lib) (pc_MaxObjectSize (px_cache p)) resp' route target (fst npm \<noteq> 0) = []"
    "put_bytes req = reader_bytes (resp_Body resp)" "rw_Body (sr_Writer res) = rw_Body w @ reader_bytes (resp_Body resp)"
    "put_SHA256 req = pl_sha256 lib (reader_bytes (resp_Body resp))"
    "length (reader_bytes (resp_Body resp)) \<le> nat (pc_MaxObjectSize (px_cache p))"
    "put_ExpiresAt req \<le> sv_storedAt env + pc_ArtifactTTL (px_cache p)" "fst npm = 0 \<or> put_ExpiresAt req \<le> fst npm"
proof -
  let ?w = "w\<lparr>rw_Header := copyResponseHeaders (rw_Header w) (resp_Header resp')\<rparr>"
  show nr: "\<not> shouldRewrite route (resp_Header resp')"
    using sr pr put by (auto simp: serve_response_def rewrite_response_def Let_def split: prod.splits bool.splits option.splits)
  show key: "key \<noteq> []" and npm: "snd npm = []"
    and byp: "responseBypassReason (pl_cache lib) (pc_MaxObjectSize (px_cache p)) resp' route target (fst npm \<noteq> 0) = []"
    using sr pr nr put by (auto simp: serve_response_def pass_through_def Let_def IsZero_def split: prod.splits if_splits)
  then have res: "res = serveAndStore lib p env ?w resp' key (sv_receivedAt env) (fst npm)"
    using sr pr nr by (cases npm) (simp add: serve_response_def Let_def IsZero_def)
  note keeps = prepare_response_keeps [OF pr]
  note sp = serveAndStore_put [OF put [unfolded res], folded res]
  show "resp_StatusCode resp = 200" using byp keeps by (simp add: responseBypassReason_def Let_def split: if_splits)
  show "put_ExpiresAt req \<le> sv_storedAt env + pc_ArtifactTTL (px_cache p)" "fst npm = 0 \<or> put_ExpiresAt req \<le> fst npm"
    using sp by (auto simp: store_expiry_def IsZero_def Let_def)
  show "k = key" "put_bytes req = reader_bytes (resp_Body resp)" "rw_Body (sr_Writer res) = rw_Body w @ reader_bytes (resp_Body resp)"
    "put_SHA256 req = pl_sha256 lib (reader_bytes (resp_Body resp))"
    "length (reader_bytes (resp_Body resp)) \<le> nat (pc_MaxObjectSize (px_cache p))"
    using sp keeps by auto
qed


section \<open>Examples\<close>

definition example_proxy_lib :: proxy_lib where
  "example_proxy_lib = \<lparr>pl_cache = example_cache_lib, pl_sha256 = (\<lambda>_. example_key), pl_configured = None\<rparr>"

definition example_proxy :: Proxy where
  "example_proxy = \<lparr>px_baseURL = ''https://fw'', px_cache = \<lparr>pc_Store = True, pc_ArtifactTTL = 100, pc_MaxObjectSize = 1000,
     pc_ReadTimeout = 1, pc_StoreTimeout = 1\<rparr>, px_upstream = example_limits\<rparr>"

definition open_route :: RouteConfig where
  "open_route = example_route\<lparr>rc_EnforceRedirectOrigins := False, rc_AllowedRedirectOrigins := []\<rparr>"

definition example_artifact :: upstream_response where
  "example_artifact = (example_resp 200 None)\<lparr>resp_Body := [(''ab'', ReadOK), (''c'', ReadEOF)],
     resp_Request := Some \<lparr>rr_URL = Some (host_url ''a''), rr_Header = [], rr_redirected = False, rr_uncacheableHops = False\<rparr>\<rparr>"

definition example_serve_env :: serve_env where
  "example_serve_env = \<lparr>sv_client = (\<lambda>_ _. None), sv_environ = Map.empty,
     sv_attempts = (\<lambda>_. (example_attempt 0)\<lparr>ae_transport := (\<lambda>_ _. Inr example_artifact)\<rparr>), sv_requestedAt = 9, sv_receivedAt = 9,
     sv_createTemp = None, sv_file = (\<lambda>_ d. (length d, None)), sv_seek = None, sv_storedAt = 10\<rparr>"

definition empty_rw :: rw where "empty_rw = \<lparr>rw_Header = [], rw_Status = None, rw_Body = []\<rparr>"

definition example_stored :: PutRequest where
  "example_stored = \<lparr>put_Headers = [(''Date'', [[]])], put_Body = Some [(''abc'', ReadEOF)], put_SHA256 = example_key, put_Size = 3,
     put_StoredAt = 10, put_ExpiresAt = 110\<rparr>"

definition example_load_env :: load_env where
  "example_load_env = \<lparr>le_ctx = (\<lambda>_. None), le_write = (\<lambda>_. None), le_createTemp = None, le_close = None, le_seek = None,
     le_now = 20, le_later = 21\<rparr>"

definition example_disk :: FileSystemStore where
  "example_disk = example_fs\<lparr>fss_marshal := (\<lambda>r. if r = record_of example_stored then Inr ''{}'' else Inl ''unsupported''),
     fss_unmarshal := (\<lambda>b. if b = ''{}'' then Inr (record_of example_stored) else Inl ''syntax'')\<rparr>"

lemma example_stored_headers: "store_headers (cl_http example_cache_lib) [] t u 0 = [(''Date'', [[]])]"
  by (simp add: store_headers_def SafeHeaders_def IsZero_def header_Get_def header_Set_def example_cache_lib_def
      CanonicalHeaderKey_def header_token_def go_eval)

lemma example_stream:
  "streamAndCapture (\<lambda>_ _. None) (\<lambda>_ d. (length d, None)) w [(''ab'', ReadOK), (''c'', ReadEOF)] (newCaptureSpool 1000) =
     (None, (WriteHeader 200 w)\<lparr>rw_Body := rw_Body w @ ''abc''\<rparr>,
      \<lparr>sp_data = ''abc'', sp_maximum = 1000, sp_size = 3, sp_overflow = False, sp_err = None\<rparr>)"
  by (simp add: streamAndCapture.simps [of _ _ _ "_ # _"] client_write_def capture_def spool_write_def newCaptureSpool_def
      WriteHeader_def Let_def)

lemma example_stored_put:
  assumes "resp_Header resp = []" and "resp_Body resp = resp_Body example_artifact"
  shows "sr_Put (serveAndStore example_proxy_lib example_proxy example_serve_env w resp key 9 0) = Some (key, example_stored)"
  using assms by (simp add: serveAndStore_def example_serve_env_def example_artifact_def example_proxy_def example_stream Let_def
      IsZero_def store_expiry_def example_proxy_lib_def example_stored_headers example_stored_def)

lemma example_disk_inv: "fs_inv example_disk"
  by (auto simp: fs_inv_def example_disk_def)

lemma example_stored_ok: "storable example_stored" "load_quiet example_load_env" "ValidatePut example_stored = None"
proof -
  show "storable example_stored"
    by (simp add: storable_def example_stored_def canonical_header_def ascii_header_def ascii_def year10000_def
        CanonicalHeaderKey_def header_token_def go_eval)
  show "load_quiet example_load_env" by (simp add: load_quiet_def example_load_env_def)
  show "ValidatePut example_stored = None"
    using example_valid(2) by (simp add: ValidatePut_def example_stored_def example_put_def IsZero_def split: if_splits)
qed

lemma example_fields: "pl_cache example_proxy_lib = example_cache_lib" "pc_MaxObjectSize (px_cache example_proxy) = 1000"
  "sv_receivedAt example_serve_env = 9" "example_key \<noteq> []" "px_upstream example_proxy = example_limits"
  "ul_Parse (cl_url example_cache_lib) t = Inr (host_url ''registry.npmjs.org'')"
  by (simp_all add: example_proxy_lib_def example_proxy_def example_serve_env_def example_key_def example_cache_lib_def)

lemma example_disk_put: "\<exists>s'. FileSystemStore_Put example_env example_key example_stored example_disk = (None, s')"
  by (simp add: FileSystemStore_Put_def put_checks_def write_temporary_def example_valid validateKey_def example_stored_ok
      example_env_def example_disk_def maxFileRecordSize_def copyExactly_def)
    (simp add: example_stored_def example_fs_def copy_loop.simps)

theorem artifact_cached_roundtrip_witness:
  "\<exists>s' staged. FileSystemStore_Put example_env example_key example_stored example_disk = (None, s') \<and>
     loadCached example_proxy_lib example_proxy example_load_env (FileSystemStore_Get example_env 15 example_key s') = Inr staged \<and>
     se_body staged = ''abc''"
proof -
  obtain s' where put: "FileSystemStore_Put example_env example_key example_stored example_disk = (None, s')"
    using example_disk_put by blast
  have "sr_Put (serveAndStore example_proxy_lib example_proxy example_serve_env empty_rw example_artifact example_key 9 0) =
      Some (example_key, example_stored)"
    by (rule example_stored_put) (simp_all add: example_artifact_def example_resp_def)
  from artifact_cached_roundtrip [OF refl this example_disk_inv put example_stored_ok(1) example_quiet, of example_load_env 15]
  obtain staged where
    "loadCached example_proxy_lib example_proxy example_load_env (FileSystemStore_Get example_env 15 example_key s') = Inr staged"
    "se_body staged = reader_bytes (resp_Body example_artifact)"
    using example_stored_ok(2)
    by (auto simp: example_disk_def example_fs_def example_proxy_lib_def example_proxy_def example_stored_def example_load_env_def)
  then show ?thesis using put by (auto simp: example_artifact_def)
qed

theorem cache_hit_verified_witness:
  "\<exists>s' staged. loadCached example_proxy_lib example_proxy example_load_env (FileSystemStore_Get example_env 15 example_key s') = Inr staged \<and>
     se_body staged = ''abc'' \<and> sr_Put (serveCached (cl_http (pl_cache example_proxy_lib)) (\<lambda>_ _. None) empty_rw staged 22) = None"
proof -
  obtain s' where put: "FileSystemStore_Put example_env example_key example_stored example_disk = (None, s')"
    using example_disk_put by blast
  have "put_bytes example_stored = ''abc''" by (simp add: put_bytes_def example_stored_def)
  then obtain staged where
    l: "loadCached example_proxy_lib example_proxy example_load_env (FileSystemStore_Get example_env 15 example_key s') = Inr staged"
    and b: "se_body staged = ''abc''"
    using load_after_put [OF example_disk_inv put example_stored_ok(1) example_quiet _ _ _ example_stored_ok(2),
        of example_proxy_lib example_proxy 15]
    by (auto simp: example_stored_def example_proxy_lib_def example_proxy_def example_load_env_def)
  from cache_hit_verified [OF l refl, of "\<lambda>_ _. None" empty_rw 22] l b show ?thesis by blast
qed

definition example_get :: "string \<Rightarrow> proxy_request" where
  "example_get path = \<lparr>pr_Method = ''GET'', pr_URL = (host_url ''fw'')\<lparr>u_Path := path\<rparr>, pr_Header = [], pr_Body = None\<rparr>"

definition example_info :: RequestInfo where
  "example_info = \<lparr>ri_Package = \<lparr>pkg_Ecosystem = ''maven'', pkg_Name = ''n'', pkg_Version = ''1'', pkg_PURL = ''p'', pkg_PublishedAt = 0\<rparr>,
     ri_Kind = ''artifact'', ri_UpstreamPath = ''/x'', ri_FileUpstream = False, ri_NeedsDecision = True, ri_Cacheable = True,
     ri_SkipVulnerabilityCheck = False\<rparr>"

lemma example_cacheKey:
  "cacheKey example_proxy_lib example_proxy (example_get path) open_route example_info t =
    (Key (pl_sha256 example_proxy_lib) (key_components example_proxy_lib open_route t), [])"
  by (simp add: cacheKey_def example_proxy_def example_get_def host_url_def example_info_def hasConditionalHeader_def header_Get_def
      header_Values_def requestDisablesCaching_def hasCacheDirective_def cacheableRequestRepresentation_def identityEncodingAccepted_def)
    (simp add: go_eval)


lemma example_artifact_kept:
  "responseBypassReason example_cache_lib 1000 example_artifact open_route ''https://registry.npmjs.org/x'' False = []"
proof -
  have "\<not> redirected_away example_cache_lib example_artifact ''https://registry.npmjs.org/x''"
    by (simp add: redirected_away_def example_artifact_def example_cache_lib_def)
  moreover have "TrimSpace [] = []" by (simp add: go_eval)
  ultimately show ?thesis
    by (simp add: responseBypassReason_def example_artifact_def example_resp_def header_Values_def header_Get_def
        cacheableResponseVary_def responseDisablesCaching_def hasCacheDirective_def)
qed

lemma example_artifact_did:
  "\<exists>evs. proxy_do (do_lib_of example_proxy_lib) example_limits (sv_attempts example_serve_env) open_route request [] =
     Some (Inr (example_artifact, [EvRelease, EvInFlight (-1), EvCancel]), [], evs)"
proof -
  have "waitForCooldown example_limits (sv_attempts example_serve_env 0) request k [] = (Proceed, [], [])" for k
    by (simp add: waitForCooldown_def example_serve_env_def example_attempt_def cooldowns_get_def time_Sub_def minDuration_def maxDuration_def)
  moreover have "doOnce url (\<lambda>_ _. Inr example_artifact) None open_route request = Some (Inr example_artifact)" for url
    by (simp add: doOnce_def upstreamRedirectPolicy_def open_route_def example_redirect_defs example_artifact_def example_resp_def follows_def
      validateReturnedRedirect_def)
  moreover have "resp_StatusCode example_artifact \<noteq> 429" by (simp add: example_artifact_def example_resp_def)
  ultimately show ?thesis
    by (simp add: proxy_do_def do_loop.simps [of _ _ _ _ _ _ 0] Let_def)
      (simp add: example_serve_env_def example_attempt_def do_lib_of_def example_proxy_lib_def)
qed

lemma example_artifact_prepared:
  "prepare_response example_proxy_lib example_proxy example_serve_env open_route t example_key example_artifact = ((0, []), example_artifact)"
  by (simp add: prepare_response_def prepareNPMCacheResponse_def strip_cdn_cookies_def open_route_def example_route_def
      example_artifact_def example_resp_def header_Values_def Let_def)

lemma example_served:
  "\<exists>res. serveUpstream example_proxy_lib example_proxy example_serve_env w (example_get path) open_route ''https://registry.npmjs.org/x''
     example_key False [] = Some (res, []) \<and> sr_Put res = Some (example_key, example_stored)"
proof -
  obtain evs where did: "proxy_do (do_lib_of example_proxy_lib) example_limits (sv_attempts example_serve_env) open_route
      (outgoing_request (sv_environ example_serve_env) (example_get path) open_route (host_url ''registry.npmjs.org'') example_key False) [] =
      Some (Inr (example_artifact, [EvRelease, EvInFlight (-1), EvCancel]), [], evs)" using example_artifact_did by blast
  let ?w = "w\<lparr>rw_Header := copyResponseHeaders (rw_Header w) (resp_Header example_artifact)\<rparr>"
  let ?res = "serveAndStore example_proxy_lib example_proxy example_serve_env ?w example_artifact example_key 9 0"
  have "\<not> shouldRewrite open_route h" for h by (simp add: shouldRewrite_def open_route_def example_route_def)
  then have "serve_response example_proxy_lib example_proxy example_serve_env w open_route ''https://registry.npmjs.org/x'' example_key
      example_artifact = Some ?res"
    using example_artifact_kept by (simp add: serve_response_def example_artifact_prepared example_fields IsZero_def)
  then have "serveUpstream example_proxy_lib example_proxy example_serve_env w (example_get path) open_route ''https://registry.npmjs.org/x''
      example_key False [] = Some (?res, [])"
    using did by (simp add: serveUpstream_def example_fields)
  moreover have "sr_Put ?res = Some (example_key, example_stored)"
    by (rule example_stored_put) (simp_all add: example_artifact_def example_resp_def)
  ultimately show ?thesis by blast
qed


end
