(* ===== verification/Fill.thy ===== *)
theory Fill
  imports Proxy
begin

text \<open>
  internal/proxy/fill.go and Proxy.Serve. A cache miss is filled by one request per key and
  process, the leader, and by one process per key when there is a coordinator; the others wait and
  read the cache again. fillGroup is a map guarded by a mutex, so begin and finish are atomic
  steps on it; a fillCall is a number, and the set of closed channels is part of the state. What
  one request meets on its way, round by round, is a list: the rounds of serveCacheMiss and the
  polls of serveLocalFillLeader. A list that ends before the request is answered gives None: the
  request is still waiting. The outcome carries the trace of what was done in order.
\<close>

section \<open>Calls in flight\<close>

record fillGroup =
  fg_calls :: "string \<rightharpoonup> nat"
  fg_fresh :: nat
  fg_done :: "nat set"

definition fill_begin :: "string \<Rightarrow> fillGroup \<Rightarrow> (nat \<times> bool) \<times> fillGroup" where
  "fill_begin key g =
     (case fg_calls g key of
        Some call \<Rightarrow> ((call, False), g)
      | None \<Rightarrow> ((fg_fresh g, True), g\<lparr>fg_calls := (fg_calls g)(key \<mapsto> fg_fresh g), fg_fresh := Suc (fg_fresh g)\<rparr>))"

definition fill_finish :: "string \<Rightarrow> nat \<Rightarrow> fillGroup \<Rightarrow> fillGroup" where
  "fill_finish key call g =
     (if fg_calls g key \<noteq> Some call then g
      else g\<lparr>fg_calls := (fg_calls g)(key := None), fg_done := insert call (fg_done g)\<rparr>)"

section \<open>The lease of a fill\<close>

definition leaseResource :: "string \<Rightarrow> string" where
  "leaseResource key = ''artifact:'' @ key"

fun keepLease :: "'t DynamoDBCoordinator \<Rightarrow> duration \<Rightarrow> dynamoLease \<Rightarrow> (ddb_error option \<times> time) list \<Rightarrow> 't \<Rightarrow> bool \<times> 't" where
  "keepLease c leaseDuration lease [] t = (False, t)"
| "keepLease c leaseDuration lease ((net, now) # ticks) t =
     (case Renew c net lease now leaseDuration t of
        (None, t') \<Rightarrow> keepLease c leaseDuration lease ticks t'
      | (Some _, t') \<Rightarrow> (True, t'))"

definition stopLease :: "'t DynamoDBCoordinator \<Rightarrow> ddb_error option \<Rightarrow> dynamoLease \<Rightarrow> 't \<Rightarrow> 't" where
  "stopLease c net lease t = snd (Release c net lease t)"

record proxy_CoordinationConfig =
  cc_Coordinator :: bool
  cc_LeaseDuration :: duration
  cc_PollInterval :: duration

definition WithCoordination :: "proxy_CoordinationConfig \<Rightarrow> proxy_CoordinationConfig" where
  "WithCoordination cfg = cfg\<lparr>
     cc_LeaseDuration := (if cc_LeaseDuration cfg \<le> 0 then 30 * nsSecond else cc_LeaseDuration cfg),
     cc_PollInterval := (if cc_PollInterval cfg \<le> 0 then nsSecond else cc_PollInterval cfg)\<rparr>"

section \<open>One request on a miss\<close>

datatype fill_event = FillLeader | FillWaiter string | FillMetric cache_metric | FillPut string PutRequest
  | FillRelease | FillFinish nat

type_synonym fill_outcome = "serve_result \<times> fill_event list \<times> routeCooldowns"

record load_round =
  lr_env :: load_env
  lr_got :: "store_error + Entry"
  lr_now :: time

record poll_round =
  po_acquire :: "coord_error + bool"
  po_serve :: serve_env
  po_ctx :: "string option"
  po_load :: load_round

record miss_round =
  mr_group :: fillGroup
  mr_serve :: serve_env
  mr_polls :: "poll_round list"
  mr_ctx :: "string option"
  mr_load :: load_round

definition serve_failed :: "rw \<Rightarrow> serve_error \<Rightarrow> serve_result" where
  "serve_failed w e = \<lparr>sr_Status = 0, sr_Err = Some e, sr_Writer = w, sr_Metrics = [], sr_Put = None\<rparr>"

definition done_events :: "serve_result \<Rightarrow> fill_event list" where
  "done_events res = map FillMetric (sr_Metrics res) @ (case sr_Put res of None \<Rightarrow> [] | Some (k, req) \<Rightarrow> [FillPut k req])"

definition with_events :: "fill_event list \<Rightarrow> fill_outcome option \<Rightarrow> fill_outcome option" where
  "with_events evs = map_option (\<lambda>(res, more, cd). (res, evs @ more, cd))"

record fill_request =
  fr_writer :: rw
  fr_client :: client
  fr_request :: proxy_request
  fr_route :: RouteConfig
  fr_target :: string
  fr_key :: string

definition from_cache :: "proxy_lib \<Rightarrow> Proxy \<Rightarrow> fill_request \<Rightarrow> load_round \<Rightarrow> store_error + serve_result" where
  "from_cache lib p f ld =
     (case loadCached lib p (lr_env ld) (lr_got ld) of
        Inl e \<Rightarrow> Inl e
      | Inr cached \<Rightarrow> Inr (serveCached (cl_http (pl_cache lib)) (fr_client f) (fr_writer f) cached (lr_now ld)))"

definition read_error :: "store_error \<Rightarrow> fill_event list" where
  "read_error e = (if e = ErrNotFound then [] else [FillMetric MReadError])"

definition fill_upstream :: "proxy_lib \<Rightarrow> Proxy \<Rightarrow> fill_request \<Rightarrow> serve_env \<Rightarrow> routeCooldowns \<Rightarrow> fill_event list \<Rightarrow> fill_outcome option" where
  "fill_upstream lib p f env cd completion =
     map_option (\<lambda>(res, cd). (res, done_events res @ completion, cd))
       (serveUpstream lib p (env\<lparr>sv_client := fr_client f\<rparr>) (fr_writer f) (fr_request f) (fr_route f) (fr_target f) (fr_key f) False cd)"

fun leader_polls :: "proxy_lib \<Rightarrow> Proxy \<Rightarrow> fill_request \<Rightarrow> nat \<Rightarrow> routeCooldowns \<Rightarrow> bool \<Rightarrow> poll_round list \<Rightarrow> fill_outcome option" where
  "leader_polls lib p f call cd recordedWaiter [] = None"
| "leader_polls lib p f call cd recordedWaiter (po # polls) =
     (case po_acquire po of
        Inl e \<Rightarrow> Some (serve_failed (fr_writer f) (SEText ''lease''), [FillFinish call], cd)
      | Inr True \<Rightarrow> with_events [FillLeader] (fill_upstream lib p f (po_serve po) cd [FillRelease, FillFinish call])
      | Inr False \<Rightarrow>
          let waiter = (if recordedWaiter then [] else [FillWaiter ''cluster'']) in
          (case po_ctx po of
             Some e \<Rightarrow> Some (serve_failed (fr_writer f) (SEText e), waiter @ [FillFinish call], cd)
           | None \<Rightarrow>
               (case from_cache lib p f (po_load po) of
                  Inr res \<Rightarrow> Some (res, waiter @ FillFinish call # done_events res, cd)
                | Inl e \<Rightarrow> with_events (waiter @ read_error e) (leader_polls lib p f call cd True polls))))"

definition serveLocalFillLeader :: "proxy_lib \<Rightarrow> Proxy \<Rightarrow> proxy_CoordinationConfig \<Rightarrow> fill_request \<Rightarrow> nat \<Rightarrow> routeCooldowns
    \<Rightarrow> serve_env \<Rightarrow> poll_round list \<Rightarrow> fill_outcome option" where
  "serveLocalFillLeader lib p coord f call cd env polls =
     (if \<not> cc_Coordinator coord then with_events [FillLeader] (fill_upstream lib p f env cd [FillFinish call])
      else leader_polls lib p f call cd False polls)"

fun serveCacheMiss :: "proxy_lib \<Rightarrow> Proxy \<Rightarrow> proxy_CoordinationConfig \<Rightarrow> fill_request \<Rightarrow> routeCooldowns \<Rightarrow> miss_round list \<Rightarrow> fill_outcome option" where
  "serveCacheMiss lib p coord f cd [] = None"
| "serveCacheMiss lib p coord f cd (m # rounds) =
     (case fill_begin (fr_key f) (mr_group m) of
        ((call, True), _) \<Rightarrow> serveLocalFillLeader lib p coord f call cd (mr_serve m) (mr_polls m)
      | ((call, False), _) \<Rightarrow>
          (case mr_ctx m of
             Some e \<Rightarrow> Some (serve_failed (fr_writer f) (SEText e), [FillWaiter ''process''], cd)
           | None \<Rightarrow>
               (case from_cache lib p f (mr_load m) of
                  Inr res \<Rightarrow> Some (res, FillWaiter ''process'' # done_events res, cd)
                | Inl e \<Rightarrow> with_events (FillWaiter ''process'' # read_error e) (serveCacheMiss lib p coord f cd rounds))))"

section \<open>Serve\<close>

definition Serve :: "proxy_lib \<Rightarrow> Proxy \<Rightarrow> proxy_CoordinationConfig \<Rightarrow> client \<Rightarrow> rw \<Rightarrow> proxy_request \<Rightarrow> RouteConfig \<Rightarrow> RequestInfo
    \<Rightarrow> load_round \<Rightarrow> serve_env \<Rightarrow> routeCooldowns \<Rightarrow> miss_round list \<Rightarrow> fill_outcome option" where
  "Serve lib p coord client w r route info ld env cd rounds =
     (let url = cl_url (pl_cache lib); failed = (\<lambda>e. Some (serve_failed w (SEText e), [], cd)) in
      case upstreamURL url route info of
        Inl e \<Rightarrow> failed e
      | Inr target \<Rightarrow>
          (case withRequestQuery url target (pr_URL r) of
             Inl e \<Rightarrow> failed e
           | Inr target \<Rightarrow>
               (case cacheKey lib p r route info target of
                  (key, bypassReason) \<Rightarrow>
                    let f = \<lparr>fr_writer = w, fr_client = client, fr_request = r, fr_route = route, fr_target = target, fr_key = key\<rparr>;
                        mark = (\<lambda>v. w\<lparr>rw_Header := header_Set cacheHeader v (rw_Header w)\<rparr>) in
                    if bypassReason = [] then
                      (case from_cache lib p f ld of
                         Inr res \<Rightarrow> Some (res, done_events res, cd)
                       | Inl e \<Rightarrow> with_events (read_error e @ [FillMetric MMiss])
                           (serveCacheMiss lib p coord (f\<lparr>fr_writer := mark ''MISS''\<rparr>) cd rounds))
                    else map_option (\<lambda>(res, cd). (res, FillMetric (MBypass bypassReason) # done_events res, cd))
                      (serveUpstream lib p (env\<lparr>sv_client := client\<rparr>) (mark ''BYPASS'') r route target []
                         (rewritableRoute route \<and> ri_Kind info \<noteq> ''artifact'') cd))))"

section \<open>Concurrent fills\<close>

text \<open>Requests as numbered processes that share a fillGroup: a request begins a call and leads it or
  waits for it, a leader finishes its call once, a waiter goes on when the channel is closed.\<close>

record fill_state =
  fs_group :: fillGroup
  fs_leaders :: "(nat \<times> string \<times> nat) set"
  fs_waiters :: "(nat \<times> string \<times> nat) set"

definition busy :: "nat \<Rightarrow> fill_state \<Rightarrow> bool" where
  "busy i s \<longleftrightarrow> i \<in> fst ` fs_leaders s \<or> i \<in> fst ` fs_waiters s"

inductive fill_step :: "fill_state \<Rightarrow> fill_state \<Rightarrow> bool" where
  leads: "\<not> busy i s \<Longrightarrow> fill_begin key (fs_group s) = ((call, True), g) \<Longrightarrow>
     fill_step s (s\<lparr>fs_group := g, fs_leaders := insert (i, key, call) (fs_leaders s)\<rparr>)"
| joins: "\<not> busy i s \<Longrightarrow> fill_begin key (fs_group s) = ((call, False), g) \<Longrightarrow>
     fill_step s (s\<lparr>fs_group := g, fs_waiters := insert (i, key, call) (fs_waiters s)\<rparr>)"
| finishes: "(i, key, call) \<in> fs_leaders s \<Longrightarrow>
     fill_step s (s\<lparr>fs_group := fill_finish key call (fs_group s), fs_leaders := fs_leaders s - {(i, key, call)}\<rparr>)"
| wakes: "(i, key, call) \<in> fs_waiters s \<Longrightarrow> call \<in> fg_done (fs_group s) \<Longrightarrow>
     fill_step s (s\<lparr>fs_waiters := fs_waiters s - {(i, key, call)}\<rparr>)"

inductive fill_reach :: "fill_state \<Rightarrow> bool" where
  start: "fill_reach \<lparr>fs_group = \<lparr>fg_calls = Map.empty, fg_fresh = 0, fg_done = {}\<rparr>, fs_leaders = {}, fs_waiters = {}\<rparr>"
| step: "fill_reach s \<Longrightarrow> fill_step s s' \<Longrightarrow> fill_reach s'"

definition fill_inv :: "fill_state \<Rightarrow> bool" where
  "fill_inv s \<longleftrightarrow>
     (\<forall>key call. fg_calls (fs_group s) key = Some call \<longrightarrow> (\<exists>i. (i, key, call) \<in> fs_leaders s)) \<and>
     (\<forall>i key call. (i, key, call) \<in> fs_leaders s \<longrightarrow> fg_calls (fs_group s) key = Some call) \<and>
     (\<forall>i j key key' call. (i, key, call) \<in> fs_leaders s \<longrightarrow> (j, key', call) \<in> fs_leaders s \<longrightarrow> i = j \<and> key = key') \<and>
     (\<forall>i key call. (i, key, call) \<in> fs_waiters s \<longrightarrow> call \<in> fg_done (fs_group s) \<or> (\<exists>j. (j, key, call) \<in> fs_leaders s)) \<and>
     (\<forall>i key call. (i, key, call) \<in> fs_leaders s \<longrightarrow> call \<notin> fg_done (fs_group s) \<and> call < fg_fresh (fs_group s)) \<and>
     (\<forall>call. call \<in> fg_done (fs_group s) \<longrightarrow> call < fg_fresh (fs_group s))"

lemma fill_begin_leader:
  "fill_begin key g = ((call, True), g') \<Longrightarrow> fg_calls g key = None \<and> call = fg_fresh g \<and>
     g' = g\<lparr>fg_calls := (fg_calls g)(key \<mapsto> call), fg_fresh := Suc call\<rparr>"
  by (auto simp: fill_begin_def split: option.splits)

lemma fill_begin_waiter: "fill_begin key g = ((call, False), g') \<Longrightarrow> fg_calls g key = Some call \<and> g' = g"
  by (auto simp: fill_begin_def split: option.splits)

lemma fill_inv_step:
  assumes inv: "fill_inv s" and "fill_step s s'"
  shows "fill_inv s'"
  using assms(2)
proof cases
  case (leads i key call g)
  note g = fill_begin_leader [OF leads(3)]
  have free: "(j, key, c) \<notin> fs_leaders s" "(j, k, call) \<notin> fs_leaders s" for j c k
    using inv g unfolding fill_inv_def by fastforce+
  then show ?thesis using inv g unfolding leads(1) fill_inv_def by (auto simp: less_Suc_eq) metis+
next
  case (joins i key call g)
  then show ?thesis using inv fill_begin_waiter [OF joins(3)] unfolding fill_inv_def by auto
next
  case (finishes i key call)
  have cur: "fg_calls (fs_group s) key = Some call" using inv finishes(2) unfolding fill_inv_def by blast
  have uniq: "j = i \<and> k = key" if "(j, k, call) \<in> fs_leaders s" for j k
    using inv finishes(2) that unfolding fill_inv_def by blast
  have same: "c = call" if "(j, key, c) \<in> fs_leaders s" for j c
    using inv cur that unfolding fill_inv_def by fastforce
  have s': "fg_calls (fs_group s') = (fg_calls (fs_group s))(key := None)" "fg_done (fs_group s') = insert call (fg_done (fs_group s))"
    "fg_fresh (fs_group s') = fg_fresh (fs_group s)" "fs_leaders s' = fs_leaders s - {(i, key, call)}" "fs_waiters s' = fs_waiters s"
    using cur by (simp_all add: finishes(1) fill_finish_def)
  have led: "\<exists>j. (j, k, c) \<in> fs_leaders s'" if "fg_calls (fs_group s') k = Some c" for k c
    using that inv unfolding fill_inv_def s' by (fastforce split: if_splits)
  have lead: "fg_calls (fs_group s') k = Some c \<and> c \<notin> fg_done (fs_group s') \<and> c < fg_fresh (fs_group s')"
    if "(j, k, c) \<in> fs_leaders s'" for j k c
    using that inv uniq same unfolding fill_inv_def s' by auto
  have wait: "c \<in> fg_done (fs_group s') \<or> (\<exists>j. (j, k, c) \<in> fs_leaders s')" if "(j, k, c) \<in> fs_waiters s'" for j k c
  proof -
    have "c \<in> fg_done (fs_group s) \<or> (\<exists>j. (j, k, c) \<in> fs_leaders s)" using that inv unfolding fill_inv_def s' by blast
    then show ?thesis unfolding s' by auto
  qed
  have fresh: "c < fg_fresh (fs_group s')" if "c \<in> fg_done (fs_group s')" for c
    using that inv finishes(2) unfolding fill_inv_def s' by auto
  have one: "j = j' \<and> k = k'" if "(j, k, c) \<in> fs_leaders s'" "(j', k', c) \<in> fs_leaders s'" for j j' k k' c
    using that inv unfolding fill_inv_def s' by blast
  show ?thesis unfolding fill_inv_def using led lead wait fresh one by blast
next
  case (wakes i key call)
  show ?thesis using inv unfolding fill_inv_def wakes(1) by simp blast
qed

lemma fill_reach_inv: "fill_reach s \<Longrightarrow> fill_inv s"
proof (induction rule: fill_reach.induct)
  case start
  show ?case by (simp add: fill_inv_def)
qed (rule fill_inv_step)

text \<open>C11: Concurrent misses for one artifact make one upstream request at a time. However requests
  begin, finish and wake, no two lead the fill of one key, every request that waits either has its
  channel closed already or its leader still at work, and the channel a leader is about to close
  is open, so closing it cannot panic; finishing removes the key, so the next request leads.\<close>

theorem one_leader_per_key:
  assumes "fill_reach s"
  shows "((i, key, c) \<in> fs_leaders s \<and> (j, key, d) \<in> fs_leaders s \<longrightarrow> i = j \<and> c = d) \<and>
    ((i, key, c) \<in> fs_waiters s \<longrightarrow> c \<in> fg_done (fs_group s) \<or> (\<exists>j. (j, key, c) \<in> fs_leaders s)) \<and>
    ((i, key, c) \<in> fs_leaders s \<longrightarrow> c \<notin> fg_done (fs_group s) \<and>
       (let g = fill_finish key c (fs_group s) in c \<in> fg_done g \<and> snd (fst (fill_begin key g)) \<and> fill_finish key c g = g))"
proof -
  note inv = fill_reach_inv [OF assms]
  have lead: "fg_calls (fs_group s) key = Some c \<and> c \<notin> fg_done (fs_group s)" if "(i, key, c) \<in> fs_leaders s" for i c
    using that inv unfolding fill_inv_def by blast
  have "i = j \<and> c = d" if "(i, key, c) \<in> fs_leaders s" "(j, key, d) \<in> fs_leaders s"
    using inv lead [OF that(1)] lead [OF that(2)] that unfolding fill_inv_def by auto
  moreover have "c \<in> fg_done (fs_group s) \<or> (\<exists>j. (j, key, c) \<in> fs_leaders s)" if "(i, key, c) \<in> fs_waiters s"
    using that inv unfolding fill_inv_def by blast
  ultimately show ?thesis using lead [of i c] by (auto simp: fill_finish_def fill_begin_def Let_def)
qed

theorem one_leader_per_key_witness:
  "\<exists>s. fill_reach s \<and> (0, ''k'', 0) \<in> fs_leaders s \<and> (1, ''k'', 0) \<in> fs_waiters s \<and> 0 \<notin> fg_done (fs_group s)"
proof -
  let ?g = "\<lparr>fg_calls = [''k'' \<mapsto> 0], fg_fresh = 1, fg_done = {}\<rparr>"
  let ?a = "\<lparr>fs_group = ?g, fs_leaders = {(0, ''k'', 0)}, fs_waiters = {}\<rparr>"
  let ?b = "\<lparr>fs_group = ?g, fs_leaders = {(0, ''k'', 0)}, fs_waiters = {(1, ''k'', 0)}\<rparr>"
  have a: "fill_reach ?a"
    using fill_reach.step [OF fill_reach.start fill_step.leads [of 0 _ "''k''" 0 ?g]] by (simp add: busy_def fill_begin_def)
  have b: "fill_reach ?b"
    using fill_reach.step [OF a fill_step.joins [of 1 _ "''k''" 0 ?g]] by (simp add: busy_def fill_begin_def)
  show ?thesis using b one_leader_per_key [OF b, of 0 "''k''" 0] by (intro exI [of _ ?b]) simp
qed

section \<open>A leader always completes its call\<close>

text \<open>The completions of a trace, and what has been handed to the store.\<close>

definition finishes_of :: "fill_event list \<Rightarrow> nat list" where
  "finishes_of evs = concat (map (\<lambda>ev. case ev of FillFinish c \<Rightarrow> [c] | _ \<Rightarrow> []) evs)"

lemma finishes_of_append [simp]: "finishes_of (xs @ ys) = finishes_of xs @ finishes_of ys"
  by (simp add: finishes_of_def)

lemma finishes_of_Cons [simp]: "finishes_of (ev # xs) = (case ev of FillFinish c \<Rightarrow> [c] | _ \<Rightarrow> []) @ finishes_of xs"
  by (simp add: finishes_of_def)

lemma finishes_of_done [simp]: "finishes_of (done_events res) = []" "finishes_of (read_error e) = []" "finishes_of [] = []"
  by (auto simp: done_events_def read_error_def finishes_of_def split: option.splits)

text \<open>The Put comes before the end of the lease and of the call.\<close>

definition stored_before_end :: "nat \<Rightarrow> serve_result \<Rightarrow> fill_event list \<Rightarrow> bool" where
  "stored_before_end call res evs \<longleftrightarrow> (\<forall>k req. sr_Put res = Some (k, req) \<longrightarrow>
     (\<exists>pre post. evs = pre @ FillPut k req # post \<and> finishes_of pre = [] \<and> FillRelease \<notin> set pre \<and> finishes_of post = [call]))"

lemma fill_upstream_trace:
  assumes "fill_upstream lib p f env cd completion = Some (res, evs, cd')"
  shows "evs = done_events res @ completion"
  using assms by (auto simp: fill_upstream_def split: prod.splits)

lemma done_events_put: "sr_Put res = Some (k, req) \<Longrightarrow> done_events res = map FillMetric (sr_Metrics res) @ [FillPut k req]"
  by (simp add: done_events_def)

lemma stored_upstream:
  assumes "finishes_of completion = [call]" and "finishes_of pre = []" and "FillRelease \<notin> set pre"
  shows "stored_before_end call res (pre @ done_events res @ completion)"
  unfolding stored_before_end_def
proof (intro allI impI)
  fix k req assume "sr_Put res = Some (k, req)"
  then show "\<exists>a b. pre @ done_events res @ completion = a @ FillPut k req # b \<and> finishes_of a = [] \<and> FillRelease \<notin> set a \<and> finishes_of b = [call]"
    using assms by (intro exI [of _ "pre @ map FillMetric (sr_Metrics res)"] exI [of _ completion])
      (auto simp: done_events_put finishes_of_def)
qed

lemma from_cache_put: "from_cache lib p f ld = Inr res \<Longrightarrow> sr_Put res = None"
  by (auto simp: from_cache_def serveCached_def Let_def split: sum.splits prod.splits)

lemma leader_polls_complete:
  assumes "leader_polls lib p f call cd recorded polls = Some (res, evs, cd')"
  shows "finishes_of evs = [call] \<and> stored_before_end call res evs \<and>
    count_list evs FillRelease = count_list evs FillLeader"
  using assms
proof (induction lib p f call cd recorded polls arbitrary: res evs cd' rule: leader_polls.induct)
  case (2 lib p f call cd recorded po polls)
  let ?waiter = "if recorded then [] else [FillWaiter ''cluster'']"
  have counts: "count_list (done_events res) ev = 0" if "ev \<in> {FillRelease, FillLeader}" for ev
    using that by (auto simp: done_events_def count_list_0_iff split: option.splits)
  consider (lost) e where "po_acquire po = Inl e" | (lead) "po_acquire po = Inr True"
    | (gone) e where "po_acquire po = Inr False" "po_ctx po = Some e"
    | (hit) r where "po_acquire po = Inr False" "po_ctx po = None" "from_cache lib p f (po_load po) = Inr r"
    | (again) e where "po_acquire po = Inr False" "po_ctx po = None" "from_cache lib p f (po_load po) = Inl e"
    by (metis (full_types) sum.exhaust option.exhaust)
  then show ?case
  proof cases
    case lead
    then obtain evs' where u: "fill_upstream lib p f (po_serve po) cd [FillRelease, FillFinish call] = Some (res, evs', cd')"
      and evs: "evs = [FillLeader] @ evs'" using 2(2) by (auto simp: with_events_def split: prod.splits)
    show ?thesis
      using stored_upstream [of "[FillRelease, FillFinish call]" call "[FillLeader]" res] counts
      by (simp add: evs fill_upstream_trace [OF u])
  next
    case again
    then obtain evs' where u: "leader_polls lib p f call cd True polls = Some (res, evs', cd')"
      and evs: "evs = (?waiter @ read_error e) @ evs'" using 2(2) by (auto simp: with_events_def Let_def split: prod.splits)
    have ih: "finishes_of evs' = [call] \<and> stored_before_end call res evs' \<and> count_list evs' FillRelease = count_list evs' FillLeader"
      by (rule 2(1) [OF again(1) _ refl again(2,3) u]) simp
    have pre: "stored_before_end call res (pre @ evs')" if "finishes_of pre = []" "FillRelease \<notin> set pre" for pre
      unfolding stored_before_end_def
    proof (intro allI impI)
      fix k req assume "sr_Put res = Some (k, req)"
      then obtain a b where "evs' = a @ FillPut k req # b" "finishes_of a = []" "FillRelease \<notin> set a" "finishes_of b = [call]"
        using ih by (auto simp: stored_before_end_def)
      then show "\<exists>a b. pre @ evs' = a @ FillPut k req # b \<and> finishes_of a = [] \<and> FillRelease \<notin> set a \<and> finishes_of b = [call]"
        using that by (intro exI [of _ "pre @ a"] exI [of _ b]) simp
    qed
    have "stored_before_end call res evs" unfolding evs by (rule pre) (simp_all add: read_error_def)
    then show ?thesis using ih by (simp add: evs) (simp add: read_error_def)
  next
    case hit
    with 2(2) counts show ?thesis by (auto simp: stored_before_end_def from_cache_put)
  qed (use 2(2) in \<open>auto simp: stored_before_end_def serve_failed_def\<close>)
qed simp


section \<open>What a fill stores\<close>

definition put_matches :: "proxy_lib \<Rightarrow> Proxy \<Rightarrow> fill_request \<Rightarrow> serve_result \<Rightarrow> string \<Rightarrow> PutRequest \<Rightarrow> bool" where
  "put_matches lib p f res k req \<longleftrightarrow> k = fr_key f \<and> put_Size req = int (length (put_bytes req)) \<and>
     put_SHA256 req = pl_sha256 lib (put_bytes req) \<and> length (put_bytes req) \<le> nat (pc_MaxObjectSize (px_cache p)) \<and>
     rw_Body (sr_Writer res) = rw_Body (fr_writer f) @ put_bytes req \<and> sr_Err res = None"

lemma fill_upstream_put:
  assumes "fill_upstream lib p f env cd completion = Some (res, evs, cd')" and put: "sr_Put res = Some (k, req)"
  shows "put_matches lib p f res k req"
proof -
  let ?env = "env\<lparr>sv_client := fr_client f\<rparr>"
  obtain resp where sr: "serve_response lib p ?env (fr_writer f) (fr_route f) (fr_target f) (fr_key f) resp = Some res"
    using assms by (auto simp: fill_upstream_def serveUpstream_def Let_def split: sum.splits option.splits prod.splits)
  obtain npm resp' where pr: "prepare_response lib p ?env (fr_route f) (fr_target f) (fr_key f) resp = (npm, resp')" by (metis surj_pair)
  note sp = serve_response_put [OF sr put pr]
  let ?w = "(fr_writer f)\<lparr>rw_Header := copyResponseHeaders (rw_Header (fr_writer f)) (resp_Header resp')\<rparr>"
  have "res = serveAndStore lib p ?env ?w resp' (fr_key f) (sv_receivedAt ?env) (fst npm)"
    using sr sp(2-4,6) pr by (cases npm) (simp add: serve_response_def Let_def IsZero_def)
  with serveAndStore_put [of lib p ?env ?w resp' "fr_key f" "sv_receivedAt ?env" "fst npm" k req] put sp
  show ?thesis by (simp add: put_matches_def)
qed

lemma leader_polls_put:
  assumes "leader_polls lib p f call cd recorded polls = Some (res, evs, cd')" and "sr_Put res = Some (k, req)"
  shows "put_matches lib p f res k req"
  using assms
proof (induction lib p f call cd recorded polls arbitrary: evs rule: leader_polls.induct)
  case (2 lib p f call cd recorded po polls)
  then show ?case
    by (auto simp: with_events_def serve_failed_def Let_def from_cache_put
        split: sum.splits option.splits bool.splits prod.splits dest: fill_upstream_put)
qed simp

lemma serveCacheMiss_put:
  assumes "serveCacheMiss lib p coord f cd rounds = Some (res, evs, cd')" and "sr_Put res = Some (k, req)"
  shows "put_matches lib p f res k req"
  using assms
proof (induction lib p coord f cd rounds arbitrary: evs rule: serveCacheMiss.induct)
  case (2 lib p coord f cd m rounds)
  then show ?case
    by (auto simp: with_events_def serve_failed_def serveLocalFillLeader_def from_cache_put
        split: sum.splits option.splits bool.splits prod.splits if_splits dest: fill_upstream_put leader_polls_put)
qed simp

lemma io_Copy_file:
  assumes "\<And>b d. client b d = None"
  shows "fst (io_Copy client w [(d, ReadEOF)]) = None"
proof (induction "length d" arbitrary: d w rule: less_induct)
  case less
  show ?case
  proof (cases "length d \<le> 32768")
    case True
    then show ?thesis using assms by (auto simp: io_Copy.simps [of _ w] client_write_def)
  next
    case False
    then have "length (drop 32768 d) < length d" "d \<noteq> []" by auto
    then show ?thesis using False assms less(1)
      by (simp add: io_Copy.simps [of _ w] client_write_def)
  qed
qed

lemma serveCached_delivers:
  assumes "\<And>b d. client b d = None" and "se_size staged = int (length (se_body staged))"
  shows "sr_Err (serveCached lib client w staged now) = None \<and>
    rw_Body (sr_Writer (serveCached lib client w staged now)) = rw_Body w @ se_body staged \<and>
    sr_Metrics (serveCached lib client w staged now) = [MHit] \<and> sr_Put (serveCached lib client w staged now) = None"
proof -
  define v where "v = WriteHeader 200 (w\<lparr>rw_Header := header_Set cacheHeader ''HIT'' (header_Set ''Content-Length'' (FormatInt (se_size staged))
    (copyResponseHeaders (rw_Header w) (agedHeaders lib (se_headers staged) (se_storedAt staged) now)))\<rparr>)"
  obtain u where c: "io_Copy client v [(se_body staged, ReadEOF)] = (None, u)"
    using io_Copy_file [of client v "se_body staged"] assms(1) by (metis prod.collapse)
  have "rw_Body u = rw_Body v @ se_body staged" using io_Copy_delivers [OF c] by auto
  moreover have "rw_Body v = rw_Body w" by (simp add: v_def WriteHeader_def)
  ultimately show ?thesis using c assms(2) by (simp add: serveCached_def Let_def v_def)
qed

lemma Serve_put:
  assumes "Serve lib p coord client w r route info ld env cd rounds = Some (res, evs, cd')" and "sr_Put res = Some (k, req)"
  shows "\<exists>target. cacheKey lib p r route info target = (k, []) \<and> put_Size req = int (length (put_bytes req)) \<and>
    put_SHA256 req = pl_sha256 lib (put_bytes req) \<and> length (put_bytes req) \<le> nat (pc_MaxObjectSize (px_cache p)) \<and>
    rw_Body (sr_Writer res) = rw_Body w @ put_bytes req \<and> sr_Err res = None"
proof -
  obtain t target where t: "upstreamURL (cl_url (pl_cache lib)) route info = Inr t"
    "withRequestQuery (cl_url (pl_cache lib)) t (pr_URL r) = Inr target"
    using assms by (auto simp: Serve_def Let_def serve_failed_def split: sum.splits)
  obtain key reason where key: "cacheKey lib p r route info target = (key, reason)" by (metis surj_pair)
  show ?thesis
  proof (cases "reason = []")
    case True
    let ?f = "\<lparr>fr_writer = w, fr_client = client, fr_request = r, fr_route = route, fr_target = target, fr_key = key\<rparr>"
    let ?g = "?f\<lparr>fr_writer := w\<lparr>rw_Header := header_Set cacheHeader ''MISS'' (rw_Header w)\<rparr>\<rparr>"
    have "from_cache lib p ?f ld \<noteq> Inr res" using from_cache_put assms(2) by fastforce
    then obtain evs' where "serveCacheMiss lib p coord ?g cd rounds = Some (res, evs', cd')"
      using assms(1) t key True by (auto simp: Serve_def with_events_def Let_def split: sum.splits prod.splits)
    from serveCacheMiss_put [OF this assms(2)] show ?thesis using key True by (auto simp: put_matches_def)
  next
    case False
    let ?env = "env\<lparr>sv_client := client\<rparr>" and ?w = "w\<lparr>rw_Header := header_Set cacheHeader ''BYPASS'' (rw_Header w)\<rparr>"
    obtain resp where "serve_response lib p ?env ?w route target [] resp = Some res"
      using assms t key False by (auto simp: Serve_def serveUpstream_def Let_def split: sum.splits option.splits prod.splits)
    from serve_response_put(2) [OF this assms(2)] have False by (metis surj_pair)
    then show ?thesis ..
  qed
qed

text \<open>C6: One download serves every later request. When a request has been answered with an
  artifact that the filesystem store accepted, then until the entry expires any request with the
  same cache key that meets no I/O error is answered from the cache: no request is sent upstream,
  and a connected client receives exactly the bytes the first one received.\<close>

theorem one_download_serves_all:
  assumes first: "Serve lib p coord client w r route info ld env cd rounds = Some (res, evs, cd')" and put: "sr_Put res = Some (k, req)"
    and inv: "fs_inv s" and store: "FileSystemStore_Put e k req s = (None, s')" and st: "storable req" and q: "fs_quiet e'"
    and lq: "load_quiet (lr_env ld')" and max: "0 \<le> pc_MaxObjectSize (px_cache p)"
    and got: "lr_got ld' = FileSystemStore_Get e' now k s'"
    and time: "now < put_ExpiresAt req" "le_now (lr_env ld') < put_ExpiresAt req" "le_later (lr_env ld') < put_ExpiresAt req"
    and url: "upstreamURL (cl_url (pl_cache lib)) route' info' = Inr t" "withRequestQuery (cl_url (pl_cache lib)) t (pr_URL r') = Inr target"
    and key: "cacheKey lib p r' route' info' target = (k, [])" and client: "\<And>b d. client' b d = None"
  shows "\<exists>res'. Serve lib p coord client' w' r' route' info' ld' env' cd'' rounds' = Some (res', [FillMetric MHit], cd'') \<and>
    sr_Err res' = None \<and> rw_Body (sr_Writer res) = rw_Body w @ put_bytes req \<and> rw_Body (sr_Writer res') = rw_Body w' @ put_bytes req"
proof -
  have sp: "put_Size req = int (length (put_bytes req))" "put_SHA256 req = pl_sha256 lib (put_bytes req)"
    "length (put_bytes req) \<le> nat (pc_MaxObjectSize (px_cache p))" "rw_Body (sr_Writer res) = rw_Body w @ put_bytes req"
    using Serve_put [OF first put] by blast+
  obtain staged where l: "loadCached lib p (lr_env ld') (FileSystemStore_Get e' now k s') = Inr staged"
    and staged: "se_body staged = put_bytes req" "se_size staged = int (length (se_body staged))"
    using load_after_put [OF inv store st q sp(1-3) lq max time] by blast
  let ?res = "serveCached (cl_http (pl_cache lib)) client' w' staged (lr_now ld')"
  note sc = serveCached_delivers [of client' staged "cl_http (pl_cache lib)" w' "lr_now ld'", OF client staged(2)]
  have "Serve lib p coord client' w' r' route' info' ld' env' cd'' rounds' = Some (?res, [FillMetric MHit], cd'')"
    using url key l got sc by (simp add: Serve_def from_cache_def done_events_def)
  then show ?thesis using sc sp(4) staged by auto
qed

section \<open>Examples\<close>

definition example_fill :: "rw \<Rightarrow> fill_request" where
  "example_fill w = \<lparr>fr_writer = w, fr_client = (\<lambda>_ _. None), fr_request = example_get ''/m/x'', fr_route = open_route,
     fr_target = ''https://registry.npmjs.org/x'', fr_key = example_key\<rparr>"

definition no_coordinator :: proxy_CoordinationConfig where
  "no_coordinator = \<lparr>cc_Coordinator = False, cc_LeaseDuration = 0, cc_PollInterval = 0\<rparr>"

definition example_load_round :: "store_error + Entry \<Rightarrow> load_round" where
  "example_load_round got = \<lparr>lr_env = example_load_env, lr_got = got, lr_now = 22\<rparr>"

definition example_round :: miss_round where
  "example_round = \<lparr>mr_group = \<lparr>fg_calls = Map.empty, fg_fresh = 0, fg_done = {}\<rparr>, mr_serve = example_serve_env, mr_polls = [],
     mr_ctx = None, mr_load = example_load_round (Inl ErrNotFound)\<rparr>"

lemma example_leader:
  "\<exists>res evs. serveLocalFillLeader example_proxy_lib example_proxy no_coordinator (example_fill w) call [] example_serve_env [] =
     Some (res, evs, []) \<and> sr_Put res = Some (example_key, example_stored)"
proof -
  have env: "example_serve_env\<lparr>sv_client := \<lambda>_ _. None\<rparr> = example_serve_env" by (simp add: example_serve_env_def)
  show ?thesis using example_served [of w "''/m/x''"]
    by (auto simp: serveLocalFillLeader_def no_coordinator_def fill_upstream_def example_fill_def with_events_def env)
qed


lemma example_upstreamURL:
  "upstreamURL (cl_url (pl_cache example_proxy_lib)) open_route example_info = Inr ''https://registry.npmjs.org/x''"
  "withRequestQuery (cl_url (pl_cache example_proxy_lib)) ''https://registry.npmjs.org/x'' (pr_URL (example_get path)) = Inr ''https://registry.npmjs.org/x''"
proof -
  have "safeUpstreamPath ''/x'' = Inr ''/x''"
    by (simp add: safeUpstreamPath_def ContainsAny_iff go_eval)
  then show "upstreamURL (cl_url (pl_cache example_proxy_lib)) open_route example_info = Inr ''https://registry.npmjs.org/x''"
    by (simp add: upstreamURL_def example_fields example_info_def) (simp add: example_cache_lib_def)
  show "withRequestQuery (cl_url (pl_cache example_proxy_lib)) ''https://registry.npmjs.org/x'' (pr_URL (example_get path)) = Inr ''https://registry.npmjs.org/x''"
    by (simp add: withRequestQuery_def example_get_def host_url_def)
qed

lemma example_cacheKey_example: "cacheKey example_proxy_lib example_proxy (example_get path) open_route example_info t = (example_key, [])"
  by (simp add: example_cacheKey Key_def) (simp add: example_proxy_lib_def)

lemma example_first:
  "\<exists>res evs. Serve example_proxy_lib example_proxy no_coordinator (\<lambda>_ _. None) empty_rw (example_get ''/m/x'') open_route example_info
     (example_load_round (Inl ErrNotFound)) example_serve_env [] [example_round] = Some (res, evs, []) \<and> sr_Put res = Some (example_key, example_stored)"
proof -
  let ?w = "empty_rw\<lparr>rw_Header := header_Set cacheHeader ''MISS'' (rw_Header empty_rw)\<rparr>"
  obtain res evs where l: "serveLocalFillLeader example_proxy_lib example_proxy no_coordinator (example_fill ?w) 0 [] example_serve_env [] =
     Some (res, evs, [])" and p: "sr_Put res = Some (example_key, example_stored)" using example_leader by blast
  have "serveCacheMiss example_proxy_lib example_proxy no_coordinator (example_fill ?w) [] [example_round] = Some (res, evs, [])"
    using l by (simp add: example_round_def fill_begin_def)
  moreover have "from_cache example_proxy_lib example_proxy f (example_load_round (Inl ErrNotFound)) = Inl ErrNotFound" for f
    by (simp add: from_cache_def loadCached_def example_load_round_def)
  ultimately show ?thesis using p
    by (simp add: Serve_def example_upstreamURL example_cacheKey_example with_events_def example_fill_def Let_def)
qed

theorem one_download_serves_all_witness:
  "\<exists>s' res'. FileSystemStore_Put example_env example_key example_stored example_disk = (None, s') \<and>
     Serve example_proxy_lib example_proxy no_coordinator (\<lambda>_ _. None) empty_rw (example_get ''/m//x'') open_route example_info
       (example_load_round (FileSystemStore_Get example_env 15 example_key s')) example_serve_env [] [] = Some (res', [FillMetric MHit], []) \<and>
     rw_Body (sr_Writer res') = ''abc''"
proof -
  obtain s' where put: "FileSystemStore_Put example_env example_key example_stored example_disk = (None, s')"
    using example_disk_put by blast
  obtain res evs where f: "Serve example_proxy_lib example_proxy no_coordinator (\<lambda>_ _. None) empty_rw (example_get ''/m/x'') open_route
     example_info (example_load_round (Inl ErrNotFound)) example_serve_env [] [example_round] = Some (res, evs, [])"
    and p: "sr_Put res = Some (example_key, example_stored)" using example_first by blast
  have "put_bytes example_stored = ''abc''" by (simp add: put_bytes_def example_stored_def)
  moreover have "\<exists>res'. Serve example_proxy_lib example_proxy no_coordinator (\<lambda>_ _. None) empty_rw (example_get ''/m//x'') open_route example_info
       (example_load_round (FileSystemStore_Get example_env 15 example_key s')) example_serve_env [] [] = Some (res', [FillMetric MHit], []) \<and>
     sr_Err res' = None \<and> rw_Body (sr_Writer res) = rw_Body empty_rw @ put_bytes example_stored \<and>
     rw_Body (sr_Writer res') = rw_Body empty_rw @ put_bytes example_stored"
    by (rule one_download_serves_all [OF f p example_disk_inv put example_stored_ok(1) example_quiet _ _ _ _ _ _
        example_upstreamURL(1) example_upstreamURL(2) example_cacheKey_example, where now = 15])
      (use example_stored_ok(2) in \<open>simp_all add: example_load_round_def example_fields example_stored_def example_load_env_def\<close>)
  ultimately show ?thesis using put by (auto simp: empty_rw_def)
qed

end
