(* ===== verification/Release.thy ===== *)
theory Release
  imports Headers Intel
begin

text \<open>
  internal/release/release.go: when a version was published, for the release cooldown. The HTTP
  client, the tokenizer and decoder of encoding/json and the parsing of times are the record
  \<open>rel_lib\<close>; a token stream that ends early stands for an error of the tokenizer. The npm packument is
  read token by token; the lemmas show that this finds the top-level time object and nothing
  else, and that a lookup gives a real time or an error for every ecosystem that has one.
\<close>

section \<open>JSON tokens\<close>

datatype jtok = TObjOpen | TObjClose | TArrOpen | TArrClose | TStr string | TNum string | TBool bool | TNull

definition maxNPMPackumentBytes :: nat where "maxNPMPackumentBytes = 268435456"
definition maxPyPIIndexBytes :: nat where "maxPyPIIndexBytes = 67108864"
definition maxGoInfoBytes :: nat where "maxGoInfoBytes = 65536"
definition cacheEntries :: int where "cacheEntries = 16384"
definition cacheTTL :: duration where "cacheTTL = 24 * nsHour"

fun skipValue :: "int \<Rightarrow> jtok list \<Rightarrow> string + jtok list" where
  "skipValue depth [] = Inl ''unexpected EOF''"
| "skipValue depth (tok # toks) =
     (let depth = (if tok = TObjOpen \<or> tok = TArrOpen then depth + 1
                   else if tok = TObjClose \<or> tok = TArrClose then depth - 1 else depth) in
      if depth = 0 then Inr toks else skipValue depth toks)"

lemma skipValue_shorter: "skipValue depth toks = Inr rest \<Longrightarrow> length rest < length toks"
  by (induction depth toks arbitrary: rest rule: skipValue.induct) (fastforce simp: Let_def split: if_splits)+

text \<open>Decode into a map[string]string.\<close>

fun decode_members :: "jtok list \<Rightarrow> (string \<rightharpoonup> string) \<Rightarrow> string + (string \<rightharpoonup> string)" where
  "decode_members (TObjClose # toks) tm = Inr tm"
| "decode_members (TStr k # TStr v # toks) tm = decode_members toks (tm(k \<mapsto> v))"
| "decode_members (TStr k # TNull # toks) tm = decode_members toks (tm(k \<mapsto> []))"
| "decode_members toks tm = Inl ''cannot unmarshal''"

fun decode_times :: "jtok list \<Rightarrow> string + (string \<rightharpoonup> string)" where
  "decode_times (TNull # toks) = Inr Map.empty"
| "decode_times (TObjOpen # toks) = decode_members toks Map.empty"
| "decode_times toks = Inl ''cannot unmarshal''"

function npm_fields :: "jtok list \<Rightarrow> string + (string \<rightharpoonup> string)" where
  "npm_fields [] = Inl ''no time field''"
| "npm_fields (tok # toks) =
     (if tok = TObjClose \<or> tok = TArrClose then Inl ''no time field''
      else if tok = TStr ''time'' then decode_times toks
      else case skipValue 0 toks of Inl e \<Rightarrow> Inl e | Inr rest \<Rightarrow> npm_fields rest)"
  by pat_completeness auto
termination
  by (relation "measure length") (auto dest: skipValue_shorter)

definition npmTimes :: "jtok list \<Rightarrow> string + (string \<rightharpoonup> string)" where
  "npmTimes toks =
     (case toks of
        [] \<Rightarrow> Inl ''EOF''
      | tok # toks \<Rightarrow> if tok \<noteq> TObjOpen then Inl ''expected {'' else npm_fields toks)"

section \<open>Paths\<close>

definition escape_free :: "char \<Rightarrow> bool" where
  "escape_free c \<longleftrightarrow> c \<in> set (lower_letters @ upper_letters @ decimal_digits @ ''-_.~$&+=:@'')"

definition upper_hex :: string where "upper_hex = ''0123456789ABCDEF''"

definition url_PathEscape :: "string \<Rightarrow> string" where
  "url_PathEscape s = concat (map (\<lambda>c. if escape_free c then [c]
     else [CHR ''%'', upper_hex ! (byte c div 16), upper_hex ! (byte c mod 16)]) s)"

definition path_Base :: "string \<Rightarrow> string" where
  "path_Base p =
     (if p = [] then ''.''
      else let s = TrimRight p ''/''; b = rev (takeWhile (\<lambda>c. c \<noteq> CHR ''/'') (rev s)) in if b = [] then ''/'' else b)"

definition path_Ext :: "string \<Rightarrow> string" where
  "path_Ext p =
     (let e = rev (takeWhile (\<lambda>c. c \<noteq> CHR ''/'') (rev p)) in
      case LastIndexByte e CHR ''.'' of None \<Rightarrow> [] | Some i \<Rightarrow> drop i e)"

section \<open>Requests to the registry\<close>

record rel_lib =
  rl_NewRequest :: "string \<Rightarrow> string option"
  rl_Do :: "string \<Rightarrow> string \<Rightarrow> header \<Rightarrow> string + http_answer \<times> header"
  rl_tokens :: "string \<Rightarrow> string option \<Rightarrow> jtok list"
  rl_index :: "string \<Rightarrow> string + (string \<times> string) list"
  rl_info :: "string \<Rightarrow> string + time"
  rl_ParseRFC3339 :: "string \<Rightarrow> string + time"
  rl_http :: http_lib

definition registry_get :: "rel_lib \<Rightarrow> environ \<Rightarrow> Route \<Rightarrow> string \<Rightarrow> string \<Rightarrow> string \<Rightarrow> string \<Rightarrow> string + http_answer \<times> header" where
  "registry_get lib env route method base rel accept =
     (let target = TrimSuffix base ''/'' @ ''/'' @ TrimPrefix rel ''/'' in
      case rl_NewRequest lib target of
        Some e \<Rightarrow> Inl e
      | None \<Rightarrow>
          let token = Getenv env (route_UpstreamTokenEnv route);
              h = header_Set ''Accept'' accept [];
              h = (if route_UpstreamTokenEnv route \<noteq> [] \<and> token \<noteq> [] then header_Set ''Authorization'' (''Bearer '' @ token) h else h)
          in (case rl_Do lib method target h of
                Inl e \<Rightarrow> Inl e
              | Inr (a, rh) \<Rightarrow>
                  if ans_Status a \<noteq> 200 then Inl (method @ '' '' @ target @ '' returned '' @ FormatInt (ans_Status a)) else Inr (a, rh)))"

definition decodeLimited :: "(string \<Rightarrow> string + 'v) \<Rightarrow> http_answer \<Rightarrow> nat \<Rightarrow> string + 'v" where
  "decodeLimited unmarshal body maximum =
     (case ReadAll_limited (maximum + 1) body of
        Inl e \<Rightarrow> Inl e
      | Inr raw \<Rightarrow> if length raw > maximum then Inl ''response exceeds limit'' else unmarshal raw)"

definition release_npm :: "rel_lib \<Rightarrow> environ \<Rightarrow> Route \<Rightarrow> string \<Rightarrow> string \<Rightarrow> string + time" where
  "release_npm lib env route name version =
     (case registry_get lib env route ''GET'' (route_UpstreamURL route) (url_PathEscape name) ''application/json'' of
        Inl e \<Rightarrow> Inl e
      | Inr (a, _) \<Rightarrow>
          (case npmTimes (rl_tokens lib (take maxNPMPackumentBytes (ans_Body a))
                  (if length (ans_Body a) < maxNPMPackumentBytes then ans_BodyErr a else None)) of
             Inl e \<Rightarrow> Inl (''npm packument '' @ name @ '': '' @ e)
           | Inr published \<Rightarrow>
               (case published version of
                  None \<Rightarrow> Inl (''npm packument '' @ name @ '' has no time for '' @ version)
                | Some raw \<Rightarrow> rl_ParseRFC3339 lib raw)))"

fun find_upload :: "rel_lib \<Rightarrow> string \<Rightarrow> string \<Rightarrow> (string \<times> string) list \<Rightarrow> string + time" where
  "find_upload lib name filename [] = Inl (''pypi index '' @ name @ '' does not list '' @ filename)"
| "find_upload lib name filename ((fname, upload) # files) =
     (if fname = filename then
        (if upload = [] then Inl (''pypi index '' @ name @ '' has no upload-time for '' @ filename) else rl_ParseRFC3339 lib upload)
      else find_upload lib name filename files)"

definition release_pypi :: "rel_lib \<Rightarrow> environ \<Rightarrow> Route \<Rightarrow> string \<Rightarrow> string \<Rightarrow> string + time" where
  "release_pypi lib env route name filename =
     (case registry_get lib env route ''GET'' (route_UpstreamURL route) (''simple/'' @ url_PathEscape name @ ''/'') ''application/vnd.pypi.simple.v1+json'' of
        Inl e \<Rightarrow> Inl e
      | Inr (a, _) \<Rightarrow>
          (case decodeLimited (rl_index lib) a maxPyPIIndexBytes of
             Inl e \<Rightarrow> Inl (''pypi index '' @ name @ '': '' @ e)
           | Inr files \<Rightarrow>
               let filename = (case PathUnescape filename of Some f \<Rightarrow> f | None \<Rightarrow> []) in find_upload lib name filename files))"

definition release_golang :: "rel_lib \<Rightarrow> environ \<Rightarrow> Route \<Rightarrow> string \<Rightarrow> string + time" where
  "release_golang lib env route upstreamPath =
     (let ext = path_Ext upstreamPath in
      if ext \<noteq> ''.info'' \<and> ext \<noteq> ''.mod'' \<and> ext \<noteq> ''.zip'' then Inl (''go path '' @ upstreamPath @ '' is not a module version file'')
      else case registry_get lib env route ''GET'' (route_UpstreamURL route) (TrimSuffix upstreamPath ext @ ''.info'') ''application/json'' of
        Inl e \<Rightarrow> Inl e
      | Inr (a, _) \<Rightarrow>
          (case decodeLimited (rl_info lib) a maxGoInfoBytes of
             Inl e \<Rightarrow> Inl (''go info '' @ upstreamPath @ '': '' @ e)
           | Inr t \<Rightarrow> Inr t))"

definition release_maven :: "rel_lib \<Rightarrow> environ \<Rightarrow> Route \<Rightarrow> string \<Rightarrow> string + time" where
  "release_maven lib env route upstreamPath =
     (case registry_get lib env route ''HEAD'' (route_UpstreamURL route) upstreamPath ''*/*'' of
        Inl e \<Rightarrow> Inl e
      | Inr (_, h) \<Rightarrow>
          let modified = header_Get h ''Last-Modified'' in
          if modified = [] then Inl (''maven artifact '' @ upstreamPath @ '' has no Last-Modified'')
          else case hl_ParseTime (rl_http lib) modified of None \<Rightarrow> Inl ''parse time'' | Some t \<Rightarrow> Inr t)"

section \<open>The resolver\<close>

record Resolver =
  rs_cache :: "time Cache"

definition NewResolver :: Resolver where
  "NewResolver = \<lparr>rs_cache = NewWithMaxEntries cacheEntries\<rparr>"

definition release_key :: "Route \<Rightarrow> RequestInfo \<Rightarrow> string" where
  "release_key route info = route_Name route @ ''|'' @ pkg_PURL (ri_Package info) @ ''|'' @ ri_UpstreamPath info"

definition release_lookup :: "rel_lib \<Rightarrow> environ \<Rightarrow> Route \<Rightarrow> RequestInfo \<Rightarrow> (string + time) option" where
  "release_lookup lib env route info =
     (let pkg = ri_Package info; eco = route_Ecosystem route in
      if eco = ''npm'' then Some (release_npm lib env route (pkg_Name pkg) (pkg_Version pkg))
      else if eco = ''pypi'' then Some (release_pypi lib env route (pkg_Name pkg) (path_Base (ri_UpstreamPath info)))
      else if eco = ''go'' then Some (release_golang lib env route (ri_UpstreamPath info))
      else if eco = ''maven'' then Some (release_maven lib env route (ri_UpstreamPath info))
      else None)"

definition PublishedAt :: "rel_lib \<Rightarrow> environ \<Rightarrow> time \<Rightarrow> time \<Rightarrow> Route \<Rightarrow> RequestInfo \<Rightarrow> Resolver \<Rightarrow> (string + time) \<times> Resolver" where
  "PublishedAt lib env now now' route info r =
     (let pkg = ri_Package info in
      if pkg_Name pkg = [] \<or> pkg_Version pkg = [] then (Inl ''package version is not identified'', r)
      else
        let key = release_key route info;
            (cached, c) = Cache_Get now key (rs_cache r);
            r = r\<lparr>rs_cache := c\<rparr>
        in case cached of
          Some published \<Rightarrow> (Inr published, r)
        | None \<Rightarrow>
            (case release_lookup lib env route info of
               None \<Rightarrow> (Inr 0, r)
             | Some (Inl e) \<Rightarrow> (Inl e, r)
             | Some (Inr published) \<Rightarrow>
                 if IsZero published then (Inl (pkg_PURL pkg @ '' has no publish time''), r)
                 else (Inr published, r\<lparr>rs_cache := Cache_Set now' key published cacheTTL (rs_cache r)\<rparr>)))"

section \<open>Reading a packument\<close>

datatype json = JNull | JBool bool | JNum string | JStr string | JArr "json list" | JObj "(string \<times> json) list"

text \<open>The tokens of a document.\<close>

fun jtokens :: "json \<Rightarrow> jtok list" where
  "jtokens JNull = [TNull]"
| "jtokens (JBool b) = [TBool b]"
| "jtokens (JNum n) = [TNum n]"
| "jtokens (JStr s) = [TStr s]"
| "jtokens (JArr vs) = TArrOpen # concat (map jtokens vs) @ [TArrClose]"
| "jtokens (JObj ms) = TObjOpen # concat (map (\<lambda>(k, v). TStr k # jtokens v) ms) @ [TObjClose]"

definition members :: "(string \<times> json) list \<Rightarrow> jtok list" where
  "members ms = concat (map (\<lambda>(k, v). TStr k # jtokens v) ms)"

lemma jtokens_JObj: "jtokens (JObj ms) = TObjOpen # members ms @ [TObjClose]"
  by (simp add: members_def)

declare jtokens.simps(6) [simp del] jtokens_JObj [simp]

lemma members_Cons: "members ((k, v) # ms) = TStr k # jtokens v @ members ms"
  by (simp add: members_def)

lemma skip_inside: "d > 0 \<Longrightarrow> skipValue d (jtokens v @ rest) = skipValue d rest"
proof (induction v arbitrary: d rest)
  case (JArr vs)
  have "skipValue e (concat (map jtokens us) @ rest') = skipValue e rest'" if "e > 0" "set us \<subseteq> set vs" for e us rest'
    using that by (induction us) (auto simp: JArr.IH)
  from this [of "d + 1" vs "TArrClose # rest"] JArr.prems show ?case by (simp add: Let_def)
next
  case (JObj ms)
  have "skipValue e (members us @ rest') = skipValue e rest'" if "e > 0" "set us \<subseteq> set ms" for e us rest'
    using that
  proof (induction us)
    case (Cons u us)
    obtain k v where u: "u = (k, v)" by (cases u)
    then have "skipValue e (jtokens v @ members us @ rest') = skipValue e (members us @ rest')"
      using Cons.prems JObj.IH [of u v] by (auto simp: snds.simps)
    then show ?case using Cons u by (simp add: members_Cons Let_def)
  qed (simp add: members_def)
  from this [of "d + 1" ms "TObjClose # rest"] JObj.prems show ?case by (simp add: Let_def)
qed (auto simp: Let_def)

lemma skip_value: "skipValue 0 (jtokens v @ rest) = Inr rest"
proof (cases v)
  case (JArr vs)
  have "skipValue 1 (concat (map jtokens us) @ rest') = skipValue 1 rest'" for us rest'
    by (induction us) (auto simp: skip_inside)
  then show ?thesis using JArr by (simp add: Let_def)
next
  case (JObj ms)
  have "skipValue 1 (members us @ rest') = skipValue 1 rest'" for us rest'
    by (induction us) (auto simp: members_def skip_inside Let_def)
  then show ?thesis using JObj by (simp add: Let_def)
qed (auto simp: Let_def)

text \<open>What the document says the times are.\<close>

definition text_of :: "json \<Rightarrow> string option" where
  "text_of v = (case v of JStr s \<Rightarrow> Some s | JNull \<Rightarrow> Some [] | _ \<Rightarrow> None)"

definition string_map :: "json \<Rightarrow> string + (string \<rightharpoonup> string)" where
  "string_map v =
     (case v of
        JNull \<Rightarrow> Inr Map.empty
      | JObj ps \<Rightarrow>
          if list_all (\<lambda>(k, u). text_of u \<noteq> None) ps
          then Inr (map_of (rev (map (\<lambda>(k, u). (k, the (text_of u))) ps)))
          else Inl ''cannot unmarshal''
      | _ \<Rightarrow> Inl ''cannot unmarshal'')"

lemma decode_members_spec:
  "decode_members (members ps @ TObjClose # rest) m =
     (if list_all (\<lambda>(k, u). text_of u \<noteq> None) ps
      then Inr (m ++ map_of (rev (map (\<lambda>(k, u). (k, the (text_of u))) ps))) else Inl ''cannot unmarshal'')"
proof (induction ps arbitrary: m)
  case Nil
  then show ?case by (simp add: members_def)
next
  case (Cons p ps)
  obtain k v where p: "p = (k, v)" by (cases p)
  show ?case using Cons by (cases v) (auto simp: p members_Cons text_of_def map_add_def fun_eq_iff split: option.splits)
qed

lemma decode_times_spec: "decode_times (jtokens v @ rest) = string_map v"
  using decode_members_spec [of _ rest Map.empty] by (cases v) (auto simp: string_map_def)

lemma npm_fields_spec:
  "npm_fields (members ms @ TObjClose # rest) = (case map_of ms ''time'' of None \<Rightarrow> Inl ''no time field'' | Some v \<Rightarrow> string_map v)"
proof (induction ms)
  case (Cons p ms)
  obtain k v where p: "p = (k, v)" by (cases p)
  show ?case
  proof (cases "k = ''time''")
    case True
    then show ?thesis using decode_times_spec [of v "members ms @ TObjClose # rest"] by (simp add: p members_Cons)
  next
    case False
    then show ?thesis using Cons skip_value [of v "members ms @ TObjClose # rest"] by (simp add: p members_Cons)
  qed
qed (simp add: members_def)


section \<open>What the resolver guarantees\<close>

lemma hex_roundtrip: "n < 16 \<Longrightarrow> unhex (upper_hex ! n) = Some n"
proof -
  assume n: "n < 16"
  have "list_all (\<lambda>n. unhex (upper_hex ! n) = Some n) [0..<16]" by code_simp
  with n show ?thesis by (simp add: list_all_iff)
qed

lemma PathEscape_roundtrip: "PathUnescape (url_PathEscape s) = Some s"
proof (induction s)
  case (Cons c s)
  have "escape_free c \<Longrightarrow> c \<noteq> CHR ''%''" by (auto simp: escape_free_def go_eval)
  moreover have "unhex (upper_hex ! (byte c div 16)) = Some (byte c div 16)" "unhex (upper_hex ! (byte c mod 16)) = Some (byte c mod 16)"
    by (rule hex_roundtrip; simp add: less_mult_imp_div_less)+
  ultimately show ?case using Cons by (simp add: url_PathEscape_def mult.commute [of 16])
qed (simp add: url_PathEscape_def)

definition resolver_inv :: "Resolver \<Rightarrow> bool" where
  "resolver_inv r \<longleftrightarrow> cache_inv (rs_cache r) \<and> (\<forall>k e. cache_lookup (rs_cache r) k \<noteq> Some (0, e))"

lemma resolver_inv_New: "resolver_inv NewResolver"
  by (simp add: resolver_inv_def NewResolver_def cache_inv_New) (simp add: cache_lookup_def NewWithMaxEntries_def)

lemma resolver_inv_Get:
  assumes "resolver_inv r"
  shows "resolver_inv (r\<lparr>rs_cache := snd (Cache_Get now k (rs_cache r))\<rparr>)"
  using assms go_cache.get_lookup [of "rs_cache r" now k] go_cache.invar_get [of "rs_cache r" now k]
  by (auto simp: resolver_inv_def split: if_splits)

lemma resolver_inv_Set:
  assumes "resolver_inv r" and "t \<noteq> 0"
  shows "resolver_inv (r\<lparr>rs_cache := Cache_Set now k t ttl (rs_cache r)\<rparr>)"
  unfolding resolver_inv_def
proof (intro conjI allI impI)
  have inv: "cache_inv (rs_cache r)" using assms(1) by (simp add: resolver_inv_def)
  then show "cache_inv (rs_cache (r\<lparr>rs_cache := Cache_Set now k t ttl (rs_cache r)\<rparr>))" by (simp add: go_cache.invar_put)
  fix k' e
  show "cache_lookup (rs_cache (r\<lparr>rs_cache := Cache_Set now k t ttl (rs_cache r)\<rparr>)) k' \<noteq> Some (0, e)"
    using assms go_cache.put_same [OF inv, of now k t ttl] go_cache.put_other [OF inv, of k' k now t ttl]
    by (cases "k' = k") (auto simp: resolver_inv_def)
qed

lemma PublishedAt_cases:
  assumes "resolver_inv r" and "PublishedAt lib env now now' route info r = (res, r')"
  shows "resolver_inv r' \<and> (\<forall>t. res = Inr t \<longrightarrow> t = 0 \<longrightarrow> release_lookup lib env route info = None)"
proof -
  obtain cached c where g: "Cache_Get now (release_key route info) (rs_cache r) = (cached, c)" by (metis surj_pair)
  have c: "resolver_inv (r\<lparr>rs_cache := c\<rparr>)" using resolver_inv_Get [OF assms(1), of now "release_key route info"] g by simp
  have live: "t \<noteq> 0" if "cached = Some t" for t
    using that g assms(1) go_cache.get_result [of "rs_cache r" now "release_key route info"]
    by (auto simp: resolver_inv_def live_def split: option.splits if_splits)
  have set: "resolver_inv (r\<lparr>rs_cache := Cache_Set now' (release_key route info) t cacheTTL c\<rparr>)" if "t \<noteq> 0" for t
    using resolver_inv_Set [OF c that, of now' "release_key route info" cacheTTL] by simp
  show ?thesis using assms g c live set
    by (auto simp: PublishedAt_def Let_def IsZero_def split: if_splits option.splits sum.splits)
qed

fun published_run :: "(rel_lib \<times> environ \<times> time \<times> time \<times> Route \<times> RequestInfo) list \<Rightarrow> Resolver \<Rightarrow> Resolver" where
  "published_run [] r = r"
| "published_run ((lib, env, now, now', route, info) # qs) r = published_run qs (snd (PublishedAt lib env now now' route info r))"

lemma resolver_inv_run: "resolver_inv r \<Longrightarrow> resolver_inv (published_run qs r)"
proof (induction qs r rule: published_run.induct)
  case (2 lib env now now' route info qs r)
  obtain res r' where p: "PublishedAt lib env now now' route info r = (res, r')" by (metis surj_pair)
  then have "resolver_inv r'" using PublishedAt_cases [OF 2(2) p] by blast
  then show ?case using 2(1) p by simp
qed simp

text \<open>No version passes for undated. For npm, PyPI, Go and Maven a lookup gives a time other than
  the zero time or an error, through any sequence of lookups, so the release cooldown is
  never skipped because a date is missing; only ecosystems without dates give the zero time.\<close>

theorem published_never_zero:
  assumes "PublishedAt lib env now now' route info (published_run qs NewResolver) = (Inr t, r')"
    and "route_Ecosystem route \<in> {''npm'', ''pypi'', ''go'', ''maven''}"
  shows "t \<noteq> 0"
proof -
  have "release_lookup lib env route info \<noteq> None" using assms(2) by (auto simp: release_lookup_def Let_def)
  with PublishedAt_cases [OF resolver_inv_run [OF resolver_inv_New] assms(1)] show ?thesis by auto
qed

lemma PublishedAt_fetched:
  assumes "PublishedAt lib env now now' route info r = (Inr t, r')" and "t \<noteq> 0"
    and "fst (Cache_Get now (release_key route info) (rs_cache r)) = None"
  shows "rs_cache r' = Cache_Set now' (release_key route info) t cacheTTL (snd (Cache_Get now (release_key route info) (rs_cache r)))"
    and "pkg_Name (ri_Package info) \<noteq> []" and "pkg_Version (ri_Package info) \<noteq> []"
  using assms by (auto simp: PublishedAt_def Let_def split: if_splits option.splits sum.splits prod.splits)

text \<open>A date that has been fetched is answered from the cache for a day, whatever the registry does.\<close>

lemma published_kept_a_day:
  assumes "PublishedAt lib env now now' route info r = (Inr t, r')" and "t \<noteq> 0" and "cache_inv (rs_cache r)"
    and "fst (Cache_Get now (release_key route info) (rs_cache r)) = None" and "now'' \<le> now' + cacheTTL" and "0 < now'"
  shows "fst (PublishedAt lib' env' now'' later route info r') = Inr t"
proof -
  note f = PublishedAt_fetched [OF assms(1,2,4)]
  have "fst (Cache_Get now'' (release_key route info) (rs_cache r')) = Some t"
    unfolding f(1) by (rule go_cache.get_put) (use assms in \<open>auto simp: go_cache.invar_get cacheTTL_def\<close>)
  then show ?thesis using f(2,3) by (auto simp: PublishedAt_def Let_def split: prod.splits)
qed

section \<open>Examples\<close>

definition example_rel_lib :: rel_lib where
  "example_rel_lib = \<lparr>rl_NewRequest = (\<lambda>_. None), rl_Do = (\<lambda>_ _ _. Inr (\<lparr>ans_Status = 200, ans_Body = [], ans_BodyErr = None\<rparr>, [])),
     rl_tokens = (\<lambda>_ _. jtokens (JObj [(''versions'', JObj [(''time'', JNum ''1'')]), (''time'', JObj [(''1.0.0'', JStr ''t'')])])),
     rl_index = (\<lambda>_. Inr []), rl_info = (\<lambda>_. Inr 0), rl_ParseRFC3339 = (\<lambda>_. Inr 42),
     rl_http = \<lparr>hl_ParseTime = (\<lambda>_. None), hl_FormatTime = (\<lambda>_. [])\<rparr>\<rparr>"

definition example_rel_route :: Route where
  "example_rel_route = \<lparr>route_Name = ''npm'', route_Ecosystem = ''npm'', route_PathPrefix = ''/npm/'', route_UpstreamURL = ''https://r'',
     route_FileUpstreamURL = [], route_UpstreamTokenEnv = []\<rparr>"

definition example_rel_info :: RequestInfo where
  "example_rel_info = \<lparr>ri_Package = \<lparr>pkg_Ecosystem = ''npm'', pkg_Name = ''p'', pkg_Version = ''1.0.0'', pkg_PURL = ''pkg:npm/p@1.0.0'', pkg_PublishedAt = 0\<rparr>,
     ri_Kind = ''artifact'', ri_UpstreamPath = ''/p/-/p-1.0.0.tgz'', ri_FileUpstream = False, ri_NeedsDecision = True, ri_Cacheable = True,
     ri_SkipVulnerabilityCheck = False\<rparr>"

lemma example_published: "fst (PublishedAt example_rel_lib Map.empty 1 2 example_rel_route example_rel_info NewResolver) = Inr 42"
proof -
  have g: "registry_get example_rel_lib Map.empty example_rel_route ''GET'' b p a = Inr (\<lparr>ans_Status = 200, ans_Body = [], ans_BodyErr = None\<rparr>, [])" for b p a
    by (simp add: registry_get_def example_rel_lib_def Let_def)
  have t: "rl_tokens example_rel_lib b e =
      jtokens (JObj [(''versions'', JObj [(''time'', JNum ''1'')]), (''time'', JObj [(''1.0.0'', JStr ''t'')])]) @ []" for b e
    by (simp add: example_rel_lib_def)
  have n: "npmTimes (rl_tokens example_rel_lib b e) = Inr [''1.0.0'' \<mapsto> ''t'']" for b e
  proof -
    have "npm_fields (members [(''versions'', JObj [(''time'', JNum ''1'')]), (''time'', JObj [(''1.0.0'', JStr ''t'')])] @ TObjClose # []) =
        Inr [''1.0.0'' \<mapsto> ''t'']"
      unfolding npm_fields_spec by (simp add: string_map_def text_of_def)
    then show ?thesis unfolding t by (simp add: npmTimes_def)
  qed
  have "release_npm example_rel_lib Map.empty example_rel_route ''p'' ''1.0.0'' = Inr 42"
    by (simp add: release_npm_def g n) (simp add: example_rel_lib_def)
  then show ?thesis
    by (simp add: PublishedAt_def NewResolver_def NewWithMaxEntries_def Cache_Get_def release_lookup_def example_rel_route_def
        example_rel_info_def IsZero_def Let_def)
qed

theorem published_never_zero_witness:
  "\<exists>t r'. PublishedAt example_rel_lib Map.empty 1 2 example_rel_route example_rel_info (published_run [] NewResolver) = (Inr t, r') \<and> t \<noteq> 0"
proof -
  obtain r' where p: "PublishedAt example_rel_lib Map.empty 1 2 example_rel_route example_rel_info (published_run [] NewResolver) = (Inr 42, r')"
    using example_published by (metis prod.collapse published_run.simps(1))
  from published_never_zero [OF p] p show ?thesis by (auto simp: example_rel_route_def)
qed

end
