(* ===== verification/Gradle.thy ===== *)
theory Gradle
  imports Release "HOL-Library.List_Lexorder"
begin

text \<open>
  internal/prewarm/gradle.go: which artifacts a Gradle build needs, from its lockfiles and its
  verification metadata. The directory tree is data (a file that cannot be opened and a
  directory that cannot be read carry their error); decoding the XML is a function of the path. Go maps
  used as sets are lists without repetition; everything that is iterated in an unspecified order
  is sorted afterwards.
\<close>

section \<open>Data\<close>

record Artifact =
  art_Coordinate :: string
  art_Path :: string
  art_SHA256 :: "string list"
  art_pluginMarker :: bool

record GradleManifest =
  gm_Artifacts :: "Artifact list"
  gm_Lockfiles :: nat
  gm_LockedComponents :: nat
  gm_PluginMarkers :: nat
  gm_ExcludedComponents :: nat
  gm_ExcludedArtifacts :: nat
  gm_lockedCoordinates :: "string list"

record verificationArtifact =
  va_Name :: string
  va_SHA256s :: "string list"

record verificationComponent =
  vc_Group :: string
  vc_Name :: string
  vc_Version :: string
  vc_Artifacts :: "verificationArtifact list"

record artifactRecord =
  ar_coordinate :: string
  ar_pluginMarker :: bool
  ar_checksums :: "string list"

datatype dirent = DirFile string "string + string" | Dir string "string + dirent list"

section \<open>Names\<close>

definition safeMavenSegment :: "string \<Rightarrow> bool" where
  "safeMavenSegment value \<longleftrightarrow> value \<noteq> [] \<and> value \<noteq> ''.'' \<and> value \<noteq> ''..'' \<and> \<not> ContainsAny value [CHR ''/'', CHR 0x5C]"

definition ignoredGradleArtifact :: "string \<Rightarrow> bool" where
  "ignoredGradleArtifact name \<longleftrightarrow> HasSuffix name ''-sources.jar'' \<or> HasSuffix name ''-javadoc.jar''"

definition ignoredDirectory :: "string \<Rightarrow> bool" where
  "ignoredDirectory name \<longleftrightarrow> List.member [''.git'', ''.gradle'', ''build'', ''node_modules'', ''out''] name"

definition gradleCoordinate :: "string \<Rightarrow> string \<Rightarrow> string \<Rightarrow> string" where
  "gradleCoordinate grp name version = grp @ '':'' @ name @ '':'' @ version"

definition coordinate_ok :: "string \<Rightarrow> bool" where
  "coordinate_ok coordinate \<longleftrightarrow> (let parts = Split coordinate CHR '':'' in length parts = 3 \<and> list_all safeMavenSegment parts)"

definition missingCoordinates :: "string list \<Rightarrow> string list \<Rightarrow> string list" where
  "missingCoordinates locked found = sort_key (map byte) (filter (\<lambda>c. \<not> List.member found c) locked)"

definition namesVersion :: "string \<Rightarrow> string \<Rightarrow> string \<Rightarrow> bool" where
  "namesVersion artifact name version =
     (let prefix = name @ ''-'' @ version in
      HasPrefix artifact prefix \<and>
      (let boundary = drop (length prefix) artifact in HasPrefix boundary ''.'' \<or> HasPrefix boundary ''-''))"

fun longest_version :: "string \<Rightarrow> string \<Rightarrow> string list \<Rightarrow> string \<Rightarrow> string" where
  "longest_version artifact name [] published = published"
| "longest_version artifact name (version # versions) published =
     longest_version artifact name versions
       (if namesVersion artifact name version \<and> length version > length published then version else published)"

definition publishedArtifactVersion :: "verificationComponent \<Rightarrow> string \<Rightarrow> string list \<Rightarrow> string" where
  "publishedArtifactVersion component artifact moduleVersions =
     (let published = longest_version artifact (vc_Name component) (vc_Version component # moduleVersions) [] in
      if published = [] then vc_Version component else published)"

definition maven_segments :: "verificationComponent \<Rightarrow> string \<Rightarrow> string \<Rightarrow> string list" where
  "maven_segments component version artifact = Split (vc_Group component) CHR ''.'' @ [vc_Name component, version, artifact]"

definition mavenArtifactPath :: "verificationComponent \<Rightarrow> string \<Rightarrow> string \<Rightarrow> string + string" where
  "mavenArtifactPath component version artifact =
     (let parts = maven_segments component version artifact in
      case find (\<lambda>part. \<not> safeMavenSegment part) parts of
        Some part \<Rightarrow> Inl (''unsafe Maven path segment '' @ part)
      | None \<Rightarrow> Inr (Join (map url_PathEscape parts) ''/''))"

fun validSHA256s :: "string list \<Rightarrow> string + string list" where
  "validSHA256s [] = Inr []"
| "validSHA256s (value # values) =
     (let checksum = ToLower (TrimSpace value) in
      if \<not> validSHA256 checksum then Inl (''invalid SHA-256 '' @ value)
      else case validSHA256s values of Inl e \<Rightarrow> Inl e | Inr checksums \<Rightarrow> Inr (checksum # checksums))"

section \<open>Lockfiles\<close>

definition maxLockLine :: nat where "maxLockLine = 1048576"

definition scan_lines :: "string \<Rightarrow> string list" where
  "scan_lines content =
     (let ls = Split content CHR 0x0A; ls = (if last ls = [] then butlast ls else ls) in
      map (\<lambda>l. TrimSuffix l [CHR 0x0D]) ls)"

fun lock_lines :: "string list \<Rightarrow> string list \<Rightarrow> string + string list" where
  "lock_lines [] coordinates = Inr coordinates"
| "lock_lines (text # rest) coordinates =
     (if length text \<ge> maxLockLine then Inl ''token too long''
      else let line = TrimSpace text in
      if line = [] \<or> HasPrefix line ''#'' then lock_lines rest coordinates
      else case Cut line CHR ''='' of
        (coordinate, _, ok) \<Rightarrow>
          let coordinate = TrimSpace coordinate in
          if \<not> ok then Inl ''lock entry is missing =''
          else if coordinate = ''empty'' then lock_lines rest coordinates
          else if \<not> coordinate_ok coordinate then Inl (''invalid locked component '' @ coordinate)
          else lock_lines rest (List.insert coordinate coordinates))"

definition readGradleLock :: "string + string \<Rightarrow> string + string list" where
  "readGradleLock opened = (case opened of Inl e \<Rightarrow> Inl e | Inr content \<Rightarrow> lock_lines (scan_lines content) [])"

function (sequential) walk_locks :: "bool \<Rightarrow> dirent list \<Rightarrow> string list \<times> nat \<Rightarrow> string + string list \<times> nat" where
  "walk_locks atRoot [] acc = Inr acc"
| "walk_locks atRoot (DirFile name opened # ents) (locked, n) =
     (if name \<noteq> ''gradle.lockfile'' then walk_locks False ents (locked, n)
      else case readGradleLock opened of
        Inl e \<Rightarrow> Inl e
      | Inr coordinates \<Rightarrow> walk_locks False ents (fold List.insert coordinates locked, Suc n))"
| "walk_locks atRoot (Dir name listing # ents) acc =
     (if \<not> atRoot \<and> ignoredDirectory name then walk_locks False ents acc
      else case listing of
        Inl e \<Rightarrow> Inl e
      | Inr children \<Rightarrow>
          (case walk_locks False children acc of Inl e \<Rightarrow> Inl e | Inr acc \<Rightarrow> walk_locks False ents acc))"
  by pat_completeness auto
termination
  by (relation "measure (\<lambda>(_, ents, _). size_list size ents)") (auto simp: size_list_conv_sum_list)

definition readGradleLocks :: "dirent \<Rightarrow> string + string list \<times> nat" where
  "readGradleLocks tree = walk_locks True [tree] ([], 0)"

section \<open>The manifest\<close>

fun validatePluginMarkerCoordinates :: "string list \<Rightarrow> string list \<Rightarrow> string + string list" where
  "validatePluginMarkerCoordinates [] markers = Inr markers"
| "validatePluginMarkerCoordinates (value # values) markers =
     (let coordinate = TrimSpace value; parts = Split coordinate CHR '':'' in
      if \<not> coordinate_ok coordinate \<or> parts ! 1 \<noteq> parts ! 0 @ ''.gradle.plugin''
      then Inl (''invalid active Gradle plugin marker coordinate '' @ value)
      else validatePluginMarkerCoordinates values (List.insert coordinate markers))"

type_synonym records = "(string, artifactRecord) gomap"

definition add_record :: "string \<Rightarrow> string \<Rightarrow> bool \<Rightarrow> string list \<Rightarrow> records \<Rightarrow> string + records" where
  "add_record path coordinate marker checksums records =
     (case map_of records path of
        None \<Rightarrow> Inr (AList.update path \<lparr>ar_coordinate = coordinate, ar_pluginMarker = marker, ar_checksums = fold List.insert checksums []\<rparr> records)
      | Some r \<Rightarrow>
          if ar_coordinate r \<noteq> coordinate then Inl (''artifact path '' @ path @ '' belongs to multiple coordinates'')
          else Inr (AList.update path (r\<lparr>ar_checksums := fold List.insert checksums (ar_checksums r)\<rparr>) records))"

definition component_coordinate :: "verificationComponent \<Rightarrow> string" where
  "component_coordinate c = gradleCoordinate (vc_Group c) (vc_Name c) (vc_Version c)"

definition module_versions :: "verificationComponent list \<Rightarrow> verificationComponent \<Rightarrow> string list" where
  "module_versions components c =
     map vc_Version (filter (\<lambda>d. vc_Group d @ '':'' @ vc_Name d = vc_Group c @ '':'' @ vc_Name c) components)"

fun add_artifacts :: "verificationComponent \<Rightarrow> string list \<Rightarrow> bool \<Rightarrow> verificationArtifact list \<Rightarrow> bool \<times> records \<Rightarrow> string + bool \<times> records" where
  "add_artifacts c versions marker [] acc = Inr acc"
| "add_artifacts c versions marker (a # as) (found, records) =
     (if ignoredGradleArtifact (va_Name a) then add_artifacts c versions marker as (found, records)
      else case validSHA256s (va_SHA256s a) of
        Inl e \<Rightarrow> Inl e
      | Inr checksums \<Rightarrow>
          if checksums = [] then add_artifacts c versions marker as (found, records)
          else let version = publishedArtifactVersion c (va_Name a) versions in
            (case mavenArtifactPath c version (va_Name a) of
               Inl e \<Rightarrow> Inl e
             | Inr path \<Rightarrow>
                 (case add_record path (gradleCoordinate (vc_Group c) (vc_Name c) version) marker checksums records of
                    Inl e \<Rightarrow> Inl e
                  | Inr records \<Rightarrow> add_artifacts c versions marker as (True, records))))"

record discovery =
  ds_records :: records
  ds_components :: "string list"
  ds_markers :: "string list"

fun add_components :: "verificationComponent list \<Rightarrow> string list \<Rightarrow> string list \<Rightarrow> verificationComponent list \<Rightarrow> discovery \<Rightarrow> string + discovery" where
  "add_components all locked markers [] d = Inr d"
| "add_components all locked markers (c # cs) d =
     (let coordinate = component_coordinate c; isLocked = List.member locked coordinate; isMarker = List.member markers coordinate in
      if \<not> isLocked \<and> \<not> isMarker then add_components all locked markers cs d
      else let d = (if isLocked then d\<lparr>ds_components := List.insert coordinate (ds_components d)\<rparr> else d) in
        (case add_artifacts c (module_versions all c) isMarker (vc_Artifacts c) (False, ds_records d) of
           Inl e \<Rightarrow> Inl e
         | Inr (found, records) \<Rightarrow>
             let d = d\<lparr>ds_records := records\<rparr>;
                 d = (if isMarker \<and> found then d\<lparr>ds_markers := List.insert coordinate (ds_markers d)\<rparr> else d)
             in add_components all locked markers cs d))"

definition manifest_artifact :: "records \<Rightarrow> string \<Rightarrow> Artifact" where
  "manifest_artifact records path =
     (let r = the (map_of records path) in
      \<lparr>art_Coordinate = ar_coordinate r, art_Path = path, art_SHA256 = sort_key (map byte) (ar_checksums r), art_pluginMarker = ar_pluginMarker r\<rparr>)"

definition verification_path :: "string \<Rightarrow> string \<Rightarrow> string" where
  "verification_path dir path =
     (if path = [] then path_JoinN [dir, ''gradle'', ''verification-metadata.xml'']
      else if \<not> HasPrefix path ''/'' then path_JoinN [dir, path] else path)"

definition DiscoverGradle :: "string + string \<Rightarrow> dirent \<Rightarrow> (string \<Rightarrow> string + verificationComponent list) \<Rightarrow> string \<Rightarrow> string list
    \<Rightarrow> string + GradleManifest" where
  "DiscoverGradle absRoot tree readVerificationMetadata verificationPath markerValues =
     (case absRoot of Inl e \<Rightarrow> Inl e | Inr dir \<Rightarrow>
      case readGradleLocks tree of Inl e \<Rightarrow> Inl e | Inr (locked, lockfiles) \<Rightarrow>
      if lockfiles = 0 then Inl ''no gradle.lockfile files found''
      else if locked = [] then Inl ''Gradle lockfiles contain no external component coordinates''
      else case readVerificationMetadata (verification_path dir verificationPath) of Inl e \<Rightarrow> Inl e | Inr components \<Rightarrow>
      case validatePluginMarkerCoordinates markerValues [] of Inl e \<Rightarrow> Inl e | Inr markers \<Rightarrow>
      case add_components components locked markers components \<lparr>ds_records = [], ds_components = [], ds_markers = []\<rparr> of
        Inl e \<Rightarrow> Inl e
      | Inr d \<Rightarrow>
          if ds_records d = [] then Inl ''no SHA-256-verified artifacts matched the locked Gradle components''
          else if missingCoordinates locked (ds_components d) \<noteq> [] then Inl ''locked Gradle components are absent from verification metadata''
          else if missingCoordinates markers (ds_markers d) \<noteq> [] then Inl ''active Gradle plugin markers have no SHA-256-verified artifact''
          else Inr \<lparr>gm_Artifacts = map (manifest_artifact (ds_records d)) (sort_key (map byte) (map fst (ds_records d))),
                 gm_Lockfiles = lockfiles, gm_LockedComponents = length locked, gm_PluginMarkers = length (ds_markers d),
                 gm_ExcludedComponents = 0, gm_ExcludedArtifacts = 0, gm_lockedCoordinates = locked\<rparr>)"

fun excluded_coordinates :: "string list \<Rightarrow> string list \<Rightarrow> string list \<Rightarrow> string + string list" where
  "excluded_coordinates locked [] excluded = Inr excluded"
| "excluded_coordinates locked (value # values) excluded =
     (let coordinate = TrimSpace value in
      if coordinate = [] then Inl ''excluded Gradle coordinate must not be empty''
      else if \<not> coordinate_ok coordinate then Inl (''invalid excluded Gradle coordinate '' @ value)
      else if \<not> List.member locked coordinate then Inl (''excluded Gradle coordinate is not locked: '' @ coordinate)
      else excluded_coordinates locked values (List.insert coordinate excluded))"

definition ExcludeGradleCoordinates :: "GradleManifest \<Rightarrow> string list \<Rightarrow> string + GradleManifest" where
  "ExcludeGradleCoordinates manifest values =
     (case excluded_coordinates (gm_lockedCoordinates manifest) values [] of
        Inl e \<Rightarrow> Inl e
      | Inr excluded \<Rightarrow>
          if excluded = [] then Inr manifest
          else let kept = filter (\<lambda>a. \<not> List.member excluded (art_Coordinate a)) (gm_Artifacts manifest) in
            if kept = [] then Inl ''excluded Gradle coordinates remove every prewarm artifact''
            else Inr (manifest\<lparr>gm_Artifacts := kept, gm_ExcludedComponents := length excluded,
                   gm_ExcludedArtifacts := length (gm_Artifacts manifest) - length kept\<rparr>))"

section \<open>What a manifest contains\<close>

definition path_ok :: "string \<Rightarrow> bool" where
  "path_ok path \<longleftrightarrow> (\<exists>segs. path = Join (map url_PathEscape segs) ''/'' \<and> list_all safeMavenSegment segs \<and> 4 \<le> length segs)"

definition record_ok :: "string \<Rightarrow> artifactRecord \<Rightarrow> bool" where
  "record_ok path r \<longleftrightarrow> path_ok path \<and> ar_checksums r \<noteq> [] \<and> list_all validSHA256 (ar_checksums r)"

definition records_inv :: "records \<Rightarrow> bool" where
  "records_inv recs \<longleftrightarrow> distinct (map fst recs) \<and> (\<forall>p r. map_of recs p = Some r \<longrightarrow> record_ok p r)"

definition extends :: "records \<Rightarrow> records \<Rightarrow> bool" where
  "extends recs recs' \<longleftrightarrow> (\<forall>p r. map_of recs p = Some r \<longrightarrow>
     (\<exists>r'. map_of recs' p = Some r' \<and> set (ar_checksums r) \<subseteq> set (ar_checksums r')))"

lemma extends_refl: "extends r r"
  by (simp add: extends_def)

lemma extends_trans: "extends a b \<Longrightarrow> extends b c \<Longrightarrow> extends a c"
  unfolding extends_def by (meson order_trans)

text \<open>The records hold an artifact of a component, with all its checksums.\<close>

definition holds :: "records \<Rightarrow> verificationComponent \<Rightarrow> string list \<Rightarrow> verificationArtifact \<Rightarrow> bool" where
  "holds recs c versions a \<longleftrightarrow> (\<forall>cks. \<not> ignoredGradleArtifact (va_Name a) \<longrightarrow> validSHA256s (va_SHA256s a) = Inr cks \<longrightarrow> cks \<noteq> [] \<longrightarrow>
     (\<exists>path r. mavenArtifactPath c (publishedArtifactVersion c (va_Name a) versions) (va_Name a) = Inr path \<and>
        map_of recs path = Some r \<and> set cks \<subseteq> set (ar_checksums r)))"

lemma holds_extends: "holds recs c versions a \<Longrightarrow> extends recs recs' \<Longrightarrow> holds recs' c versions a"
  unfolding holds_def extends_def by (meson order_trans)

lemma fold_insert: "set (fold List.insert xs ys) = set xs \<union> set ys"
  by (induction xs arbitrary: ys) auto

lemma validSHA256s_ok: "validSHA256s vs = Inr cks \<Longrightarrow> list_all validSHA256 cks"
  by (induction vs arbitrary: cks) (auto simp: Let_def split: if_splits sum.splits)

lemma mavenArtifactPath_ok: "mavenArtifactPath c version a = Inr path \<Longrightarrow> path_ok path"
proof -
  assume m: "mavenArtifactPath c version a = Inr path"
  then have "find (\<lambda>part. \<not> safeMavenSegment part) (maven_segments c version a) = None"
    and p: "path = Join (map url_PathEscape (maven_segments c version a)) ''/''"
    by (auto simp: mavenArtifactPath_def Let_def split: option.splits)
  moreover have "Split (vc_Group c) CHR ''.'' \<noteq> []" by (cases "vc_Group c") (auto split: list.splits)
  ultimately show "path_ok path"
    unfolding path_ok_def by (intro exI [of _ "maven_segments c version a"])
      (auto simp: find_None_iff list_all_iff maven_segments_def Suc_le_eq)
qed

lemma add_record_ok:
  assumes add: "add_record path co marker cks recs = Inr recs'" and inv: "records_inv recs"
    and cks: "cks \<noteq> []" "list_all validSHA256 cks" and path: "path_ok path"
  shows "records_inv recs' \<and> extends recs recs' \<and> (\<exists>r. map_of recs' path = Some r \<and> set cks \<subseteq> set (ar_checksums r))"
proof -
  obtain r where recs': "recs' = AList.update path r recs"
    and r: "set (ar_checksums r) = set cks \<union> (case map_of recs path of None \<Rightarrow> {} | Some q \<Rightarrow> set (ar_checksums q))"
    using add by (auto simp: add_record_def fold_insert split: option.splits if_splits)
  have old: "list_all validSHA256 (ar_checksums q)" if "map_of recs path = Some q" for q
    using that inv by (auto simp: records_inv_def record_ok_def)
  have "list_all validSHA256 (ar_checksums r)"
    using r cks(2) old by (auto simp: list_all_iff split: option.splits)
  moreover have "ar_checksums r \<noteq> []" using r cks(1) by (cases cks) (auto split: option.splits)
  ultimately have ok: "record_ok path r" using path by (simp add: record_ok_def)
  have "map_of recs' p = (if p = path then Some r else map_of recs p)" for p
    by (simp add: recs' update_conv')
  moreover have "distinct (map fst recs')" using inv by (simp add: recs' records_inv_def distinct_update)
  ultimately show ?thesis using inv ok r by (auto simp: records_inv_def extends_def split: option.splits)
qed

lemma add_artifacts_ok:
  assumes "add_artifacts c versions marker as (found, recs) = Inr (found', recs')" and "records_inv recs"
  shows "records_inv recs' \<and> extends recs recs' \<and> (\<forall>a\<in>set as. holds recs' c versions a)"
  using assms
proof (induction as arbitrary: found recs)
  case (Cons a as)
  show ?case
  proof (cases "ignoredGradleArtifact (va_Name a) \<or> validSHA256s (va_SHA256s a) = Inr []")
    case True
    then have "add_artifacts c versions marker as (found, recs) = Inr (found', recs')"
      using Cons.prems(1) by (auto split: if_splits)
    from Cons.IH [OF this Cons.prems(2)] show ?thesis using True by (auto simp: holds_def)
  next
    case False
    let ?v = "publishedArtifactVersion c (va_Name a) versions"
    obtain cks path mid where s: "validSHA256s (va_SHA256s a) = Inr cks" "cks \<noteq> []"
      and p: "mavenArtifactPath c ?v (va_Name a) = Inr path"
      and r: "add_record path (gradleCoordinate (vc_Group c) (vc_Name c) ?v) marker cks recs = Inr mid"
      and rest: "add_artifacts c versions marker as (True, mid) = Inr (found', recs')"
      using Cons.prems(1) False by (auto simp: Let_def split: sum.splits if_splits)
    note one = add_record_ok [OF r Cons.prems(2) s(2) validSHA256s_ok [OF s(1)] mavenArtifactPath_ok [OF p]]
    note more = Cons.IH [OF rest conjunct1 [OF one]]
    have "holds mid c versions a" using one s p by (auto simp: holds_def)
    then have "holds recs' c versions a" using holds_extends more by blast
    with one more show ?thesis by (auto intro: extends_trans)
  qed
qed (simp add: extends_refl)

lemma add_components_ok:
  assumes "add_components all locked markers cs d = Inr d'" and "records_inv (ds_records d)"
  shows "records_inv (ds_records d') \<and> extends (ds_records d) (ds_records d') \<and>
    (\<forall>c\<in>set cs. component_coordinate c \<in> set locked \<union> set markers \<longrightarrow>
       (\<forall>a\<in>set (vc_Artifacts c). holds (ds_records d') c (module_versions all c) a)) \<and>
    set (ds_components d') \<subseteq> set (ds_components d) \<union> component_coordinate ` set cs"
  using assms
proof (induction cs arbitrary: d)
  case (Cons c cs)
  show ?case
  proof (cases "component_coordinate c \<in> set locked \<union> set markers")
    case False
    then have "add_components all locked markers cs d = Inr d'" using Cons.prems(1) by (simp add: Let_def)
    from Cons.IH [OF this Cons.prems(2)] show ?thesis using False by auto
  next
    case True
    define e where "e = (if component_coordinate c \<in> set locked
      then d\<lparr>ds_components := List.insert (component_coordinate c) (ds_components d)\<rparr> else d)"
    obtain found recs where a: "add_artifacts c (module_versions all c) (component_coordinate c \<in> set markers) (vc_Artifacts c)
        (False, ds_records d) = Inr (found, recs)" and rest: "add_components all locked markers cs
        (let f = e\<lparr>ds_records := recs\<rparr> in if component_coordinate c \<in> set markers \<and> found
           then f\<lparr>ds_markers := List.insert (component_coordinate c) (ds_markers f)\<rparr> else f) = Inr d'"
      using Cons.prems(1) True by (auto simp: Let_def e_def split: sum.splits if_splits)
    note one = add_artifacts_ok [OF a Cons.prems(2)]
    have inv: "records_inv (ds_records (let f = e\<lparr>ds_records := recs\<rparr> in if component_coordinate c \<in> set markers \<and> found
           then f\<lparr>ds_markers := List.insert (component_coordinate c) (ds_markers f)\<rparr> else f))"
      using one by (simp add: Let_def)
    note more = Cons.IH [OF rest inv]
    have ext: "extends recs (ds_records d')" using more by (simp add: Let_def split: if_splits)
    have "holds (ds_records d') c (module_versions all c) a" if "a \<in> set (vc_Artifacts c)" for a
      using holds_extends [OF _ ext] one that by blast
    moreover have "set (ds_components d') \<subseteq> set (ds_components d) \<union> component_coordinate ` set (c # cs)"
      using more by (auto simp: Let_def e_def split: if_splits)
    ultimately show ?thesis using more one extends_trans [OF _ ext] by auto
  qed
qed (simp add: extends_refl)

lemma discovered_complete:
  assumes ok: "DiscoverGradle (Inr dir) tree metadata path markers = Inr m"
    and meta: "metadata (verification_path dir path) = Inr components"
  shows "set (gm_lockedCoordinates m) \<subseteq> component_coordinate ` set components \<and>
    (\<forall>c a cks. c \<in> set components \<and> component_coordinate c \<in> set (gm_lockedCoordinates m) \<and> a \<in> set (vc_Artifacts c) \<and>
       \<not> ignoredGradleArtifact (va_Name a) \<and> validSHA256s (va_SHA256s a) = Inr cks \<and> cks \<noteq> [] \<longrightarrow>
       (\<exists>x\<in>set (gm_Artifacts m). mavenArtifactPath c (publishedArtifactVersion c (va_Name a) (module_versions components c)) (va_Name a)
          = Inr (art_Path x) \<and> set cks \<subseteq> set (art_SHA256 x))) \<and>
    sorted (map (map byte \<circ> art_Path) (gm_Artifacts m)) \<and> distinct (map art_Path (gm_Artifacts m)) \<and>
    (\<forall>x\<in>set (gm_Artifacts m). path_ok (art_Path x) \<and> art_SHA256 x \<noteq> [] \<and> list_all validSHA256 (art_SHA256 x))"
proof -
  obtain locked n ms d where locks: "readGradleLocks tree = Inr (locked, n)"
    and d: "add_components components locked ms components \<lparr>ds_records = [], ds_components = [], ds_markers = []\<rparr> = Inr d"
    and mis: "missingCoordinates locked (ds_components d) = []"
    and arts: "gm_Artifacts m = map (manifest_artifact (ds_records d)) (sort_key (map byte) (map fst (ds_records d)))"
    and lk: "gm_lockedCoordinates m = locked"
    using ok meta by (auto simp: DiscoverGradle_def split: sum.splits if_splits prod.splits)
  note all = add_components_ok [OF d]
  have inv: "records_inv (ds_records d)" using all by (simp add: records_inv_def)
  have "set (missingCoordinates locked (ds_components d)) = set locked - set (ds_components d)"
    by (auto simp: missingCoordinates_def)
  then have "set locked \<subseteq> set (ds_components d)" using mis by auto
  moreover have "set (ds_components d) \<subseteq> component_coordinate ` set components" using all by (simp add: records_inv_def)
  ultimately have one: "set (gm_lockedCoordinates m) \<subseteq> component_coordinate ` set components" using lk by auto
  have path [simp]: "art_Path (manifest_artifact (ds_records d) p) = p" for p by (simp add: manifest_artifact_def Let_def)
  have listed: "\<exists>x\<in>set (gm_Artifacts m). art_Path x = p \<and> set (art_SHA256 x) = set (ar_checksums r)" if "map_of (ds_records d) p = Some r" for p r
  proof -
    have "p \<in> fst ` set (ds_records d)" using that by (force dest: map_of_SomeD)
    then have "manifest_artifact (ds_records d) p \<in> set (gm_Artifacts m)" by (auto simp: arts)
    then show ?thesis using that by (intro bexI) (auto simp: manifest_artifact_def Let_def)
  qed
  have two: "\<exists>x\<in>set (gm_Artifacts m). mavenArtifactPath c (publishedArtifactVersion c (va_Name a) (module_versions components c)) (va_Name a)
      = Inr (art_Path x) \<and> set cks \<subseteq> set (art_SHA256 x)"
    if h: "c \<in> set components" "component_coordinate c \<in> set (gm_lockedCoordinates m)" "a \<in> set (vc_Artifacts c)"
      "\<not> ignoredGradleArtifact (va_Name a)" "validSHA256s (va_SHA256s a) = Inr cks" "cks \<noteq> []" for c a cks
  proof -
    have "holds (ds_records d) c (module_versions components c) a" using all h lk by (auto simp: records_inv_def)
    then obtain q r where "mavenArtifactPath c (publishedArtifactVersion c (va_Name a) (module_versions components c)) (va_Name a) = Inr q"
      "map_of (ds_records d) q = Some r" "set cks \<subseteq> set (ar_checksums r)" using h(4-6) by (auto simp: holds_def)
    with listed show ?thesis by fastforce
  qed
  have three: "path_ok (art_Path x) \<and> art_SHA256 x \<noteq> [] \<and> list_all validSHA256 (art_SHA256 x)" if x: "x \<in> set (gm_Artifacts m)" for x
  proof -
    obtain p where p: "p \<in> fst ` set (ds_records d)" "x = manifest_artifact (ds_records d) p" using x arts by auto
    then obtain r where r: "map_of (ds_records d) p = Some r" by (metis map_of_eq_None_iff not_None_eq)
    then have "record_ok p r" using inv by (simp add: records_inv_def)
    then show ?thesis using p r by (simp add: record_ok_def manifest_artifact_def Let_def list_all_iff) (metis set_empty set_sort)
  qed
  have "map art_Path (gm_Artifacts m) = sort_key (map byte) (map fst (ds_records d))" by (simp add: arts comp_def)
  moreover have "sorted (map (map byte \<circ> art_Path) (gm_Artifacts m))" by (simp add: arts comp_def)
  moreover have "distinct (map fst (ds_records d))" using inv by (simp add: records_inv_def)
  ultimately show ?thesis using one two three by auto
qed

text \<open>C32: A manifest that DiscoverGradle returns is complete and safe to fetch. Every locked
  coordinate is described by the verification metadata, and every checksummed artifact of every
  locked component is listed under its Maven path with all its checksums. The
  paths are sorted and distinct, each is made of at least four escaped segments none of which
  is empty, a dot segment or holds a slash or backslash, and each has at least one checksum, all
  of 64 hexadecimal digits.\<close>

theorem gradle_manifest_complete:
  assumes ok: "DiscoverGradle (Inr dir) tree metadata path markers = Inr m"
    and meta: "metadata (verification_path dir path) = Inr components"
  shows "set (gm_lockedCoordinates m) \<subseteq> component_coordinate ` set components \<and>
    (\<forall>c a cks. c \<in> set components \<and> component_coordinate c \<in> set (gm_lockedCoordinates m) \<and> a \<in> set (vc_Artifacts c) \<and>
       \<not> ignoredGradleArtifact (va_Name a) \<and> validSHA256s (va_SHA256s a) = Inr cks \<and> cks \<noteq> [] \<longrightarrow>
       (\<exists>x\<in>set (gm_Artifacts m). mavenArtifactPath c (publishedArtifactVersion c (va_Name a) (module_versions components c)) (va_Name a)
          = Inr (art_Path x) \<and> set cks \<subseteq> set (art_SHA256 x))) \<and>
    sorted (map (map byte \<circ> art_Path) (gm_Artifacts m)) \<and> distinct (map art_Path (gm_Artifacts m)) \<and>
    (\<forall>x\<in>set (gm_Artifacts m). path_ok (art_Path x) \<and> art_SHA256 x \<noteq> [] \<and> list_all validSHA256 (art_SHA256 x))"
  by (rule discovered_complete [OF assms])

section \<open>An example\<close>

definition example_component :: verificationComponent where
  "example_component = \<lparr>vc_Group = ''g'', vc_Name = ''n'', vc_Version = ''1'',
     vc_Artifacts = [\<lparr>va_Name = ''n-1.jar'', va_SHA256s = [example_key]\<rparr>]\<rparr>"

definition example_tree :: dirent where
  "example_tree = Dir ''r'' (Inr [DirFile ''gradle.lockfile'' (Inr ''g:n:1=a'')])"

lemma example_sha: "validSHA256s [example_key] = Inr [example_key]"
proof -
  have "rune_chunks (replicate n CHR ''a'') = replicate n (97, ''a'')" for n
    by (induction n) (simp_all add: decode_rune_def)
  then have "TrimSpace example_key = example_key"
    by (simp add: TrimSpace_def example_key_def is_space_rune_def dropWhile_replicate rev_replicate)
  moreover have "ToLower example_key = example_key"
    by (simp add: example_key_def ToLower_def map_replicate lower_char_def upper_letters_def lower_letters_def)
  moreover have "validSHA256 example_key" by (simp add: validSHA256_def example_key_def list_all_length unhex_def hex_digits_def go_eval)
  ultimately show ?thesis by simp
qed

lemma example_locks: "readGradleLocks example_tree = Inr ([''g:n:1''], 1)"
  by (simp add: readGradleLocks_def example_tree_def ignoredDirectory_def readGradleLock_def scan_lines_def maxLockLine_def coordinate_ok_def
      safeMavenSegment_def ContainsAny_def Cut_def go_eval)

lemma example_path: "mavenArtifactPath example_component ''1'' ''n-1.jar'' = Inr ''g/n/1/n-1.jar''"
  by (simp add: mavenArtifactPath_def maven_segments_def example_component_def safeMavenSegment_def ContainsAny_def url_PathEscape_def escape_free_def
      alnum_def go_eval)

lemma example_discovered:
  "\<exists>m. DiscoverGradle (Inr ''/r'') example_tree (\<lambda>_. Inr [example_component]) [] [] = Inr m \<and> gm_lockedCoordinates m = [''g:n:1''] \<and>
     gm_Artifacts m = [\<lparr>art_Coordinate = ''g:n:1'', art_Path = ''g/n/1/n-1.jar'', art_SHA256 = [example_key], art_pluginMarker = False\<rparr>]"
proof -
  let ?a = "\<lparr>va_Name = ''n-1.jar'', va_SHA256s = [example_key]\<rparr>"
  have pub: "publishedArtifactVersion example_component ''n-1.jar'' [''1''] = ''1''"
    by (simp add: publishedArtifactVersion_def example_component_def namesVersion_def HasPrefix_def)
  have ign: "\<not> ignoredGradleArtifact ''n-1.jar''" by (simp add: ignoredGradleArtifact_def HasSuffix_def)
  have comp: "component_coordinate example_component = ''g:n:1''" "module_versions [example_component] example_component = [''1'']"
    "vc_Artifacts example_component = [?a]" "gradleCoordinate (vc_Group example_component) (vc_Name example_component) ''1'' = ''g:n:1''"
    by (simp_all add: component_coordinate_def module_versions_def gradleCoordinate_def example_component_def)
  have "add_components [example_component] [''g:n:1''] [] [example_component] \<lparr>ds_records = [], ds_components = [], ds_markers = []\<rparr> =
      Inr \<lparr>ds_records = [(''g/n/1/n-1.jar'', \<lparr>ar_coordinate = ''g:n:1'', ar_pluginMarker = False, ar_checksums = [example_key]\<rparr>)],
        ds_components = [''g:n:1''], ds_markers = []\<rparr>"
    by (simp add: comp pub example_path ign example_sha add_record_def Let_def del: validSHA256s.simps)
  then show ?thesis by (auto simp: DiscoverGradle_def example_locks missingCoordinates_def manifest_artifact_def)
qed

theorem gradle_manifest_complete_witness:
  "\<exists>m. DiscoverGradle (Inr ''/r'') example_tree (\<lambda>_. Inr [example_component]) [] [] = Inr m \<and>
     set (gm_lockedCoordinates m) \<subseteq> {component_coordinate example_component} \<and> gm_lockedCoordinates m \<noteq> []"
proof -
  obtain m where m: "DiscoverGradle (Inr ''/r'') example_tree (\<lambda>_. Inr [example_component]) [] [] = Inr m"
    "gm_lockedCoordinates m = [''g:n:1'']" using example_discovered by blast
  from gradle_manifest_complete [OF m(1) refl] m show ?thesis by auto
qed

end
