(* ===== verification/Checkpoint.thy ===== *)
theory Checkpoint
  imports Gradle Upstream
begin

text \<open>
  The configuration of a prewarm run and its checkpoint file (prewarm/prewarm.go,
  prewarm/checkpoint.go). The checkpoint is written after every finished artifact and read when a
  run starts; it names the manifest it belongs to by a digest. A file system call meets the
  faults of the environment; the disk is a map from paths to contents, and since the file is written
  under a temporary name and renamed, no other content of the path is ever seen. encoding/json
  and crypto/sha256 are parameters.
\<close>

section \<open>Run configuration\<close>

record http_client =
  hc_Timeout :: duration
  hc_CheckRedirect :: "(url \<Rightarrow> url list \<Rightarrow> string option) option"

record RunConfig =
  pw_BaseURL :: string
  pw_RoutePrefix :: string
  pw_PluginRoutePrefix :: string
  pw_Concurrency :: int
  pw_MinRequestInterval :: duration
  pw_RateLimitRetries :: int
  pw_StateFile :: string
  pw_HTTPClient :: "http_client option"
  pw_BearerToken :: string
  pw_BasicUsername :: string
  pw_BasicPassword :: string
  pw_progress :: bool
  pw_pass :: int
  pw_total :: int
  pw_attempt :: int

definition normalizeRoutePrefix :: "string \<Rightarrow> string + string" where
  "normalizeRoutePrefix v =
     (if \<not> HasPrefix v ''/'' \<or> ContainsAny v ''?#'' then Inl ''must be an absolute URL path''
      else Inr (''/'' @ Trim v ''/'' @ ''/''))"

definition url_origin :: "url \<Rightarrow> string" where
  "url_origin u = ToLower (u_Scheme u @ ''://'' @ u_Host u)"

definition prewarm_checkRedirect :: "string \<Rightarrow> (url \<Rightarrow> url list \<Rightarrow> string option) option \<Rightarrow> url \<Rightarrow> url list \<Rightarrow> string option" where
  "prewarm_checkRedirect origin configuredRedirect u via =
     (if url_origin u \<noteq> origin then Some ''prewarm redirect changed origin''
      else case configuredRedirect of
        Some check \<Rightarrow> check u via
      | None \<Rightarrow> if length via \<ge> 10 then Some ''prewarm redirect limit exceeded'' else None)"

definition prewarm_client :: "string \<Rightarrow> http_client option \<Rightarrow> http_client" where
  "prewarm_client origin configured =
     (let client = (case configured of
          None \<Rightarrow> \<lparr>hc_Timeout = 600 * nsSecond, hc_CheckRedirect = None\<rparr>
        | Some c \<Rightarrow> if hc_Timeout c \<le> 0 then c\<lparr>hc_Timeout := 600 * nsSecond\<rparr> else c)
      in client\<lparr>hc_CheckRedirect := Some (prewarm_checkRedirect origin (hc_CheckRedirect client))\<rparr>)"

text \<open>The limits and credentials, before the route prefixes.\<close>

definition check_limits :: "RunConfig \<Rightarrow> string + RunConfig" where
  "check_limits cfg =
     (let cfg = (if pw_Concurrency cfg = 0 then cfg\<lparr>pw_Concurrency := 2\<rparr> else cfg) in
      if pw_Concurrency cfg < 1 \<or> pw_Concurrency cfg > 16 then Inl ''prewarm concurrency must be between 1 and 16''
      else if pw_MinRequestInterval cfg < 0 then Inl ''prewarm minimum request interval must not be negative''
      else let cfg = (if pw_RateLimitRetries cfg = 0 then cfg\<lparr>pw_RateLimitRetries := 1\<rparr> else cfg) in
      if pw_RateLimitRetries cfg < 1 \<or> pw_RateLimitRetries cfg > 16 then Inl ''prewarm rate-limit retries must be between 1 and 16''
      else if (pw_BasicUsername cfg = []) \<noteq> (pw_BasicPassword cfg = []) then Inl ''prewarm basic username and password must be set together''
      else if pw_BearerToken cfg \<noteq> [] \<and> pw_BasicUsername cfg \<noteq> [] then Inl ''prewarm bearer and basic authentication cannot both be set''
      else Inr cfg)"

definition check_prefixes :: "RunConfig \<Rightarrow> string + RunConfig" where
  "check_prefixes cfg =
     (case normalizeRoutePrefix (if pw_RoutePrefix cfg = [] then ''/maven/'' else pw_RoutePrefix cfg) of
        Inl e \<Rightarrow> Inl (''prewarm route prefix: '' @ e)
      | Inr routePrefix \<Rightarrow>
          if pw_PluginRoutePrefix cfg = [] then Inr (cfg\<lparr>pw_RoutePrefix := routePrefix\<rparr>)
          else case normalizeRoutePrefix (pw_PluginRoutePrefix cfg) of
            Inl e \<Rightarrow> Inl (''prewarm plugin route prefix: '' @ e)
          | Inr pluginRoutePrefix \<Rightarrow>
              if pluginRoutePrefix = routePrefix then Inl ''prewarm Maven and plugin route prefixes must differ''
              else Inr (cfg\<lparr>pw_RoutePrefix := routePrefix, pw_PluginRoutePrefix := pluginRoutePrefix\<rparr>))"

definition normalizeRunConfig :: "url_lib \<Rightarrow> RunConfig \<Rightarrow> string + RunConfig" where
  "normalizeRunConfig lib cfg =
     (case clib_ParseRequestURI (ul_conf lib) (TrimSpace (pw_BaseURL cfg)) of
        Inl _ \<Rightarrow> Inl ''prewarm base URL must be an absolute HTTP(S) URL''
      | Inr parsed \<Rightarrow>
          if u_Host parsed = [] \<or> u_Scheme parsed \<noteq> ''http'' \<and> u_Scheme parsed \<noteq> ''https''
          then Inl ''prewarm base URL must be an absolute HTTP(S) URL''
          else if u_HasUser parsed \<or> u_RawQuery parsed \<noteq> [] \<or> u_Fragment parsed \<noteq> []
          then Inl ''prewarm base URL must not include credentials, a query, or a fragment''
          else case check_limits cfg of Inl e \<Rightarrow> Inl e | Inr cfg \<Rightarrow>
               case check_prefixes cfg of Inl e \<Rightarrow> Inl e | Inr cfg \<Rightarrow>
                 Inr (cfg\<lparr>pw_BaseURL := TrimRight (ul_String lib parsed) ''/'',
                   pw_HTTPClient := Some (prewarm_client (url_origin parsed) (pw_HTTPClient cfg))\<rparr>))"

section \<open>The checkpoint file\<close>

definition checkpointVersion :: int where "checkpointVersion = 1"

record checkpointEntry =
  ce_Route :: string
  ce_Status :: string

record checkpointFile =
  cf_Version :: int
  cf_ManifestSHA256 :: string
  cf_Completed :: "(string, checkpointEntry) gomap"

record checkpoint =
  ck_path :: string
  ck_manifestSHA256 :: string
  ck_entries :: "(string, checkpointEntry) gomap"

record artifactFingerprint =
  af_Coordinate :: string
  af_Path :: string
  af_SHA256 :: "string list"
  af_PluginMarker :: bool

record manifestFingerprint =
  mf_BaseURL :: string
  mf_RoutePrefix :: string
  mf_PluginRoutePrefix :: string
  mf_Artifacts :: "artifactFingerprint list"

record ck_lib =
  ckl_marshalManifest :: "manifestFingerprint \<Rightarrow> string + string"
  ckl_marshal :: "checkpointFile \<Rightarrow> string + string"
  ckl_unmarshal :: "string \<Rightarrow> string + checkpointFile"
  ckl_sha256 :: "string \<Rightarrow> string"

type_synonym disk = "string \<Rightarrow> string option"

definition artifact_fingerprint :: "Artifact \<Rightarrow> artifactFingerprint" where
  "artifact_fingerprint a = \<lparr>af_Coordinate = art_Coordinate a, af_Path = art_Path a,
     af_SHA256 = art_SHA256 a, af_PluginMarker = art_pluginMarker a\<rparr>"

definition manifest_fingerprint :: "RunConfig \<Rightarrow> Artifact list \<Rightarrow> manifestFingerprint" where
  "manifest_fingerprint cfg artifacts = \<lparr>mf_BaseURL = pw_BaseURL cfg, mf_RoutePrefix = pw_RoutePrefix cfg,
     mf_PluginRoutePrefix = pw_PluginRoutePrefix cfg, mf_Artifacts = map artifact_fingerprint artifacts\<rparr>"

definition fingerprintManifest :: "ck_lib \<Rightarrow> RunConfig \<Rightarrow> Artifact list \<Rightarrow> string + string" where
  "fingerprintManifest lib cfg artifacts =
     (case ckl_marshalManifest lib (manifest_fingerprint cfg artifacts) of
        Inl e \<Rightarrow> Inl (''encode prewarm manifest fingerprint: '' @ e)
      | Inr data \<Rightarrow> Inr (ckl_sha256 lib data))"

definition artifact_route :: "RunConfig \<Rightarrow> Artifact \<Rightarrow> string" where
  "artifact_route cfg a = (if art_pluginMarker a then pw_PluginRoutePrefix cfg else pw_RoutePrefix cfg)"

definition valid_routes :: "RunConfig \<Rightarrow> Artifact list \<Rightarrow> (string, string) gomap" where
  "valid_routes cfg artifacts = fold (\<lambda>a. AList.update (art_Path a) (artifact_route cfg a)) artifacts []"

fun check_completed :: "(string, string) gomap \<Rightarrow> (string, checkpointEntry) gomap \<Rightarrow> (string, checkpointEntry) gomap
    \<Rightarrow> string + (string, checkpointEntry) gomap" where
  "check_completed validRoutes [] entries = Inr entries"
| "check_completed validRoutes ((path, e) # completed) entries =
     (case map_of validRoutes path of
        None \<Rightarrow> Inl (''prewarm checkpoint contains unknown artifact '' @ path)
      | Some route \<Rightarrow>
          if ce_Status e \<noteq> ''HIT'' \<and> ce_Status e \<noteq> ''MISS'' then Inl (''prewarm checkpoint contains invalid cache status for '' @ path)
          else if ce_Route e \<noteq> route then Inl (''prewarm checkpoint contains another route for '' @ path)
          else check_completed validRoutes completed (AList.update path e entries))"

definition loadCheckpoint :: "ck_lib \<Rightarrow> faults \<Rightarrow> disk \<Rightarrow> string \<Rightarrow> RunConfig \<Rightarrow> Artifact list \<Rightarrow> string + checkpoint option" where
  "loadCheckpoint lib io files path cfg artifacts =
     (if path = [] then Inr None
      else case fingerprintManifest lib cfg artifacts of Inl e \<Rightarrow> Inl e | Inr manifestSHA256 \<Rightarrow>
      case io ''readfile'' of Some e \<Rightarrow> Inl (''read prewarm checkpoint: '' @ e) | None \<Rightarrow>
      case files path of
        None \<Rightarrow> Inr (Some \<lparr>ck_path = path, ck_manifestSHA256 = manifestSHA256, ck_entries = []\<rparr>)
      | Some data \<Rightarrow>
          (case ckl_unmarshal lib data of Inl e \<Rightarrow> Inl (''decode prewarm checkpoint: '' @ e) | Inr f \<Rightarrow>
           if cf_Version f \<noteq> checkpointVersion then Inl ''prewarm checkpoint version is unsupported''
           else if cf_ManifestSHA256 f \<noteq> manifestSHA256
           then Inl ''prewarm checkpoint does not match the current manifest or route configuration''
           else case check_completed (valid_routes cfg artifacts) (cf_Completed f) [] of Inl e \<Rightarrow> Inl e | Inr entries \<Rightarrow>
             Inr (Some \<lparr>ck_path = path, ck_manifestSHA256 = manifestSHA256, ck_entries = entries\<rparr>)))"

definition completed :: "checkpoint \<Rightarrow> Artifact \<Rightarrow> checkpointEntry option" where
  "completed c a = map_of (ck_entries c) (art_Path a)"

definition saveLocked :: "ck_lib \<Rightarrow> faults \<Rightarrow> checkpoint \<Rightarrow> disk \<Rightarrow> string option \<times> disk" where
  "saveLocked lib io c files =
     (case ckl_marshal lib \<lparr>cf_Version = checkpointVersion, cf_ManifestSHA256 = ck_manifestSHA256 c, cf_Completed = ck_entries c\<rparr> of
        Inl e \<Rightarrow> (Some e, files)
      | Inr data \<Rightarrow>
          (case first_fault io [''mkdirall'', ''createtemp'', ''chmod'', ''write'', ''close'', ''rename''] of
             Some e \<Rightarrow> (Some e, files)
           | None \<Rightarrow> (None, files(ck_path c \<mapsto> data))))"

definition checkpoint_record :: "ck_lib \<Rightarrow> faults \<Rightarrow> Artifact \<Rightarrow> string \<Rightarrow> string \<Rightarrow> checkpoint \<Rightarrow> disk
    \<Rightarrow> string option \<times> checkpoint \<times> disk" where
  "checkpoint_record lib io a route status c files =
     (let c = c\<lparr>ck_entries := AList.update (art_Path a) \<lparr>ce_Route = route, ce_Status = status\<rparr> (ck_entries c)\<rparr>;
          (err, files) = saveLocked lib io c files
      in (err, c, files))"

section \<open>Normalized configurations\<close>

lemma Trim_slash: "Trim (''/'' @ Trim v ''/'' @ ''/'') ''/'' = Trim v ''/''"
proof -
  let ?P = "\<lambda>c. List.member ''/'' c"
  have idem: "dropWhile ?P (dropWhile ?P xs) = dropWhile ?P xs" for xs by (rule dropWhile_idem)
  have right: "TrimRight (xs @ ''/'') ''/'' = TrimRight xs ''/''" for xs by (simp add: TrimRight_def)
  have left: "TrimLeft (''/'' @ xs) ''/'' = TrimLeft xs ''/''" for xs by (simp add: TrimLeft_def)
  have hd_keeps: "TrimLeft (TrimRight xs ''/'') ''/'' = TrimRight xs ''/''" if "TrimLeft xs ''/'' = xs" for xs
  proof (cases xs)
    case (Cons c cs)
    then have "c \<noteq> CHR ''/''" using that by (auto simp: TrimLeft_def dest: arg_cong [of _ _ length] split: if_splits)
      (metis impossible_Cons length_dropWhile_le)
    then show ?thesis using Cons by (auto simp: TrimLeft_def TrimRight_def dropWhile_append split: if_splits)
  qed (simp add: TrimLeft_def TrimRight_def)
  let ?t = "Trim v ''/''"
  have t: "TrimLeft ?t ''/'' = ?t" unfolding Trim_def by (rule hd_keeps) (simp add: TrimLeft_def idem)
  have "TrimLeft (?t @ ''/'') ''/'' = (if ?t = [] then [] else ?t @ ''/'')"
  proof (cases ?t)
    case (Cons c cs)
    then have "\<not> ?P c" using t by (auto simp: TrimLeft_def dest: arg_cong [of _ _ length] split: if_splits)
      (metis impossible_Cons length_dropWhile_le)
    then show ?thesis using Cons by (simp add: TrimLeft_def)
  qed (simp add: TrimLeft_def)
  moreover have "TrimRight ?t ''/'' = ?t" by (simp add: Trim_def TrimRight_def idem)
  moreover have "Trim (''/'' @ ?t @ ''/'') ''/'' = TrimRight (TrimLeft (?t @ ''/'') ''/'') ''/''" unfolding Trim_def [of "''/'' @ _"] left ..
  ultimately show ?thesis using right by (auto simp: TrimRight_def)
qed

definition route_prefix_ok :: "string \<Rightarrow> bool" where
  "route_prefix_ok p \<longleftrightarrow> HasPrefix p ''/'' \<and> HasSuffix p ''/'' \<and> normalizeRoutePrefix p = Inr p"

lemma set_dropWhile: "set (dropWhile P xs) \<subseteq> set xs"
  by (auto dest: set_dropWhileD)

lemma set_Trim: "set (Trim v cutset) \<subseteq> set v"
  unfolding Trim_def TrimLeft_def TrimRight_def set_rev by (rule order_trans [OF set_dropWhile]) (simp add: set_dropWhile)

lemma normalizeRoutePrefix_ok: "normalizeRoutePrefix v = Inr p \<Longrightarrow> route_prefix_ok p"
proof -
  assume n: "normalizeRoutePrefix v = Inr p"
  then have p: "p = ''/'' @ Trim v ''/'' @ ''/''" and v: "\<not> ContainsAny v ''?#''"
    by (auto simp: normalizeRoutePrefix_def split: if_splits)
  have "\<not> ContainsAny p ''?#''" using v set_Trim [of v "''/''"] by (auto simp: ContainsAny_def list_ex_iff p)
  then show "route_prefix_ok p" using Trim_slash [of v] by (simp add: normalizeRoutePrefix_def route_prefix_ok_def HasPrefix_def HasSuffix_def p)
qed

text \<open>A run configuration that is accepted keeps its limits: between 1 and 16 workers, between 1
  and 16 retries, no negative interval, not both kinds of credentials. Its route prefixes begin
  and end with a slash, are unchanged by normalizing again and differ from each other. Its client
  always has a timeout and never follows a redirect to another origin than that of the base
  URL, however the caller configured it.\<close>

theorem prewarm_config_safe:
  assumes "normalizeRunConfig lib cfg = Inr n"
  shows "1 \<le> pw_Concurrency n \<and> pw_Concurrency n \<le> 16 \<and> 1 \<le> pw_RateLimitRetries n \<and> pw_RateLimitRetries n \<le> 16 \<and>
    0 \<le> pw_MinRequestInterval n \<and> (pw_BearerToken n = [] \<or> pw_BasicUsername n = []) \<and>
    (pw_BasicUsername n = [] \<longleftrightarrow> pw_BasicPassword n = []) \<and> route_prefix_ok (pw_RoutePrefix n) \<and>
    (pw_PluginRoutePrefix n = [] \<or> route_prefix_ok (pw_PluginRoutePrefix n) \<and> pw_PluginRoutePrefix n \<noteq> pw_RoutePrefix n) \<and>
    (\<exists>client check parsed. pw_HTTPClient n = Some client \<and> 0 < hc_Timeout client \<and> hc_CheckRedirect client = Some check \<and>
       clib_ParseRequestURI (ul_conf lib) (TrimSpace (pw_BaseURL cfg)) = Inr parsed \<and>
       (\<forall>u via. url_origin u \<noteq> url_origin parsed \<longrightarrow> check u via \<noteq> None))"
proof -
  obtain parsed c1 c2 where parsed: "clib_ParseRequestURI (ul_conf lib) (TrimSpace (pw_BaseURL cfg)) = Inr parsed"
    and c1: "check_limits cfg = Inr c1" and c2: "check_prefixes c1 = Inr c2"
    and n: "n = c2\<lparr>pw_BaseURL := TrimRight (ul_String lib parsed) ''/'',
        pw_HTTPClient := Some (prewarm_client (url_origin parsed) (pw_HTTPClient c2))\<rparr>"
    using assms by (auto simp: normalizeRunConfig_def split: sum.splits if_splits)
  have limits: "1 \<le> pw_Concurrency c1 \<and> pw_Concurrency c1 \<le> 16 \<and> 1 \<le> pw_RateLimitRetries c1 \<and> pw_RateLimitRetries c1 \<le> 16 \<and>
      0 \<le> pw_MinRequestInterval c1 \<and> (pw_BearerToken c1 = [] \<or> pw_BasicUsername c1 = []) \<and>
      (pw_BasicUsername c1 = [] \<longleftrightarrow> pw_BasicPassword c1 = [])"
    using c1 by (auto simp: check_limits_def Let_def split: if_splits)
  have same: "pw_Concurrency c2 = pw_Concurrency c1" "pw_RateLimitRetries c2 = pw_RateLimitRetries c1" "pw_MinRequestInterval c2 = pw_MinRequestInterval c1"
      "pw_BearerToken c2 = pw_BearerToken c1" "pw_BasicUsername c2 = pw_BasicUsername c1" "pw_BasicPassword c2 = pw_BasicPassword c1"
    using c2 by (auto simp: check_prefixes_def split: sum.splits if_splits)
  have "route_prefix_ok (pw_RoutePrefix c2) \<and> (pw_PluginRoutePrefix c2 = [] \<or> route_prefix_ok (pw_PluginRoutePrefix c2) \<and> pw_PluginRoutePrefix c2 \<noteq> pw_RoutePrefix c2)"
    using c2 by (auto simp: check_prefixes_def dest!: normalizeRoutePrefix_ok split: sum.splits if_splits)
  moreover have "0 < hc_Timeout (prewarm_client org c)" for org c
    by (simp add: prewarm_client_def Let_def split: option.splits)
  moreover have "\<exists>check. hc_CheckRedirect (prewarm_client org c) = Some check \<and> (\<forall>u via. url_origin u \<noteq> org \<longrightarrow> check u via \<noteq> None)" for org c
    by (simp add: prewarm_client_def Let_def prewarm_checkRedirect_def)
  ultimately show ?thesis using limits parsed same unfolding n by simp blast
qed

section \<open>Resuming from a checkpoint\<close>

text \<open>What the checkpoint relies on of encoding/json: the file is read back as it was written, but
  for the order of the map.\<close>

definition ascii_entries :: "(string, checkpointEntry) gomap \<Rightarrow> bool" where
  "ascii_entries es \<longleftrightarrow> list_all (\<lambda>(p, e). ascii p \<and> ascii (ce_Route e) \<and> ascii (ce_Status e)) es"

definition json_reads_back :: "ck_lib \<Rightarrow> bool" where
  "json_reads_back lib \<longleftrightarrow> (\<forall>f b. ckl_marshal lib f = Inr b \<longrightarrow> ascii (cf_ManifestSHA256 f) \<longrightarrow> ascii_entries (cf_Completed f) \<longrightarrow>
     distinct (map fst (cf_Completed f)) \<longrightarrow>
     (\<exists>es. ckl_unmarshal lib b = Inr (f\<lparr>cf_Completed := es\<rparr>) \<and> mset es = mset (cf_Completed f)))"

definition entry_ok :: "RunConfig \<Rightarrow> Artifact list \<Rightarrow> string \<times> checkpointEntry \<Rightarrow> bool" where
  "entry_ok cfg artifacts pe \<longleftrightarrow> map_of (valid_routes cfg artifacts) (fst pe) = Some (ce_Route (snd pe)) \<and>
     (ce_Status (snd pe) = ''HIT'' \<or> ce_Status (snd pe) = ''MISS'')"

lemma map_of_fold_update:
  "map_of (fold (\<lambda>(k, v). AList.update k v) kvs al) = foldl (\<lambda>m (k, v). m(k \<mapsto> v)) (map_of al) kvs"
  by (induction kvs arbitrary: al) (auto simp: update_conv')

lemma foldl_upd_distinct: "distinct (map fst kvs) \<Longrightarrow> foldl (\<lambda>m (k, v). m(k \<mapsto> v)) m kvs = m ++ map_of kvs"
proof (induction kvs arbitrary: m)
  case (Cons kv kvs)
  then show ?case by (cases kv) (auto simp: map_of_eq_None_iff [symmetric] map_add_def fun_eq_iff split: option.splits)
qed simp

lemma check_completed_iff:
  "check_completed (valid_routes cfg artifacts) es acc = Inr es' \<longleftrightarrow>
     list_all (entry_ok cfg artifacts) es \<and> es' = fold (\<lambda>(k, v). AList.update k v) es acc"
proof (induction es arbitrary: acc)
  case (Cons pe es)
  then show ?case by (cases pe) (auto simp: entry_ok_def split: option.splits)
qed auto

lemma distinct_fold_update: "distinct (map fst al) \<Longrightarrow> distinct (map fst (fold (\<lambda>(k, v). AList.update k v) kvs al))"
  by (induction kvs arbitrary: al) (auto simp: distinct_update)

lemma map_of_valid_routes:
  assumes "distinct (map art_Path artifacts)" and "a \<in> set artifacts"
  shows "map_of (valid_routes cfg artifacts) (art_Path a) = Some (artifact_route cfg a)"
proof -
  have "valid_routes cfg artifacts = fold (\<lambda>(k, v). AList.update k v) (map (\<lambda>a. (art_Path a, artifact_route cfg a)) artifacts) []"
    by (simp add: valid_routes_def fold_map comp_def)
  then have "map_of (valid_routes cfg artifacts) = map_of (map (\<lambda>a. (art_Path a, artifact_route cfg a)) artifacts)"
    using assms(1) by (simp add: map_of_fold_update foldl_upd_distinct comp_def)
  moreover have "map_of (map (\<lambda>a. (art_Path a, artifact_route cfg a)) artifacts) (art_Path a) = Some (artifact_route cfg a)"
    using assms by (intro map_of_is_SomeI) (auto simp: comp_def)
  ultimately show ?thesis by simp
qed

text \<open>The entries in memory are those of artifacts of this run.\<close>

definition ck_inv :: "ck_lib \<Rightarrow> RunConfig \<Rightarrow> Artifact list \<Rightarrow> checkpoint \<Rightarrow> bool" where
  "ck_inv lib cfg artifacts c \<longleftrightarrow> fingerprintManifest lib cfg artifacts = Inr (ck_manifestSHA256 c) \<and> ck_path c \<noteq> [] \<and>
     distinct (map fst (ck_entries c)) \<and> list_all (entry_ok cfg artifacts) (ck_entries c)"

lemma list_all_update:
  "list_all P (AList.update k v al)" if "list_all P al" "P (k, v)"
  using that by (induction al) auto

lemma fold_update_ok: "list_all P es \<Longrightarrow> list_all P acc \<Longrightarrow> list_all P (fold (\<lambda>(k, v). AList.update k v) es acc)"
  by (induction es arbitrary: acc) (auto intro: list_all_update)

lemma load_inv: "loadCheckpoint lib io files path cfg artifacts = Inr (Some c) \<Longrightarrow> ck_inv lib cfg artifacts c \<and> ck_path c = path"
  by (auto simp: loadCheckpoint_def ck_inv_def check_completed_iff intro!: distinct_fold_update fold_update_ok
      split: if_splits sum.splits option.splits)

text \<open>A run records artifact after artifact and stops at the first save that fails.\<close>

fun record_all :: "ck_lib \<Rightarrow> RunConfig \<Rightarrow> (faults \<times> Artifact \<times> string) list \<Rightarrow> checkpoint \<Rightarrow> disk
    \<Rightarrow> string option \<times> checkpoint \<times> disk" where
  "record_all lib cfg [] c files = (None, c, files)"
| "record_all lib cfg ((io, a, status) # rs) c files =
     (case checkpoint_record lib io a (artifact_route cfg a) status c files of
        (Some e, c, files) \<Rightarrow> (Some e, c, files)
      | (None, c, files) \<Rightarrow> record_all lib cfg rs c files)"

text \<open>The entries after some records.\<close>

definition marked :: "RunConfig \<Rightarrow> (faults \<times> Artifact \<times> string) list \<Rightarrow> (string \<rightharpoonup> checkpointEntry) \<Rightarrow> string \<rightharpoonup> checkpointEntry" where
  "marked cfg rs m = foldl (\<lambda>m (io, a, status). m(art_Path a \<mapsto> \<lparr>ce_Route = artifact_route cfg a, ce_Status = status\<rparr>)) m rs"

definition ascii_run :: "ck_lib \<Rightarrow> RunConfig \<Rightarrow> Artifact list \<Rightarrow> bool" where
  "ascii_run lib cfg artifacts \<longleftrightarrow> list_all (ascii \<circ> art_Path) artifacts \<and> ascii (pw_RoutePrefix cfg) \<and> ascii (pw_PluginRoutePrefix cfg) \<and>
     (\<forall>data. ascii (ckl_sha256 lib data))"

lemma entries_ascii:
  assumes ok: "list_all (entry_ok cfg artifacts) es" and "ascii_run lib cfg artifacts"
  shows "ascii_entries es"
proof -
  have "map_of (fold (\<lambda>a. AList.update (art_Path a) (artifact_route cfg a)) as al) p = Some r \<Longrightarrow>
      map_of al p = Some r \<or> (\<exists>a\<in>set as. p = art_Path a \<and> r = artifact_route cfg a)" for as al p r
    by (induction as arbitrary: al) (fastforce simp: update_conv' split: if_splits)+
  from this [of artifacts "[]"]
  have dom: "map_of (valid_routes cfg artifacts) p = Some r \<Longrightarrow> \<exists>a\<in>set artifacts. p = art_Path a \<and> r = artifact_route cfg a" for p r
    by (simp add: valid_routes_def)
  have hm: "ascii ''HIT''" "ascii ''MISS''" by (simp_all add: ascii_def)
  show ?thesis
    using assms hm by (auto simp: ascii_entries_def entry_ok_def list_all_iff ascii_run_def artifact_route_def dest!: dom bspec split: if_splits)
qed

lemma saved_loads:
  assumes json: "json_reads_back lib" and inv: "ck_inv lib cfg artifacts c" and asc: "ascii_run lib cfg artifacts"
    and save: "saveLocked lib io c files = (None, files')" and io: "io' ''readfile'' = None"
  shows "\<exists>c'. loadCheckpoint lib io' files' (ck_path c) cfg artifacts = Inr (Some c') \<and> map_of (ck_entries c') = map_of (ck_entries c)"
proof -
  let ?f = "\<lparr>cf_Version = checkpointVersion, cf_ManifestSHA256 = ck_manifestSHA256 c, cf_Completed = ck_entries c\<rparr>"
  obtain data where data: "ckl_marshal lib ?f = Inr data" "files' = files(ck_path c \<mapsto> data)"
    using save by (auto simp: saveLocked_def split: sum.splits option.splits)
  have entries: "list_all (entry_ok cfg artifacts) (ck_entries c)" "distinct (map fst (ck_entries c))"
    and man: "fingerprintManifest lib cfg artifacts = Inr (ck_manifestSHA256 c)" and path: "ck_path c \<noteq> []"
    using inv by (auto simp: ck_inv_def)
  have "\<exists>data. ck_manifestSHA256 c = ckl_sha256 lib data" using man by (auto simp: fingerprintManifest_def split: sum.splits intro: sym)
  then have "ascii (ck_manifestSHA256 c)" using asc by (auto simp: ascii_run_def)
  then obtain es where es: "ckl_unmarshal lib data = Inr (?f\<lparr>cf_Completed := es\<rparr>)" "mset es = mset (ck_entries c)"
    using json data(1) entries(2) entries_ascii [OF entries(1) asc] unfolding json_reads_back_def by (metis checkpointFile.select_convs(2,3))
  have "mset (map fst es) = mset (map fst (ck_entries c))" using es(2) by (simp only: mset_map)
  then have dist: "distinct (map fst es)" using entries(2) mset_eq_imp_distinct_iff by blast
  have set_eq: "set es = set (ck_entries c)" using es(2) by (rule mset_eq_setD)
  then have eq: "map_of es = map_of (ck_entries c)" using dist entries(2) by (simp add: map_of_inject_set)
  have ok: "list_all (entry_ok cfg artifacts) es" using entries(1) set_eq by (simp add: list_all_iff)
  have "check_completed (valid_routes cfg artifacts) es [] = Inr (fold (\<lambda>(k, v). AList.update k v) es [])"
    using ok check_completed_iff by blast
  then show ?thesis
    using es(1) data(2) man io path dist by (simp add: loadCheckpoint_def map_of_fold_update foldl_upd_distinct eq)
qed

lemma record_keeps_inv:
  assumes "checkpoint_record lib io a (artifact_route cfg a) status c files = (err, c', files')" and inv: "ck_inv lib cfg artifacts c"
    and "distinct (map art_Path artifacts)" and "a \<in> set artifacts" and "status = ''HIT'' \<or> status = ''MISS''"
  shows "ck_inv lib cfg artifacts c' \<and> ck_path c' = ck_path c \<and> map_of (ck_entries c') = marked cfg [(io, a, status)] (map_of (ck_entries c)) \<and>
    saveLocked lib io c' files = (err, files')"
  using assms map_of_valid_routes [OF assms(3,4), of cfg]
  by (auto simp: checkpoint_record_def Let_def ck_inv_def marked_def entry_ok_def update_conv' split: prod.splits intro!: distinct_update list_all_update)

lemma record_all_loads:
  assumes "json_reads_back lib" and "ascii_run lib cfg artifacts" and "distinct (map art_Path artifacts)" and io: "io' ''readfile'' = None"
    and "\<forall>(io, a, status)\<in>set rs. a \<in> set artifacts \<and> (status = ''HIT'' \<or> status = ''MISS'')"
    and "ck_inv lib cfg artifacts c" and "record_all lib cfg rs c files = (err, c', files')"
    and "loadCheckpoint lib io' files (ck_path c) cfg artifacts = Inr (Some d)" and "map_of (ck_entries d) = map_of (ck_entries c)"
  shows "\<exists>d' k. loadCheckpoint lib io' files' (ck_path c) cfg artifacts = Inr (Some d') \<and> k \<le> length rs \<and> (err = None \<longrightarrow> k = length rs) \<and>
    map_of (ck_entries d') = marked cfg (take k rs) (map_of (ck_entries c))"
  using assms(5-)
proof (induction rs arbitrary: c d files)
  case Nil
  then show ?case by (auto simp: marked_def)
next
  case (Cons r rs)
  obtain io a status where r: "r = (io, a, status)" by (cases r)
  obtain e c1 files1 where rec: "checkpoint_record lib io a (artifact_route cfg a) status c files = (e, c1, files1)" by (metis prod_cases3)
  have ok: "a \<in> set artifacts" "status = ''HIT'' \<or> status = ''MISS''" using Cons.prems(1) r by auto
  note c1 = record_keeps_inv [OF rec Cons.prems(2) assms(3) ok]
  show ?case
  proof (cases e)
    case (Some msg)
    then have "files1 = files" using c1 by (auto simp: saveLocked_def split: sum.splits option.splits)
    moreover have "err = Some msg" "files' = files1" using Some rec r Cons.prems(3) by auto
    ultimately show ?thesis using Cons.prems(4,5) by (intro exI [of _ d] exI [of _ 0]) (simp add: marked_def)
  next
    case None
    then obtain d1 where d1: "loadCheckpoint lib io' files1 (ck_path c1) cfg artifacts = Inr (Some d1)" "map_of (ck_entries d1) = map_of (ck_entries c1)"
      using saved_loads [of lib cfg artifacts c1 io files files1 io'] assms(1,2) io c1 by auto
    have rest: "record_all lib cfg rs c1 files1 = (err, c', files')" using Cons.prems(3) r rec None by simp
    obtain d' k where "loadCheckpoint lib io' files' (ck_path c1) cfg artifacts = Inr (Some d')" "k \<le> length rs" "err = None \<longrightarrow> k = length rs"
      "map_of (ck_entries d') = marked cfg (take k rs) (map_of (ck_entries c1))"
      using Cons.IH [OF _ _ rest d1] Cons.prems(1) c1 by auto
    then show ?thesis using c1 r by (intro exI [of _ d'] exI [of _ "Suc k"]) (simp add: marked_def)
  qed
qed


section \<open>An example\<close>

definition example_run :: RunConfig where
  "example_run = \<lparr>pw_BaseURL = ''http://h'', pw_RoutePrefix = ''/maven/'', pw_PluginRoutePrefix = [], pw_Concurrency = 1, pw_MinRequestInterval = 0,
     pw_RateLimitRetries = 1, pw_StateFile = ''s'', pw_HTTPClient = None, pw_BearerToken = [], pw_BasicUsername = [], pw_BasicPassword = [],
     pw_progress = True, pw_pass = 0, pw_total = 0, pw_attempt = 0\<rparr>"

definition example_jar :: Artifact where
  "example_jar = \<lparr>art_Coordinate = ''g:n:1'', art_Path = ''g/n/1/n-1.jar'', art_SHA256 = [example_key], art_pluginMarker = False\<rparr>"

definition example_checkpoint :: checkpointFile where
  "example_checkpoint = \<lparr>cf_Version = 1, cf_ManifestSHA256 = ''d'', cf_Completed = [(''g/n/1/n-1.jar'', \<lparr>ce_Route = ''/maven/'', ce_Status = ''MISS''\<rparr>)]\<rparr>"

definition example_ck_lib :: ck_lib where
  "example_ck_lib = \<lparr>ckl_marshalManifest = (\<lambda>_. Inr ''m''), ckl_marshal = (\<lambda>f. if f = example_checkpoint then Inr ''c'' else Inl ''e''),
     ckl_unmarshal = (\<lambda>b. if b = ''c'' then Inr example_checkpoint else Inl ''e''), ckl_sha256 = (\<lambda>_. ''d'')\<rparr>"

lemma example_normalized: "normalizeRunConfig (example_url_lib\<lparr>ul_conf := ul_conf example_url_lib\<lparr>clib_ParseRequestURI := \<lambda>_. Inr
    \<lparr>u_Scheme = ''http'', u_Host = ''h'', u_HasUser = False, u_Path = [], u_RawQuery = [], u_ForceQuery = False, u_Fragment = []\<rparr>\<rparr>\<rparr>) example_run \<noteq> Inl e"
  by (simp add: normalizeRunConfig_def check_limits_def check_prefixes_def normalizeRoutePrefix_def example_run_def HasPrefix_def ContainsAny_def)

theorem prewarm_config_safe_witness:
  "\<exists>lib n. normalizeRunConfig lib example_run = Inr n \<and> 1 \<le> pw_Concurrency n \<and> pw_Concurrency n \<le> 16"
proof -
  let ?lib = "example_url_lib\<lparr>ul_conf := ul_conf example_url_lib\<lparr>clib_ParseRequestURI := \<lambda>_. Inr
    \<lparr>u_Scheme = ''http'', u_Host = ''h'', u_HasUser = False, u_Path = [], u_RawQuery = [], u_ForceQuery = False, u_Fragment = []\<rparr>\<rparr>\<rparr>"
  obtain n where n: "normalizeRunConfig ?lib example_run = Inr n"
    using example_normalized by (metis sum.exhaust)
  from prewarm_config_safe [OF n] n show ?thesis by blast
qed


end
