(* ===== verification/Progress.thy ===== *)
theory Progress
  imports Checkpoint
begin

text \<open>
  The progress log of a prewarm run (prewarm/progress.go). An event is encoded as one line; the
  logger keeps the totals of the current pass and the first error of its encoder, after which it
  is silent. The mutex makes every emit one step; the clock and the encoder's answer are given
  with the event. Counters are int64 and wrap.
\<close>

record progressEvent =
  pe_Time :: time
  pe_Event :: string
  pe_Pass :: int
  pe_Artifact :: string
  pe_Route :: string
  pe_Attempt :: int
  pe_Completed :: int
  pe_Total :: int
  pe_ElapsedMS :: int
  pe_PacingMS :: int
  pe_HeadersMS :: int
  pe_BodyMS :: int
  pe_Bytes :: int
  pe_HTTPStatus :: int
  pe_CacheStatus :: string
  pe_RequestID :: string
  pe_RetryDelayMS :: int
  pe_RetryAfter :: bool
  pe_Outcome :: string
  pe_Requests :: int
  pe_Retries :: int
  pe_RetryWaitMS :: int

text \<open>A literal that names some fields leaves the others zero.\<close>

definition zero_event :: progressEvent where
  "zero_event = \<lparr>pe_Time = 0, pe_Event = [], pe_Pass = 0, pe_Artifact = [], pe_Route = [], pe_Attempt = 0, pe_Completed = 0, pe_Total = 0,
     pe_ElapsedMS = 0, pe_PacingMS = 0, pe_HeadersMS = 0, pe_BodyMS = 0, pe_Bytes = 0, pe_HTTPStatus = 0, pe_CacheStatus = [], pe_RequestID = [],
     pe_RetryDelayMS = 0, pe_RetryAfter = False, pe_Outcome = [], pe_Requests = 0, pe_Retries = 0, pe_RetryWaitMS = 0\<rparr>"

record passTotals =
  pt_requests :: int
  pt_retries :: int
  pt_retryWaitMS :: int
  pt_pacingMS :: int
  pt_headersMS :: int
  pt_bodyMS :: int

definition zero_totals :: passTotals where
  "zero_totals = \<lparr>pt_requests = 0, pt_retries = 0, pt_retryWaitMS = 0, pt_pacingMS = 0, pt_headersMS = 0, pt_bodyMS = 0\<rparr>"

text \<open>The encoder's output is the list of the events it was given.\<close>

record progressLogger =
  pl_encoded :: "progressEvent list"
  pl_err :: "string option"
  pl_totals :: passTotals

definition newProgressLogger :: "bool \<Rightarrow> progressLogger option" where
  "newProgressLogger output =
     (if \<not> output then None else Some \<lparr>pl_encoded = [], pl_err = None, pl_totals = zero_totals\<rparr>)"

definition add_totals :: "progressEvent \<Rightarrow> passTotals \<Rightarrow> passTotals" where
  "add_totals e t =
     (if pe_Event e = ''pass_start'' then zero_totals
      else if pe_Event e = ''request_end'' then
        t\<lparr>pt_requests := int64 (pt_requests t + 1), pt_pacingMS := int64 (pt_pacingMS t + pe_PacingMS e),
          pt_headersMS := int64 (pt_headersMS t + pe_HeadersMS e), pt_bodyMS := int64 (pt_bodyMS t + pe_BodyMS e)\<rparr>
      else if pe_Event e = ''retry_wait'' then
        t\<lparr>pt_retries := int64 (pt_retries t + 1), pt_retryWaitMS := int64 (pt_retryWaitMS t + pe_RetryDelayMS e)\<rparr>
      else t)"

definition event_totals :: "passTotals \<Rightarrow> progressEvent \<Rightarrow> progressEvent" where
  "event_totals t e =
     (if pe_Event e = ''pass_end'' then
        e\<lparr>pe_Requests := pt_requests t, pe_Retries := pt_retries t, pe_RetryWaitMS := pt_retryWaitMS t,
          pe_PacingMS := pt_pacingMS t, pe_HeadersMS := pt_headersMS t, pe_BodyMS := pt_bodyMS t\<rparr>
      else e)"

definition emit :: "RunConfig \<Rightarrow> time \<Rightarrow> string option \<Rightarrow> progressEvent \<Rightarrow> progressLogger option \<Rightarrow> progressLogger option" where
  "emit cfg now encodeErr e logger =
     (case logger of
        None \<Rightarrow> None
      | Some l \<Rightarrow>
          if pl_err l \<noteq> None then Some l
          else let totals = add_totals e (pl_totals l);
                   e = (event_totals totals e)\<lparr>pe_Time := now, pe_Pass := pw_pass cfg, pe_Total := pw_total cfg, pe_Attempt := pw_attempt cfg\<rparr>
               in Some \<lparr>pl_encoded = pl_encoded l @ [e], pl_err = encodeErr, pl_totals = totals\<rparr>)"

section \<open>What a pass_end event reports\<close>

text \<open>The events of a pass as they come from all workers, each with its configuration, the time and the
  encoder's answer.\<close>

fun emit_all :: "(RunConfig \<times> time \<times> string option \<times> progressEvent) list \<Rightarrow> progressLogger option \<Rightarrow> progressLogger option" where
  "emit_all [] l = l"
| "emit_all ((cfg, now, encodeErr, e) # es) l = emit_all es (emit cfg now encodeErr e l)"

abbreviation events :: "(RunConfig \<times> time \<times> string option \<times> progressEvent) list \<Rightarrow> progressEvent list" where
  "events es \<equiv> map (\<lambda>(_, _, _, e). e) es"

definition field_sum :: "string \<Rightarrow> (progressEvent \<Rightarrow> int) \<Rightarrow> progressEvent list \<Rightarrow> int" where
  "field_sum name f es = sum_list (map f (filter (\<lambda>e. pe_Event e = name) es))"

lemma field_sum_simps [simp]:
  "field_sum name f [] = 0" "field_sum name f (e # es) = (if pe_Event e = name then f e else 0) + field_sum name f es"
  by (simp_all add: field_sum_def)

lemma int64_add: "int64 (int64 x + y) = int64 (x + y)"
proof -
  have "(int64 x + y + 2 ^ 63) mod 2 ^ 64 = ((x + 2 ^ 63) mod 2 ^ 64 + y) mod 2 ^ 64"
    by (simp add: int64_def algebra_simps)
  also have "\<dots> = (x + 2 ^ 63 + y) mod 2 ^ 64" by (rule mod_add_left_eq)
  also have "\<dots> = (x + y + 2 ^ 63) mod 2 ^ 64" by (simp add: ac_simps)
  finally show ?thesis by (simp add: int64_def)
qed

definition totals_of :: "progressEvent list \<Rightarrow> passTotals" where
  "totals_of es = \<lparr>pt_requests = int64 (field_sum ''request_end'' (\<lambda>_. 1) es), pt_retries = int64 (field_sum ''retry_wait'' (\<lambda>_. 1) es),
     pt_retryWaitMS = int64 (field_sum ''retry_wait'' pe_RetryDelayMS es), pt_pacingMS = int64 (field_sum ''request_end'' pe_PacingMS es),
     pt_headersMS = int64 (field_sum ''request_end'' pe_HeadersMS es), pt_bodyMS = int64 (field_sum ''request_end'' pe_BodyMS es)\<rparr>"

lemma field_sum_append [simp]: "field_sum name f (es @ ds) = field_sum name f es + field_sum name f ds"
  by (simp add: field_sum_def)

lemma add_totals_of: "pe_Event e \<noteq> ''pass_start'' \<Longrightarrow> add_totals e (totals_of es) = totals_of (es @ [e])"
  by (auto simp: add_totals_def totals_of_def int64_add)

lemma totals_of_nil: "zero_totals = totals_of []"
  by (simp add: totals_of_def zero_totals_def int64_def)

lemma emit_all_totals:
  assumes "\<forall>(_, _, err, e)\<in>set es. err = None \<and> pe_Event e \<noteq> ''pass_start''"
  shows "\<exists>out. emit_all es (Some \<lparr>pl_encoded = out0, pl_err = None, pl_totals = totals_of ds\<rparr>) =
      Some \<lparr>pl_encoded = out0 @ out, pl_err = None, pl_totals = totals_of (ds @ events es)\<rparr> \<and> length out = length es"
  using assms
proof (induction es arbitrary: out0 ds)
  case (Cons x es)
  obtain cfg now err e where x: "x = (cfg, now, err, e)" by (cases x)
  have "err = None" "pe_Event e \<noteq> ''pass_start''" using Cons.prems x by auto
  then have "\<exists>e'. emit cfg now err e (Some \<lparr>pl_encoded = out0, pl_err = None, pl_totals = totals_of ds\<rparr>) =
      Some \<lparr>pl_encoded = out0 @ [e'], pl_err = None, pl_totals = totals_of (ds @ [e])\<rparr>"
    by (simp add: emit_def Let_def add_totals_of)
  then obtain e' where e': "emit cfg now err e (Some \<lparr>pl_encoded = out0, pl_err = None, pl_totals = totals_of ds\<rparr>) =
      Some \<lparr>pl_encoded = out0 @ [e'], pl_err = None, pl_totals = totals_of (ds @ [e])\<rparr>" ..
  obtain out where "emit_all es (Some \<lparr>pl_encoded = out0 @ [e'], pl_err = None, pl_totals = totals_of (ds @ [e])\<rparr>) =
      Some \<lparr>pl_encoded = (out0 @ [e']) @ out, pl_err = None, pl_totals = totals_of ((ds @ [e]) @ events es)\<rparr>" "length out = length es"
    using Cons.IH [of "out0 @ [e']" "ds @ [e]"] Cons.prems by auto
  then show ?case using e' x by (intro exI [of _ "e' # out"]) simp
qed simp

text \<open>The pass_end line accounts for its pass. Whatever the logger wrote before, if a pass_start
  event, then any events of the pass in any order of the workers, then a pass_end event are
  emitted and the encoder does not fail, one line is written for each event, and the last one
  reports as requests the number of request_end events of this pass, as retries the number of
  retry_wait events, and as waiting, pacing, headers and body time the sums over these events,
  in int64; nothing of an earlier pass is counted.\<close>

theorem progress_accounts:
  assumes mid: "\<forall>(_, _, err, e)\<in>set es. err = None \<and> pe_Event e \<noteq> ''pass_start''"
    and l: "l = Some \<lparr>pl_encoded = out0, pl_err = None, pl_totals = t0\<rparr>"
    and first: "pe_Event e1 = ''pass_start''" and final: "pe_Event e2 = ''pass_end''"
  shows "\<exists>out e. emit_all ((c1, n1, None, e1) # es @ [(c2, n2, None, e2)]) l =
      Some \<lparr>pl_encoded = out0 @ out @ [e], pl_err = None, pl_totals = totals_of (events es)\<rparr> \<and> length out = Suc (length es) \<and>
    pe_Event e = ''pass_end'' \<and> pe_Requests e = int64 (int (length (filter (\<lambda>e. pe_Event e = ''request_end'') (events es)))) \<and>
    pe_Retries e = int64 (int (length (filter (\<lambda>e. pe_Event e = ''retry_wait'') (events es)))) \<and>
    pe_RetryWaitMS e = int64 (field_sum ''retry_wait'' pe_RetryDelayMS (events es)) \<and>
    pe_PacingMS e = int64 (field_sum ''request_end'' pe_PacingMS (events es)) \<and>
    pe_HeadersMS e = int64 (field_sum ''request_end'' pe_HeadersMS (events es)) \<and>
    pe_BodyMS e = int64 (field_sum ''request_end'' pe_BodyMS (events es)) \<and> pe_Pass e = pw_pass c2 \<and> pe_Total e = pw_total c2"
proof -
  have app: "emit_all (xs @ ys) l = emit_all ys (emit_all xs l)" for xs ys l
    by (induction xs l rule: emit_all.induct) auto
  obtain e' where start: "emit c1 n1 None e1 l = Some \<lparr>pl_encoded = out0 @ [e'], pl_err = None, pl_totals = totals_of []\<rparr>"
    using l first by (simp add: emit_def Let_def add_totals_def totals_of_nil)
  obtain out where body: "emit_all es (Some \<lparr>pl_encoded = out0 @ [e'], pl_err = None, pl_totals = totals_of []\<rparr>) =
      Some \<lparr>pl_encoded = (out0 @ [e']) @ out, pl_err = None, pl_totals = totals_of (events es)\<rparr>" "length out = length es"
    using emit_all_totals [OF mid, of "out0 @ [e']" "[]"] by auto
  have count: "field_sum name (\<lambda>_. 1) ds = int (length (filter (\<lambda>e. pe_Event e = name) ds))" for name ds
    by (induction ds) auto
  define e where "e = (event_totals (totals_of (events es)) e2)\<lparr>pe_Time := n2, pe_Pass := pw_pass c2,
    pe_Total := pw_total c2, pe_Attempt := pw_attempt c2\<rparr>"
  have "emit c2 n2 None e2 (Some \<lparr>pl_encoded = (out0 @ [e']) @ out, pl_err = None, pl_totals = totals_of (events es)\<rparr>) =
      Some \<lparr>pl_encoded = out0 @ (e' # out) @ [e], pl_err = None, pl_totals = totals_of (events es)\<rparr>"
    using final by (simp add: emit_def Let_def add_totals_def e_def)
  then have "emit_all ((c1, n1, None, e1) # es @ [(c2, n2, None, e2)]) l =
      Some \<lparr>pl_encoded = out0 @ (e' # out) @ [e], pl_err = None, pl_totals = totals_of (events es)\<rparr>"
    by (simp add: app start body(1) del: append_assoc)
  moreover have "event_totals (totals_of (events es)) e2 = e2\<lparr>pe_Requests := pt_requests (totals_of (events es)),
      pe_Retries := pt_retries (totals_of (events es)), pe_RetryWaitMS := pt_retryWaitMS (totals_of (events es)),
      pe_PacingMS := pt_pacingMS (totals_of (events es)), pe_HeadersMS := pt_headersMS (totals_of (events es)), pe_BodyMS := pt_bodyMS (totals_of (events es))\<rparr>"
    using final by (simp add: event_totals_def)
  then have "pe_Event e = ''pass_end''" "pe_Requests e = pt_requests (totals_of (events es))" "pe_Retries e = pt_retries (totals_of (events es))"
    "pe_RetryWaitMS e = pt_retryWaitMS (totals_of (events es))" "pe_PacingMS e = pt_pacingMS (totals_of (events es))"
    "pe_HeadersMS e = pt_headersMS (totals_of (events es))" "pe_BodyMS e = pt_bodyMS (totals_of (events es))"
    "pe_Pass e = pw_pass c2" "pe_Total e = pw_total c2"
    unfolding e_def using final by simp_all
  ultimately show ?thesis
    by (intro exI [of _ "e' # out"] exI [of _ e]) (simp add: totals_of_def count body(2))
qed

theorem progress_accounts_witness:
  "\<exists>l. emit_all ((example_run, 0, None, zero_event\<lparr>pe_Event := ''pass_start''\<rparr>) #
      [(example_run, 1, None, zero_event\<lparr>pe_Event := ''request_end'', pe_BodyMS := 7\<rparr>)] @
      [(example_run, 2, None, zero_event\<lparr>pe_Event := ''pass_end''\<rparr>)]) (newProgressLogger True) = Some l \<and>
     pe_Requests (last (pl_encoded l)) = 1 \<and> pe_BodyMS (last (pl_encoded l)) = 7"
  using progress_accounts [of "[(example_run, 1, None, zero_event\<lparr>pe_Event := ''request_end'', pe_BodyMS := 7\<rparr>)]" "newProgressLogger True" "[]" zero_totals
      "zero_event\<lparr>pe_Event := ''pass_start''\<rparr>" "zero_event\<lparr>pe_Event := ''pass_end''\<rparr>" example_run 0 example_run 2]
  by (auto simp: newProgressLogger_def int64_def)

end
