(* ===== verification/Prewarm.thy ===== *)
theory Prewarm
  imports Progress
begin

text \<open>
  Prewarming a cache (prewarm/prewarm.go): a run fetches every artifact of a manifest through the
  proxy twice, checks its SHA-256 and, the second time, that it came from the cache. A pass is a
  system of workers fed over a channel; its steps are the actions of the sender and of the workers,
  and a schedule is a list of actions. What an attempt meets, the clock, the pacing wait, the answer
  to its request, is a function of artifact, attempt and route. url.JoinPath, request construction,
  crypto/sha256 and base64 are parameters. The events a fetch emits are part of its result; the
  events of a pass are left out of its state. Values in error messages are not quoted.
\<close>

section \<open>Pacing\<close>

record requestPacer =
  rp_minInterval :: duration
  rp_next :: time

definition newRequestPacer :: "duration \<Rightarrow> requestPacer option" where
  "newRequestPacer minInterval = (if minInterval = 0 then None else Some \<lparr>rp_minInterval = minInterval, rp_next = 0\<rparr>)"

text \<open>The context's error, if it ends the wait.\<close>

definition waitContext :: "string option \<Rightarrow> duration \<Rightarrow> string option" where
  "waitContext ctx delay = (if delay \<le> 0 then None else ctx)"

record pace_env =
  pa_until :: time
  pa_ctx :: "string option"
  pa_now :: time

definition pacer_do :: "pace_env \<Rightarrow> requestPacer option \<Rightarrow> string option \<times> requestPacer option" where
  "pacer_do e p =
     (case p of
        None \<Rightarrow> (None, None)
      | Some p \<Rightarrow>
          (case waitContext (pa_ctx e) (time_Sub (rp_next p) (pa_until e)) of
             Some err \<Rightarrow> (Some err, Some p)
           | None \<Rightarrow> (None, Some (p\<lparr>rp_next := pa_now e + rp_minInterval p\<rparr>))))"

section \<open>Fetching an artifact\<close>

definition cacheStatusHeader :: string where "cacheStatusHeader = ''X-Package-Firewall-Cache''"

record prewarm_lib =
  pwl_JoinPath :: "string \<Rightarrow> string list \<Rightarrow> string + string"
  pwl_NewRequest :: "string \<Rightarrow> string option"
  pwl_base64 :: "string \<Rightarrow> string"
  pwl_sha256 :: "string \<Rightarrow> string"
  pwl_http :: http_lib

record prewarm_request =
  prq_URL :: string
  prq_Header :: header

record fetch_env =
  ft_started :: time
  ft_pace :: pace_env
  ft_sent :: time
  ft_do :: "prewarm_request \<Rightarrow> string + upstream_response"
  ft_returned :: time
  ft_headers :: time
  ft_now :: time
  ft_ended :: time

datatype fetch_error = RateLimitError duration bool string | FetchError string

fun io_Copy :: "reader \<Rightarrow> string \<times> string option" where
  "io_Copy [] = ([], None)"
| "io_Copy ((c, ReadOK) # rd) = (let (body, err) = io_Copy rd in (c @ body, err))"
| "io_Copy ((c, ReadEOF) # rd) = (c, None)"
| "io_Copy ((c, ReadErr e) # rd) = (c, Some e)"

definition prewarm_retryAfterDelay :: "http_lib \<Rightarrow> string \<Rightarrow> time \<Rightarrow> duration \<times> bool" where
  "prewarm_retryAfterDelay lib v now =
     (let v = TrimSpace v in
      if v = [] then (0, False)
      else case ParseInt32 v of
        Some seconds \<Rightarrow> if seconds < 0 then (0, False) else (seconds * nsSecond, True)
      | None \<Rightarrow>
          (case hl_ParseTime lib v of
             None \<Rightarrow> (0, False)
           | Some when \<Rightarrow> (max (time_Sub when now) 0, True)))"

definition containsChecksum :: "string list \<Rightarrow> string \<Rightarrow> bool" where
  "containsChecksum checksums actual \<longleftrightarrow> list_ex (\<lambda>checksum. EqualFold checksum actual) checksums"

definition build_request :: "prewarm_lib \<Rightarrow> RunConfig \<Rightarrow> Artifact \<Rightarrow> string \<Rightarrow> string + prewarm_request" where
  "build_request lib cfg artifact route =
     (case pwl_JoinPath lib (pw_BaseURL cfg) [route, art_Path artifact] of
        Inl e \<Rightarrow> Inl (''build request URL: '' @ e)
      | Inr target \<Rightarrow>
          (case pwl_NewRequest lib target of
             Some e \<Rightarrow> Inl (''build request: '' @ e)
           | None \<Rightarrow>
               let h = header_Set ''Accept-Encoding'' ''identity'' [] in
               Inr \<lparr>prq_URL = target, prq_Header =
                 (if pw_BearerToken cfg \<noteq> [] then header_Set ''Authorization'' (''Bearer '' @ pw_BearerToken cfg) h
                  else if pw_BasicUsername cfg \<noteq> []
                  then header_Set ''Authorization'' (''Basic '' @ pwl_base64 lib (pw_BasicUsername cfg @ '':'' @ pw_BasicPassword cfg)) h
                  else h)\<rparr>))"

text \<open>strings.ToUpper on ASCII letters.\<close>

definition ToUpper :: "string \<Rightarrow> string" where
  "ToUpper s = map (\<lambda>c. if c \<in> set lower_letters then upper_of c else c) s"

definition ms :: "time \<Rightarrow> time \<Rightarrow> int" where
  "ms t u = quot64 (time_Sub t u) nsMillisecond"

definition response_status :: "upstream_response \<Rightarrow> string" where
  "response_status r = ToUpper (TrimSpace (header_Get (resp_Header r) cacheStatusHeader))"

text \<open>What becomes of a response: outcome, bytes read, and the result.\<close>

definition judge_response :: "prewarm_lib \<Rightarrow> time \<Rightarrow> Artifact \<Rightarrow> upstream_response \<Rightarrow> string \<times> int \<times> (fetch_error + string \<times> bool)" where
  "judge_response lib now artifact r =
     (if resp_StatusCode r = 404 then (''not_found'', int (length (fst (io_Copy (resp_Body r)))), Inr ([], False))
      else if resp_StatusCode r < 200 \<or> resp_StatusCode r \<ge> 300 then
        (if resp_StatusCode r = 429 then
           let header = TrimSpace (header_Get (resp_Header r) ''Retry-After''); (delay, valid) = prewarm_retryAfterDelay (pwl_http lib) header now
           in (''rate_limited'', 0, Inl (RateLimitError delay valid header))
         else (''http_error'', 0, Inl (FetchError (''Tidewaiter returned HTTP '' @ FormatInt (resp_StatusCode r)))))
      else let (body, err) = io_Copy (resp_Body r); n = int (length body) in
        (case err of
           Some e \<Rightarrow> (''body_error'', n, Inl (FetchError (''read response: '' @ e)))
         | None \<Rightarrow>
             let actual = pwl_sha256 lib body in
             if \<not> containsChecksum (art_SHA256 artifact) actual then (''checksum_mismatch'', n, Inl (FetchError (''SHA-256 mismatch: got '' @ actual)))
             else (''verified'', n, Inr (response_status r, True))))"

definition fetchArtifactFromRoute :: "prewarm_lib \<Rightarrow> RunConfig \<Rightarrow> fetch_env \<Rightarrow> Artifact \<Rightarrow> string \<Rightarrow> requestPacer option
    \<Rightarrow> progressEvent list \<times> requestPacer option \<times> (fetch_error + string \<times> bool)" where
  "fetchArtifactFromRoute lib cfg e artifact route p =
     (let ev = zero_event\<lparr>pe_Event := ''request_start'', pe_Artifact := art_Path artifact, pe_Route := route\<rparr>;
          ended = (\<lambda>ev. ev\<lparr>pe_Event := ''request_end'', pe_ElapsedMS := ms (ft_ended e) (ft_started e)\<rparr>) in
      case build_request lib cfg artifact route of
        Inl err \<Rightarrow> ([ev, ended ev], p, Inl (FetchError err))
      | Inr request \<Rightarrow>
          let (waited, p) = pacer_do (ft_pace e) p in
          (case waited of
             Some err \<Rightarrow>
               ([ev, ended (ev\<lparr>pe_Outcome := ''transport_error''\<rparr>)], p, Inl (FetchError (''request Tidewaiter: '' @ err)))
           | None \<Rightarrow>
               let pacing = ms (ft_sent e) (ft_started e);
                   sent = zero_event\<lparr>pe_Event := ''request_sent'', pe_Artifact := art_Path artifact, pe_Route := route, pe_PacingMS := pacing\<rparr>;
                   ev1 = ev\<lparr>pe_PacingMS := pacing, pe_HeadersMS := ms (ft_returned e) (ft_sent e)\<rparr> in
               (case ft_do e request of
                  Inl err \<Rightarrow> ([ev, sent, ended (ev1\<lparr>pe_Outcome := ''transport_error''\<rparr>)], p, Inl (FetchError (''request Tidewaiter: '' @ err)))
                | Inr r \<Rightarrow>
                    let ev2 = ev1\<lparr>pe_HTTPStatus := resp_StatusCode r, pe_CacheStatus := response_status r,
                          pe_RequestID := header_Get (resp_Header r) ''X-Request-ID'', pe_Event := ''request_headers''\<rparr>;
                        (outcome, bytes, result) = judge_response lib (ft_now e) artifact r
                    in ([ev, sent, ev2, ended (ev2\<lparr>pe_Outcome := outcome, pe_Bytes := bytes, pe_BodyMS := ms (ft_ended e) (ft_headers e)\<rparr>)],
                        p, result))))"

fun fetchArtifact :: "prewarm_lib \<Rightarrow> RunConfig \<Rightarrow> (nat \<Rightarrow> fetch_env) \<Rightarrow> Artifact \<Rightarrow> string list \<Rightarrow> requestPacer option
    \<Rightarrow> progressEvent list \<times> requestPacer option \<times> (fetch_error + string \<times> string \<times> bool)" where
  "fetchArtifact lib cfg env artifact [] p = ([], p, Inr ([], [], False))"
| "fetchArtifact lib cfg env artifact (route # routes) p =
     (case fetchArtifactFromRoute lib cfg (env 0) artifact route p of
        (evs, p, Inl err) \<Rightarrow> (evs, p, Inl err)
      | (evs, p, Inr (status, found)) \<Rightarrow>
          if found then (evs, p, Inr (status, route, True))
          else let (evs', p, r) = fetchArtifact lib cfg (env \<circ> Suc) artifact routes p in (evs @ evs', p, r))"

definition routeCandidates :: "RunConfig \<Rightarrow> Artifact \<Rightarrow> string list" where
  "routeCandidates cfg artifact =
     (if art_pluginMarker artifact \<and> pw_PluginRoutePrefix cfg \<noteq> [] then [pw_PluginRoutePrefix cfg] else [pw_RoutePrefix cfg])"

definition prewarm_rateLimitBackoff :: "nat \<Rightarrow> duration" where
  "prewarm_rateLimitBackoff attempt = nsSecond * 2 ^ min attempt 5"

definition unavailableArtifactsError :: "Artifact list \<Rightarrow> string" where
  "unavailableArtifactsError artifacts =
     (let coordinates = fold (\<lambda>a. List.insert (if art_Coordinate a = [] then art_Path a else art_Coordinate a)) artifacts [];
          values = sort_key (map byte) coordinates in
      FormatInt (int (length artifacts)) @ '' artifacts across '' @ FormatInt (int (length values)) @
      '' coordinates are unavailable from configured Tidewaiter routes: '' @ Join values '', '')"

section \<open>A pass\<close>

record PassStats =
  st_Artifacts :: int
  st_Hits :: int
  st_Misses :: int

text \<open>Where a worker is: waiting for a job; fetching the artifact with some index after some rate-limited
  attempts; waiting before the next attempt; done with the fetch; done with the checkpoint; gone.\<close>

datatype worker = Idle | Fetching nat nat | Waiting nat nat duration | Found nat string string | Recorded nat string string | Exited

record pass =
  ps_next :: nat
  ps_closed :: bool
  ps_workers :: "worker list"
  ps_routes :: "string list"
  ps_stats :: PassStats
  ps_err :: "string option"
  ps_parent :: "string option"
  ps_unavailable :: "Artifact list"
  ps_pacer :: "requestPacer option"
  ps_checkpoint :: "checkpoint option"
  ps_disk :: disk

record pass_env =
  pv_lib :: prewarm_lib
  pv_ck :: ck_lib
  pv_cfg :: RunConfig
  pv_artifacts :: "Artifact list"
  pv_selected :: "string list option"
  pv_requireHit :: bool
  pv_answers :: "nat \<Rightarrow> nat \<Rightarrow> nat \<Rightarrow> fetch_env"
  pv_faults :: "nat \<Rightarrow> faults"

datatype action = Send nat | Close | Attempt nat | Wake nat | GiveUp nat | Record nat | Count nat | Exit nat | Cancel string

definition cancelled :: "pass \<Rightarrow> bool" where
  "cancelled s \<longleftrightarrow> ps_err s \<noteq> None \<or> ps_parent s \<noteq> None"

definition put_worker :: "nat \<Rightarrow> worker \<Rightarrow> pass \<Rightarrow> pass" where
  "put_worker w st s = s\<lparr>ps_workers := (ps_workers s)[w := st]\<rparr>"

text \<open>The first failure is kept and cancels the pass; the worker that met it returns.\<close>

definition fail :: "nat \<Rightarrow> string \<Rightarrow> pass \<Rightarrow> pass" where
  "fail w e s = put_worker w Exited (s\<lparr>ps_err := (case ps_err s of Some e0 \<Rightarrow> Some e0 | None \<Rightarrow> Some e)\<rparr>)"

definition count :: "nat \<Rightarrow> string \<Rightarrow> string \<Rightarrow> pass \<Rightarrow> pass" where
  "count w status unexpected s =
     (let st = (ps_stats s)\<lparr>st_Artifacts := st_Artifacts (ps_stats s) + 1\<rparr> in
      if status = ''HIT'' then put_worker w Idle (s\<lparr>ps_stats := st\<lparr>st_Hits := st_Hits st + 1\<rparr>\<rparr>)
      else if status = ''MISS'' then put_worker w Idle (s\<lparr>ps_stats := st\<lparr>st_Misses := st_Misses st + 1\<rparr>\<rparr>)
      else fail w unexpected (s\<lparr>ps_stats := st\<rparr>))"

definition set_route :: "nat \<Rightarrow> string \<Rightarrow> pass \<Rightarrow> pass" where
  "set_route i route s = s\<lparr>ps_routes := (ps_routes s)[i := route]\<rparr>"

definition job_routes :: "pass_env \<Rightarrow> nat \<Rightarrow> string list" where
  "job_routes v i = (case pv_selected v of Some rs \<Rightarrow> [rs ! i] | None \<Rightarrow> routeCandidates (pv_cfg v) (pv_artifacts v ! i))"

definition retries :: "pass_env \<Rightarrow> nat" where
  "retries v = nat (pw_RateLimitRetries (pv_cfg v))"

text \<open>One attempt at an artifact and what the worker does with its outcome.\<close>

definition attempt :: "pass_env \<Rightarrow> nat \<Rightarrow> nat \<Rightarrow> nat \<Rightarrow> pass \<Rightarrow> pass" where
  "attempt v w i k s =
     (let a = pv_artifacts v ! i; cfg = (pv_cfg v)\<lparr>pw_attempt := int k + 1\<rparr>;
          (evs, p, r) = fetchArtifact (pv_lib v) cfg (pv_answers v i k) a (job_routes v i) (ps_pacer s);
          s = s\<lparr>ps_pacer := p\<rparr> in
      case r of
        Inl (FetchError e) \<Rightarrow> fail w (art_Path a @ '': '' @ e) s
      | Inl (RateLimitError delay valid header) \<Rightarrow>
          if k \<ge> retries v then fail w (art_Path a @ '': Tidewaiter returned 429 with Retry-After '' @ header @ '' after '' @ FormatInt (int k) @ '' retries'') s
          else put_worker w (Waiting i (Suc k) (if valid then delay else prewarm_rateLimitBackoff k)) s
      | Inr (status, route, found) \<Rightarrow>
          if \<not> found then put_worker w Idle (s\<lparr>ps_unavailable := ps_unavailable s @ [a]\<rparr>)
          else let s = set_route i route s in
            if pv_requireHit v \<and> status \<noteq> ''HIT'' then fail w (art_Path a @ '': second pass returned cache status '' @ status) s
            else put_worker w (Found i route status) s)"

text \<open>A job whose artifact the checkpoint holds is not fetched.\<close>

definition start_job :: "pass_env \<Rightarrow> nat \<Rightarrow> nat \<Rightarrow> pass \<Rightarrow> pass" where
  "start_job v w i s =
     (let a = pv_artifacts v ! i in
      case Option.bind (ps_checkpoint s) (\<lambda>c. completed c a) of
        Some e \<Rightarrow> count w (ce_Status e) (art_Path a @ '': checkpoint has unexpected cache status '' @ ce_Status e) (set_route i (ce_Route e) s)
      | None \<Rightarrow> attempt v w i 0 s)"

definition record_job :: "pass_env \<Rightarrow> nat \<Rightarrow> nat \<Rightarrow> string \<Rightarrow> string \<Rightarrow> pass \<Rightarrow> pass" where
  "record_job v w i route status s =
     (let a = pv_artifacts v ! i in
      case ps_checkpoint s of
        None \<Rightarrow> put_worker w (Recorded i route status) s
      | Some c \<Rightarrow>
          let (err, c, files) = checkpoint_record (pv_ck v) (pv_faults v i) a route status c (ps_disk s); s = s\<lparr>ps_checkpoint := Some c, ps_disk := files\<rparr> in
          (case err of
             Some e \<Rightarrow> fail w (art_Path a @ '': save checkpoint: '' @ e) s
           | None \<Rightarrow> put_worker w (Recorded i route status) s))"

text \<open>The worker of an action that belongs to a worker.\<close>

definition at_worker :: "pass \<Rightarrow> nat \<Rightarrow> worker" where
  "at_worker s w = (if w < length (ps_workers s) then ps_workers s ! w else Exited)"

fun pass_step :: "pass_env \<Rightarrow> action \<Rightarrow> pass \<Rightarrow> pass option" where
  "pass_step v (Send w) s =
     (if \<not> ps_closed s \<and> ps_next s < length (pv_artifacts v) \<and> at_worker s w = Idle
      then Some (put_worker w (Fetching (ps_next s) 0) (s\<lparr>ps_next := Suc (ps_next s)\<rparr>)) else None)"
| "pass_step v Close s =
     (if \<not> ps_closed s \<and> (ps_next s = length (pv_artifacts v) \<or> cancelled s) then Some (s\<lparr>ps_closed := True\<rparr>) else None)"
| "pass_step v (Attempt w) s =
     (case at_worker s w of Fetching i k \<Rightarrow> Some (if k = 0 then start_job v w i s else attempt v w i k s) | _ \<Rightarrow> None)"
| "pass_step v (Wake w) s = (case at_worker s w of Waiting i k delay \<Rightarrow> Some (put_worker w (Fetching i k) s) | _ \<Rightarrow> None)"
| "pass_step v (GiveUp w) s =
     (case at_worker s w of Waiting i k delay \<Rightarrow> if cancelled s \<and> delay > 0 then Some (put_worker w Exited s) else None | _ \<Rightarrow> None)"
| "pass_step v (Record w) s = (case at_worker s w of Found i route status \<Rightarrow> Some (record_job v w i route status s) | _ \<Rightarrow> None)"
| "pass_step v (Count w) s =
     (case at_worker s w of
        Recorded i route status \<Rightarrow> Some (count w status (art_Path (pv_artifacts v ! i) @ '': unexpected cache status '' @ status) s)
      | _ \<Rightarrow> None)"
| "pass_step v (Exit w) s = (if ps_closed s \<and> at_worker s w = Idle then Some (put_worker w Exited s) else None)"
| "pass_step v (Cancel e) s = (if ps_parent s = None then Some (s\<lparr>ps_parent := Some e\<rparr>) else None)"

fun pass_run :: "pass_env \<Rightarrow> action list \<Rightarrow> pass \<Rightarrow> pass option" where
  "pass_run v [] s = Some s"
| "pass_run v (act # acts) s = Option.bind (pass_step v act s) (pass_run v acts)"

definition pass_start :: "pass_env \<Rightarrow> checkpoint option \<Rightarrow> disk \<Rightarrow> pass" where
  "pass_start v c files =
     \<lparr>ps_next = 0, ps_closed = False, ps_workers = replicate (nat (pw_Concurrency (pv_cfg v))) Idle,
      ps_routes = replicate (length (pv_artifacts v)) [], ps_stats = \<lparr>st_Artifacts = 0, st_Hits = 0, st_Misses = 0\<rparr>,
      ps_err = None, ps_parent = None, ps_unavailable = [],
      ps_pacer = newRequestPacer (if pv_requireHit v then 0 else pw_MinRequestInterval (pv_cfg v)),
      ps_checkpoint = c, ps_disk = files\<rparr>"

definition pass_over :: "pass \<Rightarrow> bool" where
  "pass_over s \<longleftrightarrow> ps_closed s \<and> list_all (\<lambda>w. w = Exited) (ps_workers s)"

definition pass_result :: "pass \<Rightarrow> string + PassStats \<times> string list" where
  "pass_result s =
     (case ps_err s of
        Some e \<Rightarrow> Inl e
      | None \<Rightarrow>
          (case ps_parent s of
             Some e \<Rightarrow> Inl e
           | None \<Rightarrow>
               if ps_unavailable s \<noteq> [] then Inl (unavailableArtifactsError (ps_unavailable s))
               else Inr (ps_stats s, ps_routes s)))"

text \<open>A pass under a schedule; a schedule that is not possible or does not end the pass gives nothing.\<close>

definition runPass :: "pass_env \<Rightarrow> checkpoint option \<Rightarrow> disk \<Rightarrow> action list \<Rightarrow> ((string + PassStats \<times> string list) \<times> disk) option" where
  "runPass v c files schedule =
     (case pv_selected v of
        Some rs \<Rightarrow> if length rs \<noteq> length (pv_artifacts v) then Some (Inl ''selected prewarm routes do not match artifact manifest'', files)
          else Option.bind (pass_run v schedule (pass_start v c files)) (\<lambda>s. if pass_over s then Some (pass_result s, ps_disk s) else None)
      | None \<Rightarrow>
          Option.bind (pass_run v schedule (pass_start v c files)) (\<lambda>s. if pass_over s then Some (pass_result s, ps_disk s) else None))"

section \<open>A run\<close>

definition pass_line :: "int \<Rightarrow> PassStats \<Rightarrow> string" where
  "pass_line n stats = ''pass='' @ FormatInt n @ '' artifacts='' @ FormatInt (st_Artifacts stats) @ '' cache_hits='' @ FormatInt (st_Hits stats) @
     '' cache_misses='' @ FormatInt (st_Misses stats) @ [CHR 10]"

definition writePassSummary :: "bool \<Rightarrow> string option \<Rightarrow> int \<Rightarrow> PassStats \<Rightarrow> string option \<times> string" where
  "writePassSummary output fault n stats =
     (if \<not> output then (None, [])
      else case fault of
        Some e \<Rightarrow> (Some (''write prewarm pass '' @ FormatInt n @ '' summary: '' @ e), [])
      | None \<Rightarrow> (None, pass_line n stats))"

record run_env =
  rv_url :: url_lib
  rv_lib :: prewarm_lib
  rv_ck :: ck_lib
  rv_load :: faults
  rv_output :: bool
  rv_fault :: "int \<Rightarrow> string option"
  rv_progressErr :: "string option"
  rv_answers :: "int \<Rightarrow> nat \<Rightarrow> nat \<Rightarrow> nat \<Rightarrow> fetch_env"
  rv_saves :: "nat \<Rightarrow> faults"

definition pass_of :: "run_env \<Rightarrow> RunConfig \<Rightarrow> Artifact list \<Rightarrow> string list option \<Rightarrow> bool \<Rightarrow> pass_env" where
  "pass_of rv cfg artifacts selected requireHit =
     \<lparr>pv_lib = rv_lib rv, pv_ck = rv_ck rv, pv_cfg = cfg\<lparr>pw_pass := (if requireHit then 2 else 1), pw_total := int (length artifacts)\<rparr>,
      pv_artifacts = artifacts, pv_selected = selected, pv_requireHit = requireHit,
      pv_answers = rv_answers rv (if requireHit then 2 else 1), pv_faults = rv_saves rv\<rparr>"

definition run_passes :: "run_env \<Rightarrow> RunConfig \<Rightarrow> Artifact list \<Rightarrow> disk \<Rightarrow> action list \<Rightarrow> action list \<Rightarrow> (string option \<times> string) option" where
  "run_passes rv cfg artifacts files sched1 sched2 =
     (if artifacts = [] then Some (Some ''prewarm manifest contains no artifacts'', [])
      else if list_ex art_pluginMarker artifacts \<and> pw_PluginRoutePrefix cfg = []
      then Some (Some ''prewarm plugin route prefix is required for active plugin markers'', [])
      else case loadCheckpoint (rv_ck rv) (rv_load rv) files (pw_StateFile cfg) cfg artifacts of Inl e \<Rightarrow> Some (Some e, []) | Inr c \<Rightarrow>
        case runPass (pass_of rv cfg artifacts None False) c files sched1 of
          None \<Rightarrow> None
        | Some (Inl e, files) \<Rightarrow> Some (Some (''prewarm pass 1: '' @ e), [])
        | Some (Inr (stats1, routes), files) \<Rightarrow>
            let (err, out1) = writePassSummary (rv_output rv) (rv_fault rv 1) 1 stats1 in
            if err \<noteq> None then Some (err, out1)
            else case runPass (pass_of rv cfg artifacts (Some routes) True) None files sched2 of
              None \<Rightarrow> None
            | Some (Inl e, files) \<Rightarrow> Some (Some (''prewarm pass 2: '' @ e), out1)
            | Some (Inr (stats2, _), files) \<Rightarrow>
                let (err, out2) = writePassSummary (rv_output rv) (rv_fault rv 2) 2 stats2 in Some (err, out1 @ out2))"

definition Run :: "run_env \<Rightarrow> RunConfig \<Rightarrow> Artifact list \<Rightarrow> disk \<Rightarrow> action list \<Rightarrow> action list \<Rightarrow> (string option \<times> string) option" where
  "Run rv cfg artifacts files sched1 sched2 =
     (case normalizeRunConfig (rv_url rv) cfg of
        Inl e \<Rightarrow> Some (Some e, [])
      | Inr cfg \<Rightarrow>
          map_option (\<lambda>(err, out).
            (case rv_progressErr rv of
               None \<Rightarrow> err
             | Some p \<Rightarrow> Some ((case err of None \<Rightarrow> [] | Some e \<Rightarrow> e @ [CHR 10]) @ ''write prewarm progress: '' @ p), out))
            (run_passes rv cfg artifacts files sched1 sched2))"

section \<open>Every pass ends\<close>

definition weight :: "pass_env \<Rightarrow> worker \<Rightarrow> nat" where
  "weight v st =
     (case st of Exited \<Rightarrow> 0 | Idle \<Rightarrow> 1 | Recorded _ _ _ \<Rightarrow> 2 | Found _ _ _ \<Rightarrow> 3
      | Fetching _ k \<Rightarrow> 4 + 2 * (retries v - k) | Waiting _ k _ \<Rightarrow> 5 + 2 * (retries v - k))"

definition work :: "pass_env \<Rightarrow> pass \<Rightarrow> nat" where
  "work v s = sum_list (map (weight v) (ps_workers s)) + (length (pv_artifacts v) - ps_next s) * (4 + 2 * retries v) +
     (if ps_closed s then 0 else 1) + (if ps_parent s = None then 1 else 0)"

lemma at_worker_ne: "at_worker s w \<noteq> Exited \<Longrightarrow> w < length (ps_workers s) \<and> ps_workers s ! w = at_worker s w"
  by (auto simp: at_worker_def split: if_splits)

lemma work_put:
  assumes "w < length (ps_workers s)" and "weight v st < weight v (ps_workers s ! w)"
    and "ps_workers s' = (ps_workers s)[w := st]" "ps_next s' = ps_next s" "ps_closed s' = ps_closed s" "ps_parent s' = ps_parent s"
  shows "work v s' < work v s"
proof -
  have "weight v (ps_workers s ! w) \<le> sum_list (map (weight v) (ps_workers s))"
    using assms(1) by (intro member_le_sum_list) auto
  with assms show ?thesis by (simp add: work_def map_update sum_list_update)
qed

lemmas step_defs = put_worker_def fail_def set_route_def Let_def

lemma work_count: "w < length (ps_workers s) \<Longrightarrow> 1 < weight v (ps_workers s ! w) \<Longrightarrow> work v (count w status e (set_route i r s)) < work v s"
  by (rule work_put [of w s v "if status = ''HIT'' \<or> status = ''MISS'' then Idle else Exited"]) (simp_all add: count_def step_defs weight_def)

lemma work_count': "w < length (ps_workers s) \<Longrightarrow> 1 < weight v (ps_workers s ! w) \<Longrightarrow> work v (count w status e s) < work v s"
  by (rule work_put [of w s v "if status = ''HIT'' \<or> status = ''MISS'' then Idle else Exited"]) (simp_all add: count_def step_defs weight_def)

lemma work_attempt:
  assumes w: "w < length (ps_workers s)" and at: "ps_workers s ! w = Fetching i k"
  shows "work v (attempt v w i k s) < work v s"
proof -
  obtain evs p r where f: "fetchArtifact (pv_lib v) ((pv_cfg v)\<lparr>pw_attempt := int k + 1\<rparr>) (pv_answers v i k) (pv_artifacts v ! i) (job_routes v i) (ps_pacer s) = (evs, p, r)"
    by (metis prod_cases3)
  have puts: "weight v st < 4 + 2 * (retries v - k) \<Longrightarrow> ps_workers s' = (ps_workers s)[w := st] \<Longrightarrow> ps_next s' = ps_next s \<Longrightarrow>
      ps_closed s' = ps_closed s \<Longrightarrow> ps_parent s' = ps_parent s \<Longrightarrow> work v s' < work v s" for st s'
    by (rule work_put [OF w, of v st]) (simp_all add: at weight_def)
  show ?thesis
  proof (cases r)
    case (Inl e)
    then show ?thesis
    proof (cases e)
      case (RateLimitError d valid h)
      then show ?thesis
        using Inl f by (cases "k \<ge> retries v")
          (auto intro: puts [of Exited] puts [of "Waiting i (Suc k) (if valid then d else prewarm_rateLimitBackoff k)"]
            simp: attempt_def step_defs weight_def)
    next
      case (FetchError m)
      then show ?thesis using Inl f by (intro puts [of Exited]) (simp_all add: attempt_def step_defs weight_def)
    qed
  next
    case (Inr x)
    obtain status route found where x: "x = (status, route, found)" by (cases x)
    consider "\<not> found" | "found" "pv_requireHit v \<and> status \<noteq> ''HIT''" | "found" "\<not> (pv_requireHit v \<and> status \<noteq> ''HIT'')" by blast
    then show ?thesis
    proof cases
      case 1
      then show ?thesis using Inr x f by (intro puts [of Idle]) (simp_all add: attempt_def step_defs weight_def)
    next
      case 2
      then show ?thesis using Inr x f by (intro puts [of Exited]) (simp_all add: attempt_def step_defs weight_def)
    next
      case 3
      then show ?thesis using Inr x f by (intro puts [of "Found i route status"]) (auto simp: attempt_def step_defs weight_def)
    qed
  qed
qed

lemma work_start:
  assumes "w < length (ps_workers s)" and "ps_workers s ! w = Fetching i 0"
  shows "work v (start_job v w i s) < work v s"
proof (cases "Option.bind (ps_checkpoint s) (\<lambda>c. completed c (pv_artifacts v ! i))")
  case None
  then show ?thesis using work_attempt [OF assms] by (simp add: start_job_def)
next
  case (Some e)
  then show ?thesis using work_count [OF assms(1), of v] assms(2) by (simp add: start_job_def weight_def)
qed

lemma work_record:
  assumes w: "w < length (ps_workers s)" and at: "ps_workers s ! w = Found i route status"
  shows "work v (record_job v w i route status s) < work v s"
proof (cases "ps_checkpoint s")
  case None
  then show ?thesis using at by (intro work_put [OF w, of v "Recorded i route status"]) (simp_all add: record_job_def step_defs weight_def)
next
  case (Some c)
  obtain err c' files where r: "checkpoint_record (pv_ck v) (pv_faults v i) (pv_artifacts v ! i) route status c (ps_disk s) = (err, c', files)"
    by (metis prod_cases3)
  show ?thesis
    using Some at r by (intro work_put [OF w, of v "if err = None then Recorded i route status else Exited"])
      (auto simp: record_job_def step_defs weight_def split: option.split)
qed

lemma step_works: "pass_step v act s = Some s' \<Longrightarrow> work v s' < work v s"
proof (cases act)
  case (Send w)
  assume "pass_step v act s = Some s'"
  then have w: "w < length (ps_workers s)" "ps_workers s ! w = Idle" "ps_next s < length (pv_artifacts v)"
    and s': "s' = put_worker w (Fetching (ps_next s) 0) (s\<lparr>ps_next := Suc (ps_next s)\<rparr>)"
    using Send at_worker_ne [of s w] by (auto split: if_splits)
  have "weight v (ps_workers s ! w) \<le> sum_list (map (weight v) (ps_workers s))"
    using w(1) by (intro member_le_sum_list) auto
  moreover obtain m where "length (pv_artifacts v) - ps_next s = Suc m" "length (pv_artifacts v) - Suc (ps_next s) = m"
    using w(3) by (metis Suc_diff_Suc)
  ultimately show ?thesis using w unfolding s' by (simp add: work_def put_worker_def map_update sum_list_update weight_def)
next
  case Close
  assume "pass_step v act s = Some s'"
  then show ?thesis using Close by (auto simp: work_def split: if_splits)
next
  case (Cancel e)
  assume "pass_step v act s = Some s'"
  then show ?thesis using Cancel by (auto simp: work_def split: if_splits)
next
  case (Attempt w)
  assume "pass_step v act s = Some s'"
  then obtain i k where at: "at_worker s w = Fetching i k" and s': "s' = (if k = 0 then start_job v w i s else attempt v w i k s)"
    using Attempt by (auto split: worker.splits)
  then have "w < length (ps_workers s)" "ps_workers s ! w = Fetching i k" using at_worker_ne [of s w] by auto
  then show ?thesis using work_start work_attempt s' by auto
next
  case (Record w)
  assume "pass_step v act s = Some s'"
  then show ?thesis using Record at_worker_ne [of s w] by (auto intro: work_record split: worker.splits)
next
  case (Count w)
  assume "pass_step v act s = Some s'"
  then show ?thesis using Count at_worker_ne [of s w] by (auto intro!: work_count' simp: weight_def split: worker.splits)
next
  case (Wake w)
  assume "pass_step v act s = Some s'"
  then obtain i k d where at: "at_worker s w = Waiting i k d" and s': "s' = put_worker w (Fetching i k) s" using Wake by (auto split: worker.splits)
  then show ?thesis using at_worker_ne [of s w] by (intro work_put [of w s v "Fetching i k"]) (auto simp: put_worker_def weight_def)
next
  case (GiveUp w)
  assume "pass_step v act s = Some s'"
  then obtain i k d where at: "at_worker s w = Waiting i k d" and s': "s' = put_worker w Exited s" using GiveUp by (auto split: worker.splits if_splits)
  then show ?thesis using at_worker_ne [of s w] by (intro work_put [of w s v Exited]) (auto simp: put_worker_def weight_def)
next
  case (Exit w)
  assume "pass_step v act s = Some s'"
  then have at: "at_worker s w = Idle" and s': "s' = put_worker w Exited s" using Exit by (auto split: if_splits)
  then show ?thesis using at_worker_ne [of s w] by (intro work_put [of w s v Exited]) (auto simp: put_worker_def weight_def)
qed

text \<open>No deadlock: a worker leaves early only when the pass is cancelled, and then the sender stops.\<close>

definition pass_live :: "pass_env \<Rightarrow> pass \<Rightarrow> bool" where
  "pass_live v s \<longleftrightarrow> length (ps_workers s) = nat (pw_Concurrency (pv_cfg v)) \<and> ps_next s \<le> length (pv_artifacts v) \<and>
     (Exited \<in> set (ps_workers s) \<longrightarrow> ps_closed s \<or> cancelled s) \<and> (ps_closed s \<longrightarrow> ps_next s = length (pv_artifacts v) \<or> cancelled s)"

text \<open>A step replaces at most one worker's state, and cancellation and closing are kept.\<close>

definition one_worker :: "pass \<Rightarrow> pass \<Rightarrow> bool" where
  "one_worker s s' \<longleftrightarrow> (\<exists>w st. ps_workers s' = (ps_workers s)[w := st] \<and> (st = Exited \<longrightarrow> ps_closed s' \<or> cancelled s')) \<and>
     ps_next s' = ps_next s \<and> ps_closed s' = ps_closed s \<and> (cancelled s \<longrightarrow> cancelled s')"

lemma one_workerI:
  assumes "ps_workers s' = (ps_workers s)[w := st]" "st = Exited \<longrightarrow> ps_closed s' \<or> cancelled s'"
    "ps_next s' = ps_next s" "ps_closed s' = ps_closed s" "cancelled s \<longrightarrow> cancelled s'"
  shows "one_worker s s'"
  using assms unfolding one_worker_def by blast

lemma live_one: "pass_live v s \<Longrightarrow> one_worker s s' \<Longrightarrow> pass_live v s'"
  unfolding pass_live_def one_worker_def using set_update_subset_insert by fastforce

lemma one_count: "one_worker s (count w status e (set_route i r s))" "one_worker s (count w status e s)"
  by (rule one_workerI [of _ _ w "if status = ''HIT'' \<or> status = ''MISS'' then Idle else Exited"];
      auto simp: count_def step_defs cancelled_def split: option.split)+

lemma one_attempt: "one_worker s (attempt v w i k s)"
proof -
  obtain evs p r where f: "fetchArtifact (pv_lib v) ((pv_cfg v)\<lparr>pw_attempt := int k + 1\<rparr>) (pv_answers v i k) (pv_artifacts v ! i) (job_routes v i) (ps_pacer s) = (evs, p, r)"
    by (metis prod_cases3)
  let ?st = "case r of Inl (FetchError e) \<Rightarrow> Exited
     | Inl (RateLimitError d valid h) \<Rightarrow> if k \<ge> retries v then Exited else Waiting i (Suc k) (if valid then d else prewarm_rateLimitBackoff k)
     | Inr (status, route, found) \<Rightarrow> if \<not> found then Idle else if pv_requireHit v \<and> status \<noteq> ''HIT'' then Exited else Found i route status"
  show ?thesis
    by (rule one_workerI [of _ _ w ?st])
      (auto simp: attempt_def f step_defs cancelled_def split: sum.split fetch_error.split prod.split option.split)
qed

lemma one_start: "one_worker s (start_job v w i s)"
  using one_attempt one_count by (simp add: start_job_def Let_def split: option.split)

lemma one_record: "one_worker s (record_job v w i route status s)"
proof (cases "ps_checkpoint s")
  case None
  then show ?thesis by (intro one_workerI [of _ _ w "Recorded i route status"]) (auto simp: record_job_def step_defs cancelled_def)
next
  case (Some c)
  obtain err c' files where r: "checkpoint_record (pv_ck v) (pv_faults v i) (pv_artifacts v ! i) route status c (ps_disk s) = (err, c', files)"
    by (metis prod_cases3)
  show ?thesis
    using Some r by (intro one_workerI [of _ _ w "if err = None then Recorded i route status else Exited"])
      (auto simp: record_job_def step_defs cancelled_def split: option.split)
qed

lemma step_live: "pass_live v s \<Longrightarrow> pass_step v act s = Some s' \<Longrightarrow> pass_live v s'"
proof (cases act)
  case (Send w)
  assume "pass_live v s" "pass_step v act s = Some s'"
  then show ?thesis using Send set_update_subset_insert [of "ps_workers s" w "Fetching (ps_next s) 0"]
    by (auto simp: pass_live_def put_worker_def cancelled_def split: if_splits)
next
  case (Wake w)
  assume "pass_live v s" "pass_step v act s = Some s'"
  then show ?thesis using Wake by (auto simp: put_worker_def cancelled_def split: worker.splits intro!: live_one [of v s] one_workerI)
next
  case (GiveUp w)
  assume "pass_live v s" "pass_step v act s = Some s'"
  then show ?thesis using GiveUp by (auto simp: put_worker_def cancelled_def split: worker.splits if_splits intro!: live_one [of v s] one_workerI)
next
  case (Exit w)
  assume "pass_live v s" "pass_step v act s = Some s'"
  then show ?thesis using Exit by (auto simp: put_worker_def cancelled_def split: if_splits intro!: live_one [of v s] one_workerI)
next
  case (Attempt w)
  assume "pass_live v s" "pass_step v act s = Some s'"
  then show ?thesis using Attempt by (auto split: worker.splits if_splits intro: live_one [of v s] one_start one_attempt)
next
  case (Record w)
  assume "pass_live v s" "pass_step v act s = Some s'"
  then show ?thesis using Record by (auto split: worker.splits intro: live_one [of v s] one_record)
next
  case (Count w)
  assume "pass_live v s" "pass_step v act s = Some s'"
  then show ?thesis using Count by (auto split: worker.splits intro: live_one [of v s] one_count)
next
  case (Cancel e)
  assume "pass_live v s" "pass_step v act s = Some s'"
  then show ?thesis using Cancel by (auto simp: pass_live_def cancelled_def split: if_splits)
next
  case Close
  assume "pass_live v s" "pass_step v act s = Some s'"
  then show ?thesis using Close by (auto simp: pass_live_def cancelled_def split: if_splits)
qed

lemma not_stuck:
  assumes "pass_live v s" and "1 \<le> pw_Concurrency (pv_cfg v)" and "\<not> pass_over s"
  shows "\<exists>act s'. pass_step v act s = Some s'"
proof (cases "\<forall>w<length (ps_workers s). ps_workers s ! w \<in> {Idle, Exited}")
  case False
  then obtain w where w: "w < length (ps_workers s)" "ps_workers s ! w \<notin> {Idle, Exited}" by blast
  then have at: "at_worker s w = ps_workers s ! w" by (simp add: at_worker_def)
  show ?thesis
  proof (cases "ps_workers s ! w")
    case (Fetching i k) then show ?thesis using at by (intro exI [of _ "Attempt w"]) simp
  next
    case (Waiting i k d) then show ?thesis using at by (intro exI [of _ "Wake w"]) simp
  next
    case (Found i r st) then show ?thesis using at by (intro exI [of _ "Record w"]) simp
  next
    case (Recorded i r st) then show ?thesis using at by (intro exI [of _ "Count w"]) simp
  qed (use w in auto)
next
  case quiet: True
  show ?thesis
  proof (cases "\<exists>w<length (ps_workers s). ps_workers s ! w = Idle")
    case True
    then obtain w where "w < length (ps_workers s)" "ps_workers s ! w = Idle" by blast
    then have at: "at_worker s w = Idle" by (simp add: at_worker_def)
    show ?thesis
    proof (cases "ps_closed s")
      case True then show ?thesis using at by (intro exI [of _ "Exit w"]) simp
    next
      case still_open: False
      show ?thesis
      proof (cases "ps_next s < length (pv_artifacts v)")
        case True then show ?thesis using at still_open by (intro exI [of _ "Send w"]) simp
      next
        case False then show ?thesis using still_open assms(1) by (intro exI [of _ Close]) (simp add: pass_live_def)
      qed
    qed
  next
    case False
    then have gone: "\<forall>w<length (ps_workers s). ps_workers s ! w = Exited" using quiet by auto
    moreover have "0 < length (ps_workers s)" using assms(1,2) by (simp add: pass_live_def)
    ultimately have "Exited \<in> set (ps_workers s)" by (metis nth_mem)
    moreover have "\<not> ps_closed s" using assms(3) gone by (auto simp: pass_over_def list_all_length)
    ultimately show ?thesis using assms(1) by (intro exI [of _ Close]) (simp add: pass_live_def)
  qed
qed

lemma pass_run_append: "pass_run v (xs @ ys) s = Option.bind (pass_run v xs s) (pass_run v ys)"
  by (induction xs arbitrary: s) (auto split: bind_split)

lemma run_works: "pass_run v acts s = Some s' \<Longrightarrow> length acts + work v s' \<le> work v s"
proof (induction acts arbitrary: s)
  case (Cons act acts)
  then obtain s1 where s1: "pass_step v act s = Some s1" "pass_run v acts s1 = Some s'" by (auto split: bind_splits)
  then show ?case using Cons.IH [OF s1(2)] step_works [OF s1(1)] by simp
qed simp

lemma run_live: "pass_run v acts s = Some s' \<Longrightarrow> pass_live v s \<Longrightarrow> pass_live v s'"
  by (induction acts arbitrary: s) (auto split: bind_splits dest: step_live)

lemma can_finish:
  assumes "pass_live v s" and "1 \<le> pw_Concurrency (pv_cfg v)"
  shows "\<exists>acts s'. pass_run v acts s = Some s' \<and> pass_over s'"
  using assms
proof (induction "work v s" arbitrary: s rule: less_induct)
  case less
  show ?case
  proof (cases "pass_over s")
    case True then show ?thesis by (intro exI [of _ "[]"]) simp
  next
    case False
    then obtain act s1 where s1: "pass_step v act s = Some s1" using not_stuck less.prems by blast
    obtain acts s' where "pass_run v acts s1 = Some s'" "pass_over s'"
      using less.hyps [OF step_works [OF s1] step_live [OF less.prems(1) s1] less.prems(2)] by blast
    then show ?thesis using s1 by (intro exI [of _ "act # acts"] exI [of _ s']) simp
  qed
qed

text \<open>C35: A pass always ends. However its sender and workers are interleaved, whatever the proxy
  answers, whichever saves fail and whenever the caller cancels, a pass takes at most four steps and
  two per retry for each artifact, one per worker and two more, and at no point is it stuck: any
  schedule so far can be continued until every worker has returned.\<close>

theorem pass_terminates:
  assumes "1 \<le> pw_Concurrency (pv_cfg v)" and run: "pass_run v acts (pass_start v c files) = Some s"
  shows "length acts \<le> length (pv_artifacts v) * (4 + 2 * retries v) + nat (pw_Concurrency (pv_cfg v)) + 2 \<and>
    (\<exists>acts' s'. pass_run v (acts @ acts') (pass_start v c files) = Some s' \<and> pass_over s')"
proof -
  have "pass_live v (pass_start v c files)" by (simp add: pass_live_def pass_start_def)
  then obtain acts' s' where "pass_run v acts' s = Some s'" "pass_over s'" using can_finish run_live [OF run] assms(1) by blast
  then have "pass_run v (acts @ acts') (pass_start v c files) = Some s'" "pass_over s'" using run by (simp_all add: pass_run_append)
  moreover have "length acts \<le> work v (pass_start v c files)" using run_works [OF run] by simp
  moreover have "work v (pass_start v c files) = length (pv_artifacts v) * (4 + 2 * retries v) + nat (pw_Concurrency (pv_cfg v)) + 2"
    by (simp add: work_def pass_start_def weight_def sum_list_replicate)
  ultimately show ?thesis by auto
qed

section \<open>What a fetch that succeeds has seen\<close>

text \<open>The proxy answered the request for the artifact on this route with a success, the whole body was
  read, its SHA-256 is one of the artifact's, and this was the cache status.\<close>

definition served :: "prewarm_lib \<Rightarrow> RunConfig \<Rightarrow> fetch_env \<Rightarrow> Artifact \<Rightarrow> string \<Rightarrow> string \<Rightarrow> bool" where
  "served lib cfg e artifact route status \<longleftrightarrow> (\<exists>request r body. build_request lib cfg artifact route = Inr request \<and> ft_do e request = Inr r \<and>
     200 \<le> resp_StatusCode r \<and> resp_StatusCode r < 300 \<and> io_Copy (resp_Body r) = (body, None) \<and>
     (\<exists>checksum\<in>set (art_SHA256 artifact). EqualFold checksum (pwl_sha256 lib body)) \<and> status = response_status r)"

lemma judge_found:
  assumes "judge_response lib now artifact r = (outcome, n, Inr (status, True))"
  shows "200 \<le> resp_StatusCode r \<and> resp_StatusCode r < 300 \<and> (\<exists>body. io_Copy (resp_Body r) = (body, None) \<and>
    containsChecksum (art_SHA256 artifact) (pwl_sha256 lib body)) \<and> status = response_status r"
  using assms by (auto simp: judge_response_def Let_def split: if_splits prod.splits option.splits)

lemma route_found:
  assumes "fetchArtifactFromRoute lib cfg e artifact route p = (evs, p', Inr (status, True))"
  shows "served lib cfg e artifact route status"
proof -
  obtain request r outcome n where "build_request lib cfg artifact route = Inr request" "ft_do e request = Inr r"
    and j: "judge_response lib (ft_now e) artifact r = (outcome, n, Inr (status, True))"
    using assms by (auto simp: fetchArtifactFromRoute_def Let_def split: sum.splits prod.splits option.splits)
  with judge_found [OF j] show ?thesis unfolding served_def by (auto simp: containsChecksum_def list_ex_iff)
qed

lemma fetch_found:
  assumes "fetchArtifact lib cfg env artifact routes p = (evs, p', Inr (status, route, True))"
  shows "\<exists>j<length routes. route = routes ! j \<and> served lib cfg (env j) artifact route status"
  using assms
proof (induction routes arbitrary: env p evs)
  case (Cons r0 routes)
  obtain evs1 p1 res where f: "fetchArtifactFromRoute lib cfg (env 0) artifact r0 p = (evs1, p1, res)" by (metis prod_cases3)
  show ?case
  proof (cases res)
    case (Inl e)
    then show ?thesis using Cons.prems f by simp
  next
    case (Inr x)
    obtain st found where x: "x = (st, found)" by (cases x)
    show ?thesis
    proof (cases found)
      case True
      then show ?thesis using Cons.prems f Inr x route_found [of lib cfg "env 0" artifact r0 p evs1 p1 st] by (intro exI [of _ 0]) auto
    next
      case False
      then obtain evs2 where "fetchArtifact lib cfg (env \<circ> Suc) artifact routes p1 = (evs2, p', Inr (status, route, True))"
        using Cons.prems f Inr x by (auto split: prod.splits)
      from Cons.IH [OF this] show ?thesis by auto
    qed
  qed
qed simp

lemma build_request_cong:
  "build_request lib (cfg\<lparr>pw_attempt := k\<rparr>) = build_request lib cfg"
  "build_request lib (cfg\<lparr>pw_pass := n, pw_total := m\<rparr>) = build_request lib cfg"
  by (simp_all add: build_request_def fun_eq_iff Let_def split: sum.split option.split)

lemma served_cong [simp]:
  "served lib (cfg\<lparr>pw_attempt := k\<rparr>) e artifact route status = served lib cfg e artifact route status"
  "served lib (cfg\<lparr>pw_pass := n, pw_total := m\<rparr>) e artifact route status = served lib cfg e artifact route status"
  by (simp_all add: served_def build_request_cong)

section \<open>The books of a pass\<close>

definition wanted :: "pass_env \<Rightarrow> nat \<Rightarrow> string" where
  "wanted v i = job_routes v i ! 0"

lemma job_routes_one: "job_routes v i = [wanted v i]"
  by (simp add: wanted_def job_routes_def routeCandidates_def split: option.split)

definition evidence :: "pass_env \<Rightarrow> nat \<Rightarrow> string \<Rightarrow> bool" where
  "evidence v i status \<longleftrightarrow> (\<exists>k\<le>retries v. served (pv_lib v) (pv_cfg v) (pv_answers v i k 0) (pv_artifacts v ! i) (wanted v i) status)"

definition job_of :: "worker \<Rightarrow> nat option" where
  "job_of st = (case st of Fetching i _ \<Rightarrow> Some i | Waiting i _ _ \<Rightarrow> Some i | Found i _ _ \<Rightarrow> Some i | Recorded i _ _ \<Rightarrow> Some i | _ \<Rightarrow> None)"

definition busy :: "worker list \<Rightarrow> nat \<Rightarrow> bool" where
  "busy ws i \<longleftrightarrow> (\<exists>w<length ws. job_of (ws ! w) = Some i)"

definition worker_ok :: "pass_env \<Rightarrow> string list \<Rightarrow> worker \<Rightarrow> bool" where
  "worker_ok v routes st \<longleftrightarrow>
     (case st of
        Fetching i k \<Rightarrow> k \<le> retries v
      | Waiting i k _ \<Rightarrow> k \<le> retries v
      | Found i r status \<Rightarrow> r = wanted v i \<and> routes ! i = r \<and> evidence v i status \<and> (pv_requireHit v \<longrightarrow> status = ''HIT'')
      | Recorded i r status \<Rightarrow> r = wanted v i \<and> routes ! i = r \<and> evidence v i status \<and> (pv_requireHit v \<longrightarrow> status = ''HIT'')
      | _ \<Rightarrow> True)"

definition crew_ok :: "pass_env \<Rightarrow> worker list \<Rightarrow> string list \<Rightarrow> nat \<Rightarrow> bool" where
  "crew_ok v ws routes n \<longleftrightarrow> length routes = length (pv_artifacts v) \<and> n \<le> length (pv_artifacts v) \<and> (\<forall>i. busy ws i \<longrightarrow> i < n) \<and>
     (\<forall>w w' i. w < length ws \<longrightarrow> w' < length ws \<longrightarrow> job_of (ws ! w) = Some i \<longrightarrow> job_of (ws ! w') = Some i \<longrightarrow> w = w') \<and>
     (\<forall>w<length ws. worker_ok v routes (ws ! w))"

definition good :: "pass \<Rightarrow> bool" where
  "good s \<longleftrightarrow> \<not> cancelled s \<and> ps_unavailable s = []"

definition finished :: "worker list \<Rightarrow> nat \<Rightarrow> nat set" where
  "finished ws n = {i. i < n \<and> \<not> busy ws i}"

definition books :: "pass_env \<Rightarrow> bool \<Rightarrow> nat set \<Rightarrow> string list \<Rightarrow> PassStats \<Rightarrow> bool" where
  "books v fresh fin routes st \<longleftrightarrow> int (card fin) = st_Artifacts st \<and> st_Hits st + st_Misses st = st_Artifacts st \<and>
     (pv_requireHit v \<and> fresh \<longrightarrow> st_Misses st = 0) \<and>
     (\<forall>i\<in>fin. routes ! i = wanted v i \<and> (fresh \<longrightarrow> (\<exists>status. evidence v i status \<and> (pv_requireHit v \<longrightarrow> status = ''HIT''))))"

definition ck_routes :: "pass_env \<Rightarrow> checkpoint option \<Rightarrow> bool" where
  "ck_routes v c \<longleftrightarrow> (\<forall>c' i e. c = Some c' \<longrightarrow> i < length (pv_artifacts v) \<longrightarrow> completed c' (pv_artifacts v ! i) = Some e \<longrightarrow> ce_Route e = wanted v i)"

definition pass_inv :: "pass_env \<Rightarrow> pass \<Rightarrow> bool" where
  "pass_inv v s \<longleftrightarrow> crew_ok v (ps_workers s) (ps_routes s) (ps_next s) \<and> ck_routes v (ps_checkpoint s) \<and>
     (good s \<longrightarrow> books v (ps_checkpoint s = None) (finished (ps_workers s) (ps_next s)) (ps_routes s) (ps_stats s))"

lemma busy_same: "w < length ws \<Longrightarrow> job_of (ws ! w) = job_of st \<Longrightarrow> busy (ws[w := st]) = busy ws"
  unfolding busy_def fun_eq_iff by (metis length_list_update nth_list_update_eq nth_list_update_neq)

lemma busy_less: "job_of st = None \<or> w < length ws \<and> job_of st = job_of (ws ! w) \<Longrightarrow> busy (ws[w := st]) i \<Longrightarrow> busy ws i"
  unfolding busy_def by (metis length_list_update nth_list_update_eq nth_list_update_neq option.distinct(1))

lemma busy_free:
  assumes "crew_ok v ws routes n" and "w < length ws" and "job_of (ws ! w) = Some i" and "job_of st = None"
  shows "busy (ws[w := st]) j \<longleftrightarrow> busy ws j \<and> j \<noteq> i"
proof
  assume "busy (ws[w := st]) j"
  then obtain w' where "w' < length ws" "w' \<noteq> w" "job_of (ws ! w') = Some j"
    using assms(2,4) unfolding busy_def by (metis length_list_update nth_list_update_eq nth_list_update_neq option.distinct(1))
  then show "busy ws j \<and> j \<noteq> i" using assms(1-3) unfolding busy_def crew_ok_def by blast
next
  assume j: "busy ws j \<and> j \<noteq> i"
  then obtain w' where w': "w' < length ws" "job_of (ws ! w') = Some j" unfolding busy_def by blast
  then have "w' \<noteq> w" using assms(3) j by auto
  then show "busy (ws[w := st]) j" unfolding busy_def using w' by (intro exI [of _ w']) simp
qed

lemma crew_put:
  assumes ok: "crew_ok v ws routes n" and w: "w < length ws" and st: "job_of st = None \<or> job_of st = job_of (ws ! w)" and "worker_ok v routes st"
  shows "crew_ok v (ws[w := st]) routes n"
proof -
  have "w1 = w2" if "w1 < length ws" "w2 < length ws" "job_of (ws[w := st] ! w1) = Some i" "job_of (ws[w := st] ! w2) = Some i" for w1 w2 i
    using that ok st w unfolding crew_ok_def by (metis nth_list_update_eq nth_list_update_neq option.distinct(1))
  moreover have "worker_ok v routes (ws[w := st] ! w1)" if "w1 < length ws" for w1
    using that ok assms(4) w unfolding crew_ok_def by (metis nth_list_update_eq nth_list_update_neq)
  moreover have "busy (ws[w := st]) i \<Longrightarrow> i < n" for i using busy_less [of st w ws i] st w ok unfolding crew_ok_def by blast
  ultimately show ?thesis using ok unfolding crew_ok_def by simp
qed

lemma crew_route:
  assumes ok: "crew_ok v ws routes n" and w: "w < length ws" and at: "ws ! w = Fetching i k"
  shows "crew_ok v ws (routes[i := r]) n"
proof -
  have "worker_ok v (routes[i := r]) (ws ! w')" if w': "w' < length ws" for w'
  proof (cases "job_of (ws ! w') = Some i")
    case True
    moreover have "job_of (ws ! w) = Some i" using at by (simp add: job_of_def)
    ultimately have "w' = w" using ok w' w unfolding crew_ok_def by blast
    moreover have "worker_ok v routes (ws ! w)" using ok w unfolding crew_ok_def by blast
    ultimately show ?thesis using at by (simp add: worker_ok_def)
  next
    case False
    have "worker_ok v routes (ws ! w')" using ok w' unfolding crew_ok_def by blast
    then show ?thesis using False by (cases "ws ! w'") (auto simp: worker_ok_def job_of_def)
  qed
  then show ?thesis using ok unfolding crew_ok_def by simp
qed

lemma inv_keep:
  assumes "pass_inv v s" and "crew_ok v (ps_workers s') (ps_routes s') (ps_next s')" and "ck_routes v (ps_checkpoint s')"
    and "good s' \<Longrightarrow> good s \<and> books v (ps_checkpoint s' = None) (finished (ps_workers s') (ps_next s')) (ps_routes s') (ps_stats s')"
  shows "pass_inv v s'"
  using assms by (auto simp: pass_inv_def)

lemma inv_fail: "pass_inv v s \<Longrightarrow> w < length (ps_workers s) \<Longrightarrow> pass_inv v (fail w e s)"
  by (rule inv_keep) (auto simp: pass_inv_def fail_def put_worker_def good_def cancelled_def job_of_def worker_ok_def split: option.splits intro!: crew_put)

lemma inv_same:
  assumes inv: "pass_inv v s" and w: "w < length (ps_workers s)" and st: "job_of st = job_of (ps_workers s ! w)" and "worker_ok v (ps_routes s) st"
  shows "pass_inv v (put_worker w st s)"
proof -
  have "finished ((ps_workers s)[w := st]) (ps_next s) = finished (ps_workers s) (ps_next s)"
    using busy_same [of w "ps_workers s" st] w st by (simp add: finished_def)
  then show ?thesis
    using assms by (intro inv_keep [OF inv]) (auto simp: pass_inv_def put_worker_def good_def cancelled_def intro!: crew_put)
qed

lemma inv_route:
  assumes inv: "pass_inv v s" and w: "w < length (ps_workers s)" and at: "ps_workers s ! w = Fetching i k"
  shows "pass_inv v (set_route i r s)"
proof -
  have "busy (ps_workers s) i" unfolding busy_def using w at by (intro exI [of _ w]) (simp add: job_of_def)
  then have i: "i \<notin> finished (ps_workers s) (ps_next s)" by (simp add: finished_def)
  have "(ps_routes s)[i := r] ! j = ps_routes s ! j" if "j \<in> finished (ps_workers s) (ps_next s)" for j
    using that i by (metis nth_list_update_neq)
  then have "books v fresh (finished (ps_workers s) (ps_next s)) ((ps_routes s)[i := r]) st"
    if "books v fresh (finished (ps_workers s) (ps_next s)) (ps_routes s) st" for fresh st
    using that unfolding books_def by simp
  moreover have "crew_ok v (ps_workers s) ((ps_routes s)[i := r]) (ps_next s)"
    using inv by (intro crew_route [OF _ w at]) (simp add: pass_inv_def)
  ultimately show ?thesis using inv by (simp add: pass_inv_def set_route_def good_def cancelled_def)
qed

lemma inv_count:
  assumes inv: "pass_inv v s" and w: "w < length (ps_workers s)" and at: "job_of (ps_workers s ! w) = Some i"
    and route: "ps_routes s ! i = wanted v i"
    and ev: "ps_checkpoint s = None \<Longrightarrow> evidence v i status \<and> (pv_requireHit v \<longrightarrow> status = ''HIT'')"
  shows "pass_inv v (count w status e s)"
proof (cases "status = ''HIT'' \<or> status = ''MISS''")
  case False
  have "pass_inv v (fail w e s)" by (rule inv_fail [OF inv w])
  then show ?thesis using False
    by (intro inv_keep [OF \<open>pass_inv v (fail w e s)\<close>])
      (auto simp: count_def Let_def pass_inv_def fail_def put_worker_def good_def cancelled_def split: option.splits)
next
  case ok: True
  have crew: "crew_ok v (ps_workers s) (ps_routes s) (ps_next s)" using inv by (simp add: pass_inv_def)
  have "busy (ps_workers s) i" unfolding busy_def using w at by blast
  then have i: "i < ps_next s" "i \<notin> finished (ps_workers s) (ps_next s)" using crew by (auto simp: crew_ok_def finished_def)
  have fin: "finished ((ps_workers s)[w := Idle]) (ps_next s) = insert i (finished (ps_workers s) (ps_next s))"
    using busy_free [OF crew w at, of Idle] i by (auto simp: finished_def job_of_def)
  have "finite (finished (ps_workers s) (ps_next s))" by (simp add: finished_def)
  then have card: "card (insert i (finished (ps_workers s) (ps_next s))) = Suc (card (finished (ps_workers s) (ps_next s)))"
    using i(2) by (rule card_insert_disjoint)
  have "crew_ok v ((ps_workers s)[w := Idle]) (ps_routes s) (ps_next s)"
    by (rule crew_put [OF crew w]) (simp_all add: job_of_def worker_ok_def)
  moreover have "books v (ps_checkpoint s = None) (insert i (finished (ps_workers s) (ps_next s))) (ps_routes s) (ps_stats (count w status e s))"
    if "good s"
    using inv that ok route ev card unfolding books_def pass_inv_def count_def Let_def put_worker_def by auto
  ultimately show ?thesis
    using inv ok fin by (intro inv_keep [OF inv]) (auto simp: pass_inv_def count_def Let_def put_worker_def good_def cancelled_def)
qed

lemma inv_pacer: "pass_inv v s \<Longrightarrow> pass_inv v (s\<lparr>ps_pacer := p\<rparr>)"
  by (simp add: pass_inv_def good_def cancelled_def)

lemma inv_attempt:
  assumes inv: "pass_inv v s" and w: "w < length (ps_workers s)" and at: "ps_workers s ! w = Fetching i k"
  shows "pass_inv v (attempt v w i k s)"
proof -
  obtain evs p r where f: "fetchArtifact (pv_lib v) ((pv_cfg v)\<lparr>pw_attempt := int k + 1\<rparr>) (pv_answers v i k) (pv_artifacts v ! i) (job_routes v i) (ps_pacer s) = (evs, p, r)"
    by (metis prod_cases3)
  let ?s = "s\<lparr>ps_pacer := p\<rparr>"
  have s: "pass_inv v ?s" "w < length (ps_workers ?s)" "ps_workers ?s ! w = Fetching i k" using inv w at inv_pacer by auto
  have k: "k \<le> retries v" using inv w at by (auto simp: pass_inv_def crew_ok_def worker_ok_def dest!: spec [of _ w])
  have fails: "pass_inv v (fail w e ?s)" "pass_inv v (fail w e (set_route i route ?s))" for e route
    using inv_fail [OF s(1,2)] inv_fail [OF inv_route [OF s]] s(2) by (auto simp: set_route_def)
  show ?thesis
  proof (cases r)
    case (Inl err)
    show ?thesis
    proof (cases err)
      case (RateLimitError d valid h)
      have "pass_inv v (put_worker w (Waiting i (Suc k) x) ?s)" if "k < retries v" for x
        using that s(3) by (intro inv_same [OF s(1,2)]) (simp_all add: job_of_def worker_ok_def)
      then show ?thesis using Inl RateLimitError f fails by (simp add: attempt_def Let_def)
    next
      case (FetchError m)
      then show ?thesis using Inl f fails by (simp add: attempt_def Let_def)
    qed
  next
    case (Inr x)
    obtain status route found where x: "x = (status, route, found)" by (cases x)
    show ?thesis
    proof (cases found)
      case False
      have "crew_ok v ((ps_workers s)[w := Idle]) (ps_routes s) (ps_next s)"
        using inv w by (intro crew_put) (simp_all add: pass_inv_def job_of_def worker_ok_def)
      then show ?thesis using inv Inr x f False by (simp add: attempt_def Let_def pass_inv_def put_worker_def good_def)
    next
      case True
      then have "fetchArtifact (pv_lib v) ((pv_cfg v)\<lparr>pw_attempt := int k + 1\<rparr>) (pv_answers v i k) (pv_artifacts v ! i) (job_routes v i) (ps_pacer s) =
        (evs, p, Inr (status, route, True))" using f Inr x by simp
      from fetch_found [OF this]
      have "route = wanted v i \<and> served (pv_lib v) (pv_cfg v) (pv_answers v i k 0) (pv_artifacts v ! i) route status"
        by (auto simp: job_routes_one)
      then have route: "route = wanted v i" and ev: "evidence v i status" using k unfolding evidence_def by auto
      have i: "i < length (ps_routes s)" using inv w at by (auto simp: pass_inv_def crew_ok_def busy_def job_of_def dest!: spec [of _ i])
      have "pass_inv v (put_worker w (Found i route status) (set_route i route ?s))" if "pv_requireHit v \<longrightarrow> status = ''HIT''"
        using that route ev i s by (intro inv_same [OF inv_route [OF s]]) (simp_all add: set_route_def job_of_def worker_ok_def)
      then show ?thesis using Inr x f True fails by (simp add: attempt_def Let_def)
    qed
  qed
qed

lemma inv_start:
  assumes inv: "pass_inv v s" and w: "w < length (ps_workers s)" and at: "ps_workers s ! w = Fetching i 0"
  shows "pass_inv v (start_job v w i s)"
proof (cases "Option.bind (ps_checkpoint s) (\<lambda>c. completed c (pv_artifacts v ! i))")
  case None
  then show ?thesis using inv_attempt [OF assms] by (simp add: start_job_def)
next
  case (Some e)
  then obtain c where c: "ps_checkpoint s = Some c" "completed c (pv_artifacts v ! i) = Some e" by (auto split: bind_splits)
  have "busy (ps_workers s) i" unfolding busy_def using w at by (intro exI [of _ w]) (simp add: job_of_def)
  then have "i < length (pv_artifacts v)" using inv by (auto simp: pass_inv_def crew_ok_def)
  then have "ce_Route e = wanted v i" "i < length (ps_routes s)" using inv c by (auto simp: pass_inv_def ck_routes_def crew_ok_def)
  then have "pass_inv v (count w (ce_Status e) m (set_route i (ce_Route e) s))" for m
    using w at c by (intro inv_count [OF inv_route [OF assms]]) (auto simp: set_route_def job_of_def)
  then show ?thesis using Some by (simp add: start_job_def Let_def)
qed

lemma inv_record:
  assumes inv: "pass_inv v s" and w: "w < length (ps_workers s)" and at: "ps_workers s ! w = Found i route status"
    and dist: "distinct (map art_Path (pv_artifacts v))"
  shows "pass_inv v (record_job v w i route status s)"
proof -
  have found: "worker_ok v (ps_routes s) (Found i route status)" using inv w at by (auto simp: pass_inv_def crew_ok_def dest!: spec [of _ w])
  then have rec: "worker_ok v (ps_routes s) (Recorded i route status)" and route: "route = wanted v i" by (auto simp: worker_ok_def)
  have "busy (ps_workers s) i" unfolding busy_def using w at by (intro exI [of _ w]) (simp add: job_of_def)
  then have i: "i < length (pv_artifacts v)" using inv by (auto simp: pass_inv_def crew_ok_def)
  show ?thesis
  proof (cases "ps_checkpoint s")
    case None
    then show ?thesis using inv_same [OF inv w, of "Recorded i route status"] at rec by (simp add: record_job_def job_of_def)
  next
    case (Some c)
    obtain err c' files where r: "checkpoint_record (pv_ck v) (pv_faults v i) (pv_artifacts v ! i) route status c (ps_disk s) = (err, c', files)"
      by (metis prod_cases3)
    have c': "completed c' (pv_artifacts v ! j) = (if j = i then Some \<lparr>ce_Route = route, ce_Status = status\<rparr> else completed c (pv_artifacts v ! j))"
      if "j < length (pv_artifacts v)" for j
    proof -
      have "art_Path (pv_artifacts v ! j) = art_Path (pv_artifacts v ! i) \<longleftrightarrow> j = i" using dist that i by (metis length_map nth_eq_iff_index_eq nth_map)
      moreover have "map_of (ck_entries c') = (map_of (ck_entries c))(art_Path (pv_artifacts v ! i) \<mapsto> \<lparr>ce_Route = route, ce_Status = status\<rparr>)"
        using r by (auto simp: checkpoint_record_def Let_def update_conv' split: prod.splits)
      ultimately show ?thesis by (simp add: completed_def)
    qed
    have "ck_routes v (Some c')" using inv Some route c' by (auto simp: pass_inv_def ck_routes_def)
    then have "pass_inv v (s\<lparr>ps_checkpoint := Some c', ps_disk := files\<rparr>)" (is "pass_inv v ?s")
      using inv Some by (simp add: pass_inv_def good_def cancelled_def)
    then have "pass_inv v (fail w e ?s)" "pass_inv v (put_worker w (Recorded i route status) ?s)" for e
      using inv_fail [of v ?s w e] inv_same [of v ?s w "Recorded i route status"] w at rec by (simp_all add: job_of_def)
    then show ?thesis using Some r by (simp add: record_job_def Let_def split: option.split)
  qed
qed

lemma step_inv:
  assumes inv: "pass_inv v s" and dist: "distinct (map art_Path (pv_artifacts v))" and step: "pass_step v act s = Some s'"
  shows "pass_inv v s'"
proof (cases act)
  case (Send w)
  then have w: "w < length (ps_workers s)" "ps_workers s ! w = Idle" and n: "ps_next s < length (pv_artifacts v)"
    and s': "s' = put_worker w (Fetching (ps_next s) 0) (s\<lparr>ps_next := Suc (ps_next s)\<rparr>)"
    using step at_worker_ne [of s w] by (auto split: if_splits)
  let ?ws = "(ps_workers s)[w := Fetching (ps_next s) 0]"
  have crew: "crew_ok v (ps_workers s) (ps_routes s) (ps_next s)" using inv by (simp add: pass_inv_def)
  have job: "job_of (?ws ! w') = (if w' = w then Some (ps_next s) else job_of (ps_workers s ! w'))" if "w' < length (ps_workers s)" for w'
    using that w(1) by (simp add: job_of_def)
  have idle: "job_of (ps_workers s ! w) = None" using w(2) by (simp add: job_of_def)
  have busy: "busy ?ws i \<longleftrightarrow> i = ps_next s \<or> busy (ps_workers s) i" for i
    using job w(1) idle unfolding busy_def by (metis length_list_update option.distinct(1) option.inject)
  have next_free: "\<not> busy (ps_workers s) (ps_next s)" using crew unfolding crew_ok_def by blast
  have fresh: "job_of (ps_workers s ! w') \<noteq> Some (ps_next s)" if "w' < length (ps_workers s)" for w'
    using next_free that unfolding busy_def by blast
  have "crew_ok v ?ws (ps_routes s) (Suc (ps_next s))"
    unfolding crew_ok_def
  proof (intro conjI allI impI)
    fix w1 w2 i
    assume "w1 < length ?ws" "w2 < length ?ws" "job_of (?ws ! w1) = Some i" "job_of (?ws ! w2) = Some i"
    then show "w1 = w2" using job crew fresh unfolding crew_ok_def by (metis length_list_update option.inject)
  next
    fix w1
    assume "w1 < length ?ws"
    then show "worker_ok v (ps_routes s) (?ws ! w1)"
      using crew w(1) by (cases "w1 = w") (auto simp: crew_ok_def worker_ok_def)
  qed (use crew n busy in \<open>auto simp: crew_ok_def less_Suc_eq\<close>)
  moreover have "finished ?ws (Suc (ps_next s)) = finished (ps_workers s) (ps_next s)"
    using busy next_free by (auto simp: finished_def less_Suc_eq)
  ultimately show ?thesis using inv unfolding s' by (simp add: pass_inv_def put_worker_def good_def cancelled_def)
next
  case Close
  then show ?thesis using step inv by (auto simp: pass_inv_def good_def cancelled_def split: if_splits)
next
  case (Attempt w)
  then obtain i k where at: "at_worker s w = Fetching i k" and s': "s' = (if k = 0 then start_job v w i s else attempt v w i k s)"
    using step by (auto split: worker.splits)
  then have "w < length (ps_workers s)" "ps_workers s ! w = Fetching i k" using at_worker_ne [of s w] by auto
  then show ?thesis using inv_start [OF inv] inv_attempt [OF inv] s' by auto
next
  case (Wake w)
  then obtain i k d where at: "at_worker s w = Waiting i k d" and s': "s' = put_worker w (Fetching i k) s" using step by (auto split: worker.splits)
  have w: "w < length (ps_workers s)" "ps_workers s ! w = Waiting i k d" using at_worker_ne [of s w] at by auto
  then have "worker_ok v (ps_routes s) (Waiting i k d)" using inv by (auto simp: pass_inv_def crew_ok_def dest!: spec [of _ w])
  then show ?thesis using w unfolding s' by (intro inv_same [OF inv]) (simp_all add: job_of_def worker_ok_def)
next
  case (GiveUp w)
  then have w: "w < length (ps_workers s)" and bad: "cancelled s" and s': "s' = put_worker w Exited s"
    using step at_worker_ne [of s w] by (auto split: worker.splits if_splits)
  have "crew_ok v ((ps_workers s)[w := Exited]) (ps_routes s) (ps_next s)"
    using inv w by (intro crew_put) (simp_all add: pass_inv_def job_of_def worker_ok_def)
  then show ?thesis using inv bad unfolding s' by (simp add: pass_inv_def put_worker_def good_def cancelled_def)
next
  case (Record w)
  then show ?thesis using step at_worker_ne [of s w] inv_record [OF inv _ _ dist] by (auto split: worker.splits)
next
  case (Count w)
  then obtain i r st m where at: "at_worker s w = Recorded i r st" and s': "s' = count w st m s" using step by (auto split: worker.splits)
  have w: "w < length (ps_workers s)" "ps_workers s ! w = Recorded i r st" using at_worker_ne [of s w] at by auto
  then have "worker_ok v (ps_routes s) (Recorded i r st)" using inv by (auto simp: pass_inv_def crew_ok_def dest!: spec [of _ w])
  then show ?thesis using w unfolding s' by (intro inv_count [OF inv]) (auto simp: job_of_def worker_ok_def)
next
  case (Exit w)
  then have w: "w < length (ps_workers s)" "ps_workers s ! w = Idle" and s': "s' = put_worker w Exited s"
    using step at_worker_ne [of s w] by (auto split: if_splits)
  then show ?thesis by (simp add: inv_same [OF inv] job_of_def worker_ok_def)
next
  case (Cancel e)
  then show ?thesis using step inv by (auto simp: pass_inv_def good_def cancelled_def split: if_splits)
qed

lemma run_inv: "pass_run v acts s = Some s' \<Longrightarrow> distinct (map art_Path (pv_artifacts v)) \<Longrightarrow> pass_inv v s \<Longrightarrow> pass_inv v s'"
  by (induction acts arbitrary: s) (auto split: bind_splits dest: step_inv)

lemma ck_kept: "pass_step v act s = Some s' \<Longrightarrow> ps_checkpoint s' = None \<longleftrightarrow> ps_checkpoint s = None"
proof -
  have count: "ps_checkpoint (count w st e x) = ps_checkpoint x" for w st e x by (simp add: count_def step_defs)
  have attempt: "ps_checkpoint (attempt v w i k x) = ps_checkpoint x" for w i k x
    by (auto simp: attempt_def step_defs split: prod.split sum.split fetch_error.split)
  have "ps_checkpoint (start_job v w i x) = ps_checkpoint x" for w i x
    by (simp add: start_job_def Let_def count attempt split: option.split) (simp add: set_route_def)
  moreover have "ps_checkpoint (record_job v w i r st x) = None \<longleftrightarrow> ps_checkpoint x = None" for w i r st x
    by (auto simp: record_job_def step_defs split: prod.split option.split)
  ultimately show "pass_step v act s = Some s' \<Longrightarrow> ?thesis"
    using count attempt by (cases act) (auto simp: put_worker_def split: if_splits worker.splits)
qed

lemma run_ck: "pass_run v acts s = Some s' \<Longrightarrow> ps_checkpoint s' = None \<longleftrightarrow> ps_checkpoint s = None"
  by (induction acts arbitrary: s) (auto split: bind_splits dest: ck_kept)

lemma pass_success:
  assumes dist: "distinct (map art_Path (pv_artifacts v))" and ck: "ck_routes v c"
    and run: "runPass v c files schedule = Some (Inr (stats, routes), files')"
  shows "st_Artifacts stats = int (length (pv_artifacts v))" and "st_Hits stats + st_Misses stats = st_Artifacts stats"
    and "length routes = length (pv_artifacts v)" and "i < length (pv_artifacts v) \<Longrightarrow> routes ! i = wanted v i"
    and "c = None \<Longrightarrow> i < length (pv_artifacts v) \<Longrightarrow> \<exists>status. evidence v i status \<and> (pv_requireHit v \<longrightarrow> status = ''HIT'')"
    and "c = None \<Longrightarrow> pv_requireHit v \<Longrightarrow> st_Misses stats = 0"
proof -
  obtain s where s: "pass_run v schedule (pass_start v c files) = Some s" and over: "pass_over s" and res: "pass_result s = Inr (stats, routes)"
    using run by (auto simp: runPass_def split: option.splits if_splits bind_splits)
  have "crew_ok v (ps_workers (pass_start v c files)) (ps_routes (pass_start v c files)) 0"
    by (auto simp: crew_ok_def pass_start_def busy_def job_of_def worker_ok_def)
  then have "pass_inv v (pass_start v c files)" using ck by (auto simp: pass_inv_def pass_start_def books_def finished_def)
  then have inv: "pass_inv v s" using run_inv [OF s dist] by blast
  have ok: "good s" "stats = ps_stats s" "routes = ps_routes s"
    using res by (auto simp: pass_result_def good_def cancelled_def split: option.splits if_splits)
  have "pass_live v s" using run_live [OF s] by (simp add: pass_live_def pass_start_def)
  then have n: "ps_next s = length (pv_artifacts v)" using over ok(1) by (auto simp: pass_live_def pass_over_def good_def)
  have "\<not> busy (ps_workers s) i" for i using over by (auto simp: pass_over_def busy_def list_all_length job_of_def)
  then have fin: "finished (ps_workers s) (ps_next s) = {..<length (pv_artifacts v)}" using n by (auto simp: finished_def)
  have "ps_checkpoint s = None \<longleftrightarrow> c = None" using run_ck [OF s] by (simp add: pass_start_def)
  then have b: "books v (c = None) {..<length (pv_artifacts v)} routes stats" using inv ok fin by (simp add: pass_inv_def)
  then show "st_Artifacts stats = int (length (pv_artifacts v))" "st_Hits stats + st_Misses stats = st_Artifacts stats"
    "i < length (pv_artifacts v) \<Longrightarrow> routes ! i = wanted v i"
    "c = None \<Longrightarrow> i < length (pv_artifacts v) \<Longrightarrow> \<exists>status. evidence v i status \<and> (pv_requireHit v \<longrightarrow> status = ''HIT'')"
    "c = None \<Longrightarrow> pv_requireHit v \<Longrightarrow> st_Misses stats = 0"
    by (auto simp: books_def)
  show "length routes = length (pv_artifacts v)" using inv ok by (simp add: pass_inv_def crew_ok_def)
qed

lemma loaded_routes:
  assumes load: "loadCheckpoint lib io files path cfg artifacts = Inr c" and dist: "distinct (map art_Path artifacts)"
    and v: "pv_artifacts v = artifacts" "\<And>i. i < length artifacts \<Longrightarrow> wanted v i = artifact_route cfg (artifacts ! i)"
  shows "ck_routes v c"
proof -
  have "ce_Route e = artifact_route cfg (artifacts ! i)" if c: "c = Some c'" "i < length artifacts" "completed c' (artifacts ! i) = Some e" for c' i e
  proof -
    have "list_all (entry_ok cfg artifacts) (ck_entries c')" using load_inv [of lib io files path cfg artifacts c'] load c(1) by (simp add: ck_inv_def)
    moreover have "(art_Path (artifacts ! i), e) \<in> set (ck_entries c')" using c(3) by (auto simp: completed_def dest: map_of_SomeD)
    ultimately have "map_of (valid_routes cfg artifacts) (art_Path (artifacts ! i)) = Some (ce_Route e)" by (auto simp: list_all_iff entry_ok_def)
    then show ?thesis using map_of_valid_routes [OF dist nth_mem [OF c(2)]] by simp
  qed
  then show ?thesis using v by (auto simp: ck_routes_def)
qed

lemma run_verifies:
  assumes run: "Run rv cfg artifacts files sched1 sched2 = Some (None, out)" and dist: "distinct (map art_Path artifacts)"
  shows "\<exists>n. normalizeRunConfig (rv_url rv) cfg = Inr n \<and>
    (\<forall>i<length artifacts. \<exists>k\<le>nat (pw_RateLimitRetries n).
       served (rv_lib rv) n (rv_answers rv 2 i k 0) (artifacts ! i) (artifact_route n (artifacts ! i)) ''HIT'') \<and>
    (rv_output rv \<longrightarrow> (\<exists>h m. h + m = int (length artifacts) \<and>
       out = pass_line 1 \<lparr>st_Artifacts = int (length artifacts), st_Hits = h, st_Misses = m\<rparr> @
         pass_line 2 \<lparr>st_Artifacts = int (length artifacts), st_Hits = int (length artifacts), st_Misses = 0\<rparr>))"
proof -
  obtain n where n: "normalizeRunConfig (rv_url rv) cfg = Inr n" and passes: "run_passes rv n artifacts files sched1 sched2 = Some (None, out)"
    using run by (auto simp: Run_def split: sum.splits option.splits)
  let ?v1 = "pass_of rv n artifacts None False"
  obtain c st1 routes files1 out1 st2 r2 files2 out2 where plugin: "\<not> (list_ex art_pluginMarker artifacts \<and> pw_PluginRoutePrefix n = [])"
    and load: "loadCheckpoint (rv_ck rv) (rv_load rv) files (pw_StateFile n) n artifacts = Inr c"
    and p1: "runPass ?v1 c files sched1 = Some (Inr (st1, routes), files1)"
    and o1: "writePassSummary (rv_output rv) (rv_fault rv 1) 1 st1 = (None, out1)"
    and p2: "runPass (pass_of rv n artifacts (Some routes) True) None files1 sched2 = Some (Inr (st2, r2), files2)"
    and o2: "writePassSummary (rv_output rv) (rv_fault rv 2) 2 st2 = (None, out2)" and out: "out = out1 @ out2"
    using passes by (auto simp: run_passes_def Let_def split: if_splits sum.splits option.splits prod.splits)
  let ?v2 = "pass_of rv n artifacts (Some routes) True"
  have arts: "pv_artifacts ?v1 = artifacts" "pv_artifacts ?v2 = artifacts" by (simp_all add: pass_of_def)
  have want1: "wanted ?v1 i = artifact_route n (artifacts ! i)" if "i < length artifacts" for i
    using that plugin nth_mem [OF that] by (auto simp: wanted_def job_routes_def routeCandidates_def pass_of_def artifact_route_def list_ex_iff)
  have ck: "ck_routes ?v1 c" by (rule loaded_routes [OF load dist arts(1) want1])
  note first = pass_success [of ?v1, unfolded arts, OF dist ck p1]
  have "ck_routes ?v2 None" by (simp add: ck_routes_def)
  note second = pass_success [of ?v2, unfolded arts, OF dist this p2]
  have want2: "wanted ?v2 i = artifact_route n (artifacts ! i)" if "i < length artifacts" for i
    using first(4) [OF that] want1 [OF that] by (simp add: wanted_def job_routes_def pass_of_def)
  have hit: "\<exists>k\<le>nat (pw_RateLimitRetries n). served (rv_lib rv) n (rv_answers rv 2 i k 0) (artifacts ! i) (artifact_route n (artifacts ! i)) ''HIT''"
    if i: "i < length artifacts" for i
  proof -
    have "evidence ?v2 i ''HIT''" using second(5) [OF refl i] by (simp add: pass_of_def)
    then show ?thesis using want2 [OF i] by (simp add: evidence_def retries_def) (simp add: pass_of_def)
  qed
  have st2: "st_Artifacts st2 = int (length artifacts)" "st_Misses st2 = 0" "st_Hits st2 = int (length artifacts)"
    using second(1,2) second(6) [OF refl] by (simp_all add: pass_of_def)
  have "out = pass_line 1 \<lparr>st_Artifacts = int (length artifacts), st_Hits = st_Hits st1, st_Misses = st_Misses st1\<rparr> @
      pass_line 2 \<lparr>st_Artifacts = int (length artifacts), st_Hits = int (length artifacts), st_Misses = 0\<rparr>" if "rv_output rv"
    using that o1 o2 first(1) st2 out by (simp add: writePassSummary_def pass_line_def split: option.splits)
  moreover have "st_Hits st1 + st_Misses st1 = int (length artifacts)" using first(1,2) by simp
  ultimately show ?thesis using n hit by blast
qed

text \<open>C34: A run that reports success has verified every artifact. If Run returns without an error,
  under whatever interleaving of its workers and with or without a checkpoint, then in the second
  pass the proxy answered the request for every artifact of the manifest, on the route its kind
  calls for, with a success marked HIT, within the allowed retries, and the bytes of that
  answer have a SHA-256 of the manifest. When an output is given, it has one line for each pass;
  each accounts for all artifacts, the second with hits only.\<close>

theorem prewarm_verified:
  assumes run: "Run rv cfg artifacts files sched1 sched2 = Some (None, out)" and dist: "distinct (map art_Path artifacts)"
  shows "\<exists>n. normalizeRunConfig (rv_url rv) cfg = Inr n \<and>
    (\<forall>i<length artifacts. \<exists>k\<le>nat (pw_RateLimitRetries n).
       served (rv_lib rv) n (rv_answers rv 2 i k 0) (artifacts ! i) (artifact_route n (artifacts ! i)) ''HIT'') \<and>
    (rv_output rv \<longrightarrow> (\<exists>h m. h + m = int (length artifacts) \<and>
       out = pass_line 1 \<lparr>st_Artifacts = int (length artifacts), st_Hits = h, st_Misses = m\<rparr> @
         pass_line 2 \<lparr>st_Artifacts = int (length artifacts), st_Hits = int (length artifacts), st_Misses = 0\<rparr>))"
  by (rule run_verifies [OF assms])

section \<open>Requests are spaced\<close>

text \<open>The times at which requests were let through, the clock readings being ordered and a wait that
  was not interrupted lasting as long as asked.\<close>

fun grants :: "requestPacer option \<Rightarrow> pace_env list \<Rightarrow> time list" where
  "grants p [] = []"
| "grants p (e # es) = (let (err, p) = pacer_do e p in if err = None then pa_now e # grants p es else grants p es)"

fun clock_ok :: "time \<Rightarrow> requestPacer option \<Rightarrow> pace_env list \<Rightarrow> bool" where
  "clock_ok t p [] \<longleftrightarrow> True"
| "clock_ok t p (e # es) \<longleftrightarrow> t \<le> pa_until e \<and> pa_until e \<le> pa_now e \<and>
     (\<forall>p'. p = Some p' \<and> fst (pacer_do e p) = None \<longrightarrow> pa_until e + time_Sub (rp_next p') (pa_until e) \<le> pa_now e) \<and>
     clock_ok (pa_now e) (snd (pacer_do e p)) es"

lemma paced_from:
  assumes "clock_ok t (Some p) es" and "rp_next p \<le> t + rp_minInterval p" and "0 < rp_minInterval p" and "rp_minInterval p \<le> maxDuration"
  shows "sorted_wrt (\<lambda>a b. a + rp_minInterval p \<le> b) (grants (Some p) es) \<and> (\<forall>x\<in>set (grants (Some p) es). rp_next p \<le> x)"
  using assms
proof (induction es arbitrary: t p)
  case (Cons e es)
  show ?case
  proof (cases "waitContext (pa_ctx e) (time_Sub (rp_next p) (pa_until e))")
    case None
    let ?p = "p\<lparr>rp_next := pa_now e + rp_minInterval p\<rparr>"
    have d: "pacer_do e (Some p) = (None, Some ?p)" using None by (simp add: pacer_do_def)
    have ck: "t \<le> pa_until e" "pa_until e \<le> pa_now e" "pa_until e + time_Sub (rp_next p) (pa_until e) \<le> pa_now e" "clock_ok (pa_now e) (Some ?p) es"
      using Cons.prems(1) d by auto
    have "rp_next p \<le> pa_now e" using ck(1-3) Cons.prems(2-4) by (auto simp: time_Sub_def minDuration_def maxDuration_def max_def min_def split: if_splits)
    moreover have "sorted_wrt (\<lambda>a b. a + rp_minInterval p \<le> b) (grants (Some ?p) es) \<and> (\<forall>x\<in>set (grants (Some ?p) es). pa_now e + rp_minInterval p \<le> x)"
      using Cons.IH [OF ck(4)] Cons.prems(3,4) by simp
    ultimately show ?thesis using d Cons.prems(3) by auto
  next
    case (Some m)
    then have d: "pacer_do e (Some p) = (Some m, Some p)" by (simp add: pacer_do_def)
    then have "clock_ok (pa_now e) (Some p) es" "t \<le> pa_now e" using Cons.prems(1) by auto
    then show ?thesis using Cons.IH [of "pa_now e" p] Cons.prems(2-4) d by auto
  qed
qed simp

lemma requests_spaced:
  assumes "0 < m" and "m \<le> maxDuration" and "0 \<le> t" and "clock_ok t (newRequestPacer m) es"
  shows "sorted_wrt (\<lambda>a b. a + m \<le> b) (grants (newRequestPacer m) es)"
  using paced_from [of t "\<lparr>rp_minInterval = m, rp_next = 0\<rparr>" es] assms by (simp add: newRequestPacer_def)

section \<open>An example\<close>

definition example_pw_url :: url_lib where
  "example_pw_url = example_url_lib\<lparr>ul_conf := ul_conf example_url_lib\<lparr>clib_ParseRequestURI := \<lambda>_. Inr
    \<lparr>u_Scheme = ''http'', u_Host = ''h'', u_HasUser = False, u_Path = [], u_RawQuery = [], u_ForceQuery = False, u_Fragment = []\<rparr>\<rparr>, ul_String := (\<lambda>_. ''http://h'')\<rparr>"

definition example_pw_lib :: prewarm_lib where
  "example_pw_lib = \<lparr>pwl_JoinPath = (\<lambda>base elems. Inr base), pwl_NewRequest = (\<lambda>_. None), pwl_base64 = id, pwl_sha256 = (\<lambda>_. example_key),
     pwl_http = \<lparr>hl_ParseTime = (\<lambda>_. None), hl_FormatTime = (\<lambda>_. [])\<rparr>\<rparr>"

definition example_answer :: "string \<Rightarrow> upstream_response" where
  "example_answer status = \<lparr>resp_StatusCode = 200, resp_Header = [(''X-Package-Firewall-Cache'', [status])], resp_Body = [(''x'', ReadEOF)],
     resp_ContentLength = 1, resp_Uncompressed = False, resp_Location = None, resp_Request = None\<rparr>"

definition example_fetch :: "string \<Rightarrow> fetch_env" where
  "example_fetch status = \<lparr>ft_started = 0, ft_pace = \<lparr>pa_until = 0, pa_ctx = None, pa_now = 0\<rparr>, ft_sent = 0, ft_do = (\<lambda>_. Inr (example_answer status)),
     ft_returned = 0, ft_headers = 0, ft_now = 0, ft_ended = 0\<rparr>"

definition example_run_env :: run_env where
  "example_run_env = \<lparr>rv_url = example_pw_url, rv_lib = example_pw_lib, rv_ck = example_ck_lib, rv_load = (\<lambda>_. None), rv_output = True,
     rv_fault = (\<lambda>_. None), rv_progressErr = None, rv_answers = (\<lambda>n _ _ _. example_fetch (if n = 1 then ''MISS'' else ''HIT'')), rv_saves = (\<lambda>_ _. None)\<rparr>"

definition example_schedule :: "action list" where
  "example_schedule = [Send 0, Attempt 0, Record 0, Count 0, Close, Exit 0]"

definition example_config :: RunConfig where
  "example_config = example_run\<lparr>pw_StateFile := []\<rparr>"

lemma example_config_normal:
  "\<exists>client. normalizeRunConfig example_pw_url example_config = Inr (example_config\<lparr>pw_HTTPClient := Some client\<rparr>)"
  by (simp add: normalizeRunConfig_def check_limits_def check_prefixes_def normalizeRoutePrefix_def example_config_def example_run_def example_pw_url_def go_eval)

lemma example_status: "response_status (example_answer ''HIT'') = ''HIT''" "response_status (example_answer ''MISS'') = ''MISS''"
  by (simp_all add: response_status_def example_answer_def header_Get_def cacheStatusHeader_def CanonicalHeaderKey_def header_token_def alnum_def
      upper_of_def ToUpper_def go_eval)

lemma example_fetched:
  "\<exists>evs. fetchArtifactFromRoute example_pw_lib cfg (example_fetch status) example_jar route None = (evs, None, Inr (response_status (example_answer status), True))"
proof -
  have j: "judge_response example_pw_lib 0 example_jar (example_answer status) = (''verified'', 1, Inr (response_status (example_answer status), True))"
    by (simp add: judge_response_def example_answer_def containsChecksum_def example_jar_def example_pw_lib_def EqualFold_def Let_def)
  have "\<exists>request. build_request example_pw_lib cfg example_jar route = Inr request"
    by (simp add: build_request_def example_pw_lib_def Let_def)
  then show ?thesis using j by (auto simp: fetchArtifactFromRoute_def Let_def pacer_do_def example_fetch_def)
qed

lemma example_pass:
  assumes "if hit then status = ''HIT'' else status = ''MISS''" and "selected = (if hit then Some [''/maven/''] else None)"
  shows "runPass (pass_of example_run_env (example_config\<lparr>pw_HTTPClient := client\<rparr>) [example_jar] selected hit) None files example_schedule =
    Some (Inr (\<lparr>st_Artifacts = 1, st_Hits = (if hit then 1 else 0), st_Misses = (if hit then 0 else 1)\<rparr>, [''/maven/'']), files)"
proof -
  have st: "response_status (example_answer status) = status" using example_status assms(1) by (cases hit) simp_all
  obtain evs where f: "fetchArtifactFromRoute example_pw_lib (example_config\<lparr>pw_HTTPClient := client, pw_pass := if hit then 2 else 1, pw_total := 1, pw_attempt := 1\<rparr>)
      (example_fetch status) example_jar ''/maven/'' None = (evs, None, Inr (status, True))"
    using example_fetched [of "example_config\<lparr>pw_HTTPClient := client, pw_pass := if hit then 2 else 1, pw_total := 1, pw_attempt := 1\<rparr>" status "''/maven/''"] st
    by auto
  have a: "rv_answers example_run_env (if hit then 2 else 1) 0 0 0 = example_fetch status" using assms(1) by (auto simp: example_run_env_def)
  have lib: "rv_lib example_run_env = example_pw_lib" by (simp add: example_run_env_def)
  have cfg: "pw_Concurrency example_config = 1" "pw_RoutePrefix example_config = ''/maven/''" "pw_MinRequestInterval example_config = 0"
    "\<not> art_pluginMarker example_jar" by (simp_all add: example_config_def example_run_def example_jar_def)
  show ?thesis
    using f a assms unfolding example_schedule_def
    by (cases hit) (simp_all add: runPass_def pass_start_def pass_of_def at_worker_def put_worker_def start_job_def attempt_def record_job_def count_def
      set_route_def job_routes_def routeCandidates_def cfg lib Let_def newRequestPacer_def pass_over_def pass_result_def cancelled_def)
qed

theorem prewarm_verified_witness:
  "\<exists>out n. Run example_run_env example_config [example_jar] (\<lambda>_. None) example_schedule example_schedule = Some (None, out) \<and>
     (\<exists>k\<le>nat (pw_RateLimitRetries n). served example_pw_lib n (rv_answers example_run_env 2 0 k 0) example_jar (artifact_route n example_jar) ''HIT'')"
proof -
  obtain client where n: "normalizeRunConfig example_pw_url example_config = Inr (example_config\<lparr>pw_HTTPClient := Some client\<rparr>)"
    using example_config_normal by blast
  have env: "rv_url example_run_env = example_pw_url" "rv_output example_run_env" "rv_fault example_run_env = (\<lambda>_. None)" "rv_progressErr example_run_env = None"
    "\<not> art_pluginMarker example_jar" "pw_StateFile example_config = []"
    by (simp_all add: example_run_env_def example_jar_def example_config_def)
  have "\<exists>out. Run example_run_env example_config [example_jar] (\<lambda>_. None) example_schedule example_schedule = Some (None, out)"
    using n example_pass [of False "''MISS''" None "Some client" "\<lambda>_. None"] example_pass [of True "''HIT''" "Some [''/maven/'']" "Some client" "\<lambda>_. None"]
    by (simp add: Run_def run_passes_def loadCheckpoint_def writePassSummary_def env)
  then obtain out where out: "Run example_run_env example_config [example_jar] (\<lambda>_. None) example_schedule example_schedule = Some (None, out)" ..
  have "distinct (map art_Path [example_jar])" by simp
  from prewarm_verified [OF out this] out show ?thesis by (auto simp: example_run_env_def)
qed

theorem pass_terminates_witness:
  "\<exists>s. pass_run (pass_of example_run_env example_config [example_jar] None False) [Send 0, Cancel ''canceled''] (pass_start (pass_of example_run_env example_config [example_jar] None False) None (\<lambda>_. None)) = Some s \<and>
    (\<exists>acts' s'. pass_run (pass_of example_run_env example_config [example_jar] None False) ([Send 0, Cancel ''canceled''] @ acts')
       (pass_start (pass_of example_run_env example_config [example_jar] None False) None (\<lambda>_. None)) = Some s' \<and> pass_over s')"
proof -
  let ?v = "pass_of example_run_env example_config [example_jar] None False"
  have "\<exists>s. pass_run ?v [Send 0, Cancel ''canceled''] (pass_start ?v None (\<lambda>_. None)) = Some s"
    by (simp add: pass_start_def pass_of_def at_worker_def put_worker_def example_config_def example_run_def)
  then obtain s where s: "pass_run ?v [Send 0, Cancel ''canceled''] (pass_start ?v None (\<lambda>_. None)) = Some s" ..
  have "1 \<le> pw_Concurrency (pv_cfg ?v)" by (simp add: pass_of_def example_config_def example_run_def)
  from pass_terminates [OF this s] s show ?thesis by blast
qed

end
