(* ===== verification/Cli.thy ===== *)
theory Cli
  imports Server Fill Prewarm
begin

text \<open>
  The command line (internal/cli): wiring of the server from its configuration, and the tools.
  Flags arrive parsed, as package flag leaves them; the tab writer, the AWS clients and the message
  of an OSV error are parameters. What a command prints is part of its result.
\<close>

section \<open>Wiring\<close>

definition loadPolicy :: "(string \<Rightarrow> string + string) \<Rightarrow> (string \<Rightarrow> string + policy_Config) \<Rightarrow> Config \<Rightarrow> string + Engine" where
  "loadPolicy read_file unmarshal cfg =
     (case (if pol_Files (cfg_Policy cfg) = [] then Inr (policy_New emptyConfig)
            else policy_Load read_file unmarshal (pol_Files (cfg_Policy cfg))) of
        Inl e \<Rightarrow> Inl e
      | Inr (engine, errs) \<Rightarrow> if errs = [] then Inr engine else Inl ''invalid policy rules'')"

datatype Provider = NoopProvider | OSV OSVProvider

definition providerFromConfig :: "Config \<Rightarrow> Provider" where
  "providerFromConfig cfg =
     (let osv = int_OSV (cfg_Intel cfg) in
      if \<not> osvc_Enabled osv then NoopProvider else OSV (NewOSVProvider (osvc_APIURL osv) (osvc_CacheTTL osv)))"

record osv_env =
  oe_lib :: osv_lib
  oe_post :: osv_post
  oe_message :: "osv_error \<Rightarrow> string"
  oe_now :: time
  oe_fetched :: time

definition provider_Query :: "osv_env \<Rightarrow> Package \<Rightarrow> Provider \<Rightarrow> (string + Result) \<times> Provider" where
  "provider_Query e pkg p =
     (case p of
        NoopProvider \<Rightarrow> (NoopProvider_Query pkg, NoopProvider)
      | OSV osv \<Rightarrow>
          (case OSVProvider_Query (oe_lib e) (oe_post e) (oe_now e) (oe_fetched e) pkg osv of
             (Inl err, osv) \<Rightarrow> (Inl (oe_message e err), OSV osv)
           | (Inr r, osv) \<Rightarrow> (Inr r, OSV osv)))"

datatype 'o store = NoStore | FileSystem FileSystemStore | S3 "'o S3Store"

record ('o, 't) RuntimeConfig =
  rt_Cache :: proxy_CacheConfig
  rt_TempDirectory :: string
  rt_Store :: "'o store"
  rt_Coordinator :: "'t DynamoDBCoordinator option"

text \<open>The AWS configuration gives the clients, each with its service behind it.\<close>

record ('o, 't) aws =
  aws_s3 :: "'o S3Store"
  aws_dynamodb :: "'t DynamoDBCoordinator"

definition runtimeFromConfig :: "string + ('o, 't) aws \<Rightarrow> FileSystemStore \<Rightarrow> Config \<Rightarrow> string + ('o, 't) RuntimeConfig" where
  "runtimeFromConfig loadDefaultConfig disk cfg =
     (let c = cfg_Cache cfg; crd = cfg_Coordination cfg;
          rt = (\<lambda>st co. \<lparr>rt_Cache = \<lparr>pc_Store = (st \<noteq> NoStore), pc_ArtifactTTL = cch_ArtifactTTL c, pc_MaxObjectSize = cch_MaxObjectSize c,
                    pc_ReadTimeout = cch_ReadTimeout c, pc_StoreTimeout = cch_StoreTimeout c\<rparr>,
                  rt_TempDirectory = cch_TempDirectory c, rt_Store = st, rt_Coordinator = co\<rparr>);
          coordinate = (\<lambda>awsConfig st.
             if crd_Backend crd = ''dynamodb'' then
               (case NewDynamoDB (map_option aws_dynamodb awsConfig) (ddb_Table (crd_DynamoDB crd)) (ddb_KeyPrefix (crd_DynamoDB crd)) of
                  Inl e \<Rightarrow> Inl e
                | Inr coordinator \<Rightarrow> Inr (rt st (Some coordinator)))
             else Inr (rt st None)) in
      case (if cch_Backend c = ''s3'' \<or> crd_Backend crd = ''dynamodb''
            then (case loadDefaultConfig of Inl e \<Rightarrow> Inl (''load AWS configuration: '' @ e) | Inr a \<Rightarrow> Inr (Some a)) else Inr None) of
        Inl e \<Rightarrow> Inl e
      | Inr awsConfig \<Rightarrow>
          if cch_Backend c = [] \<or> cch_Backend c = ''none'' then coordinate awsConfig NoStore
          else if cch_Backend c = ''filesystem'' then coordinate awsConfig (FileSystem (disk\<lparr>fss_directory := fsc_Directory (cch_Filesystem c)\<rparr>))
          else if cch_Backend c = ''s3'' then
            coordinate awsConfig (S3 (NewS3Store (aws_s3 (the awsConfig)) (s3c_Bucket (cch_S3 c)) (s3c_Prefix (cch_S3 c)) (s3c_ExpectedBucketOwner (cch_S3 c))))
          else Inl (''unsupported cache backend '' @ cch_Backend c))"

record cli_lib =
  cll_config :: config_lib
  cll_environ :: environ
  cll_policy :: "string \<Rightarrow> string + policy_Config"
  cll_module :: module_lib
  cll_tabwriter :: "string \<Rightarrow> string"

definition cli_error :: "cfg_error list \<Rightarrow> string" where
  "cli_error errs = Join (map fst errs) [CHR 10]"

text \<open>What serve hands to the server before it listens.\<close>

definition serve_setup :: "cli_lib \<Rightarrow> string + ('o, 't) aws \<Rightarrow> FileSystemStore \<Rightarrow> string \<Rightarrow> string + (Server \<times> Provider \<times> ('o, 't) RuntimeConfig)" where
  "serve_setup lib aws disk configPath =
     (case config_Load (cll_config lib) (cll_environ lib) configPath of Inl e \<Rightarrow> Inl (cli_error e) | Inr cfg \<Rightarrow>
      case loadPolicy (clib_ReadFile (cll_config lib)) (cll_policy lib) cfg of Inl e \<Rightarrow> Inl e | Inr engine \<Rightarrow>
      case runtimeFromConfig aws disk cfg of Inl e \<Rightarrow> Inl e | Inr rt \<Rightarrow>
        Inr (server_New (cll_environ lib) cfg engine, providerFromConfig cfg, rt))"

section \<open>Tools\<close>

definition configuredSecret :: "environ \<Rightarrow> string \<Rightarrow> string + string" where
  "configuredSecret env name =
     (if name = [] then Inr []
      else case env name of
        None \<Rightarrow> Inl (''configured secret environment variable '' @ name @ '' is not set or is empty'')
      | Some v \<Rightarrow> if v = [] then Inl (''configured secret environment variable '' @ name @ '' is not set or is empty'') else Inr v)"

definition packageFromInput :: "string \<Rightarrow> string \<Rightarrow> string \<Rightarrow> Package" where
  "packageFromInput ecosystem name version =
     emptyPackage\<lparr>pkg_Ecosystem := ecosystem, pkg_Name := name, pkg_Version := version,
       pkg_PURL :=
         (if ecosystem = ''npm'' then ''pkg:npm/'' @ name @ ''@'' @ version
          else if ecosystem = ''pypi'' then ''pkg:pypi/'' @ name @ ''@'' @ version
          else if ecosystem = ''maven'' then ''pkg:maven/'' @ name @ ''@'' @ version
          else if ecosystem = ''go'' then ''pkg:golang/'' @ name @ ''@'' @ version
          else [])\<rparr>"

text \<open>The decision of the decide command, with a provider made for this one query.\<close>

definition tool_decision :: "osv_env \<Rightarrow> time \<Rightarrow> Config \<Rightarrow> Engine \<Rightarrow> Package \<Rightarrow> Decision" where
  "tool_decision e now cfg engine pkg =
     (let decision = Evaluate engine now pkg;
          checkIntel = (dec_Action decision \<noteq> ActionBlock \<and> dec_Action decision \<noteq> ActionUnknown \<and> \<not> ExemptsMalware decision) in
      if checkIntel \<and> osvc_Enabled (int_OSV (cfg_Intel cfg)) then
        (case fst (provider_Query e pkg (providerFromConfig cfg)) of
           Inl err \<Rightarrow> decision
         | Inr result \<Rightarrow>
             (case MalwareDecision result (dcf_VulnerabilityBlockThreshold (cfg_Decision cfg)) of
                Some malware \<Rightarrow> malware
              | None \<Rightarrow>
                  if dec_MatchedRule decision = []
                  then Decide result (dcf_DefaultVulnerabilityAction (cfg_Decision cfg)) (dcf_VulnerabilityBlockThreshold (cfg_Decision cfg))
                  else decision))
      else decision)"

record flags =
  fl_config :: string
  fl_ecosystem :: string
  fl_name :: string
  fl_version :: string
  fl_prefix :: string
  fl_path :: string

definition tabbed :: "string list \<Rightarrow> string" where
  "tabbed cells = Join cells [CHR 9] @ [CHR 10]"

definition tool_validate :: "cli_lib \<Rightarrow> flags \<Rightarrow> string + string" where
  "tool_validate lib f =
     (case config_Load (cll_config lib) (cll_environ lib) (fl_config f) of Inl e \<Rightarrow> Inl (cli_error e) | Inr _ \<Rightarrow> Inr (''config ok'' @ [CHR 10]))"

definition tool_routes :: "cli_lib \<Rightarrow> flags \<Rightarrow> string + string" where
  "tool_routes lib f =
     (case config_Load (cll_config lib) (cll_environ lib) (fl_config f) of
        Inl e \<Rightarrow> Inl (cli_error e)
      | Inr cfg \<Rightarrow>
          Inr (cll_tabwriter lib (tabbed [''NAME'', ''ECOSYSTEM'', ''PREFIX'', ''UPSTREAM''] @
            concat (map (\<lambda>r. tabbed [rc_Name r, rc_Ecosystem r, rc_PathPrefix r, rc_UpstreamURL r]) (cfg_Routes cfg)))))"

definition tool_decide :: "cli_lib \<Rightarrow> osv_env \<Rightarrow> time \<Rightarrow> flags \<Rightarrow> string + string" where
  "tool_decide lib e now f =
     (case config_Load (cll_config lib) (cll_environ lib) (fl_config f) of Inl e \<Rightarrow> Inl (cli_error e) | Inr cfg \<Rightarrow>
      case loadPolicy (clib_ReadFile (cll_config lib)) (cll_policy lib) cfg of Inl e \<Rightarrow> Inl e | Inr engine \<Rightarrow>
        let pkg = packageFromInput (fl_ecosystem f) (fl_name f) (fl_version f); decision = tool_decision e now cfg engine pkg in
        Inr (tabbed [dec_Action decision, pkg_PURL pkg, dec_Reason decision]))"

definition tool_identify :: "cli_lib \<Rightarrow> flags \<Rightarrow> string" where
  "tool_identify lib f =
     (let info = Identify (cll_module lib) \<lparr>route_Name = [], route_Ecosystem = fl_ecosystem f, route_PathPrefix = fl_prefix f,
            route_UpstreamURL = [], route_FileUpstreamURL = [], route_UpstreamTokenEnv = []\<rparr> (fl_path f) in
      tabbed [ri_Kind info, pkg_PURL (ri_Package info), ri_UpstreamPath info, if ri_NeedsDecision info then ''true'' else ''false''])"

record prewarm_flags =
  pf_root :: string
  pf_verificationMetadata :: string
  pf_baseURL :: string
  pf_routePrefix :: string
  pf_pluginRoutePrefix :: string
  pf_concurrency :: int
  pf_minRequestInterval :: duration
  pf_rateLimitRetries :: int
  pf_requestTimeout :: duration
  pf_stateFile :: string
  pf_checkOnly :: bool
  pf_bearerTokenEnv :: string
  pf_basicUsernameEnv :: string
  pf_basicPasswordEnv :: string
  pf_excludedCoordinates :: "string list"
  pf_activePluginMarkers :: "string list"

definition prewarm_defaults :: "environ \<Rightarrow> prewarm_flags" where
  "prewarm_defaults env = \<lparr>pf_root = ''.'', pf_verificationMetadata = ''gradle/verification-metadata.xml'', pf_baseURL = Getenv env ''PFW_BASE_URL'',
     pf_routePrefix = ''/maven/'', pf_pluginRoutePrefix = [], pf_concurrency = 2, pf_minRequestInterval = 0, pf_rateLimitRetries = 1,
     pf_requestTimeout = 600 * nsSecond, pf_stateFile = [], pf_checkOnly = False, pf_bearerTokenEnv = [], pf_basicUsernameEnv = [],
     pf_basicPasswordEnv = [], pf_excludedCoordinates = [], pf_activePluginMarkers = []\<rparr>"

definition prewarm_limits :: "prewarm_flags \<Rightarrow> string option" where
  "prewarm_limits f =
     (if pf_requestTimeout f \<le> 0 then Some ''prewarm request timeout must be positive''
      else if pf_rateLimitRetries f < 1 \<or> pf_rateLimitRetries f > 16 then Some ''prewarm rate-limit retries must be between 1 and 16''
      else if pf_minRequestInterval f < 0 then Some ''prewarm minimum request interval must not be negative'' else None)"

definition manifest_line :: "GradleManifest \<Rightarrow> string" where
  "manifest_line m = ''lockfiles='' @ FormatInt (int (gm_Lockfiles m)) @ '' locked_components='' @ FormatInt (int (gm_LockedComponents m)) @
     '' plugin_markers='' @ FormatInt (int (gm_PluginMarkers m)) @ '' artifacts='' @ FormatInt (int (length (gm_Artifacts m))) @
     '' excluded_components='' @ FormatInt (int (gm_ExcludedComponents m)) @ '' excluded_artifacts='' @ FormatInt (int (gm_ExcludedArtifacts m)) @ [CHR 10]"

text \<open>The repository is a directory tree with its metadata reader; the run has its environment, disk and
  schedules. The result is the error, if any, and what was printed.\<close>

record prewarm_world =
  pwd_abs :: "string \<Rightarrow> string + string"
  pwd_tree :: dirent
  pwd_metadata :: "string \<Rightarrow> string + verificationComponent list"
  pwd_run :: run_env
  pwd_disk :: disk
  pwd_first :: "action list"
  pwd_second :: "action list"

definition prewarm_config :: "prewarm_flags \<Rightarrow> string \<Rightarrow> string \<Rightarrow> string \<Rightarrow> RunConfig" where
  "prewarm_config f bearerToken basicUsername basicPassword =
     \<lparr>pw_BaseURL = pf_baseURL f, pw_RoutePrefix = pf_routePrefix f, pw_PluginRoutePrefix = pf_pluginRoutePrefix f,
      pw_Concurrency = pf_concurrency f, pw_MinRequestInterval = pf_minRequestInterval f, pw_RateLimitRetries = pf_rateLimitRetries f,
      pw_StateFile = pf_stateFile f, pw_HTTPClient = Some \<lparr>hc_Timeout = pf_requestTimeout f, hc_CheckRedirect = None\<rparr>,
      pw_BearerToken = bearerToken, pw_BasicUsername = basicUsername, pw_BasicPassword = basicPassword, pw_progress = True,
      pw_pass = 0, pw_total = 0, pw_attempt = 0\<rparr>"

definition tool_prewarm :: "environ \<Rightarrow> prewarm_world \<Rightarrow> prewarm_flags \<Rightarrow> (string option \<times> string) option" where
  "tool_prewarm env w f =
     (case prewarm_limits f of Some e \<Rightarrow> Some (Some e, []) | None \<Rightarrow>
      case configuredSecret env (pf_bearerTokenEnv f) of Inl e \<Rightarrow> Some (Some e, []) | Inr bearerToken \<Rightarrow>
      case configuredSecret env (pf_basicUsernameEnv f) of Inl e \<Rightarrow> Some (Some e, []) | Inr basicUsername \<Rightarrow>
      case configuredSecret env (pf_basicPasswordEnv f) of Inl e \<Rightarrow> Some (Some e, []) | Inr basicPassword \<Rightarrow>
      case DiscoverGradle (pwd_abs w (pf_root f)) (pwd_tree w) (pwd_metadata w) (pf_verificationMetadata f) (pf_activePluginMarkers f) of
        Inl e \<Rightarrow> Some (Some e, [])
      | Inr manifest \<Rightarrow>
          (case ExcludeGradleCoordinates manifest (pf_excludedCoordinates f) of
             Inl e \<Rightarrow> Some (Some e, [])
           | Inr manifest \<Rightarrow>
               if pf_checkOnly f then Some (None, manifest_line manifest)
               else map_option (\<lambda>(err, out). (err, manifest_line manifest @ out))
                 (Run (pwd_run w) (prewarm_config f bearerToken basicUsername basicPassword) (gm_Artifacts manifest) (pwd_disk w) (pwd_first w) (pwd_second w))))"

definition usage :: string where
  "usage = ''usage: tidewaiter serve|version|validate|routes|decide|identify|prewarm''"

text \<open>Which command runs: serve is Main's, the rest Run's.\<close>

datatype command = Serve_command | Version_command | Tool_command string | Usage_command

definition dispatch :: "string \<Rightarrow> string list \<Rightarrow> command" where
  "dispatch defaultCommand argv =
     (let args = (if argv = [] \<and> defaultCommand \<noteq> [] then [defaultCommand] else argv) in
      case args of
        [] \<Rightarrow> Usage_command
      | c # _ \<Rightarrow>
          if c = ''serve'' then Serve_command
          else if c = ''version'' then Version_command
          else if List.member [''validate'', ''routes'', ''decide'', ''identify'', ''prewarm''] c then Tool_command c
          else Usage_command)"

section \<open>The decide command and the server\<close>

lemma rule_nonempty: "rule_matches p u \<Longrightarrow> p \<noteq> []"
  using not_rule_matches_blank [of "[]"] by (auto simp: blank_def TrimSpace_def)

text \<open>The engine's decision is a block, a rule's allow or warn, or an allow without a rule, when the
  package has a URL.\<close>

lemma Evaluate_shape:
  assumes "pkg_PURL pkg \<noteq> []"
  shows "dec_Action (Evaluate (fst (policy_New pc)) now pkg) \<in> {ActionBlock, ActionWarn, ActionAllow} \<and>
    (dec_Action (Evaluate (fst (policy_New pc)) now pkg) = ActionWarn \<longrightarrow> dec_MatchedRule (Evaluate (fst (policy_New pc)) now pkg) \<noteq> [])"
  using refl [of "Evaluate (fst (policy_New pc)) now pkg"]
  by (cases rule: Evaluate_cases) (use assms rule_nonempty in \<open>auto simp: ActionAllow_def ActionWarn_def ActionBlock_def\<close>)

text \<open>The server's view of a provider: the query of its dependencies.\<close>

definition provider_deps :: "osv_env \<Rightarrow> Provider deps \<Rightarrow> Provider deps" where
  "provider_deps e d = d\<lparr>dep_query := provider_Query e\<rparr>"

lemma empty_result: "MalwareDecision emptyResult t = None" "dec_Action (Decide emptyResult a t) = ActionAllow"
  by (simp_all add: MalwareDecision_def Decide_def emptyResult_def)


definition example_osv_env :: osv_env where
  "example_osv_env = \<lparr>oe_lib = example_lib, oe_post = example_post ''MAL-1'', oe_message = (\<lambda>_. ''down''), oe_now = 1, oe_fetched = 2\<rparr>"

definition example_provider_deps :: "Provider deps" where
  "example_provider_deps = \<lparr>dep_query = (\<lambda>_ st. (Inl ''none'', st)), dep_published = (\<lambda>_ _. Inl ''no release date''), dep_module = example_module_lib,
     dep_fmt_time = (\<lambda>_. []), dep_parse_url = (\<lambda>u. Inr u)\<rparr>"


text \<open>The decide command cannot describe a Maven artifact. Whatever name and version it is given, the package
  it makes for Maven differs from the package the server identifies for a request of that artifact: with
  the name the server and OSV use, group and artifact joined by a colon, its package URL is not the server's, which
  joins them by a slash. So rules and exemptions written for the server's URL do not apply to it.\<close>

theorem maven_input_mismatch:
  assumes "route_Ecosystem route = ''maven''" and "ri_NeedsDecision (Identify lib route path)"
  shows "packageFromInput ''maven'' name version \<noteq> ri_Package (Identify lib route path)"
proof
  assume eq: "packageFromInput ''maven'' name version = ri_Package (Identify lib route path)"
  let ?rel = "TrimPrefix (TrimPrefix path (route_PathPrefix route)) ''/''"
  have id: "Identify lib route path = identifyMaven route ?rel (metadataInfo (''/'' @ ?rel))"
    using assms(1) by (simp add: Identify_def Let_def)
  obtain g a v where n: "pkg_Name (ri_Package (Identify lib route path)) = g @ '':'' @ a" "pkg_Version (ri_Package (Identify lib route path)) = v"
    "pkg_PURL (ri_Package (Identify lib route path)) = purl ''maven'' (g @ ''/'' @ a) v"
    using assms(2) unfolding id by (auto simp: identifyMaven_def Let_def metadataInfo_def assms(1) split: if_splits)
  moreover have "pkg_Name (packageFromInput ''maven'' name version) = name" "pkg_Version (packageFromInput ''maven'' name version) = version"
    "pkg_PURL (packageFromInput ''maven'' name version) = ''pkg:maven/'' @ name @ ''@'' @ version"
    by (simp_all add: packageFromInput_def)
  ultimately have "name = g @ '':'' @ a" "version = v" and u: "''pkg:maven/'' @ name @ ''@'' @ version = purl ''maven'' (g @ ''/'' @ a) v"
    using eq by simp_all
  then show False by (auto simp: purl_def split: if_splits)
qed

theorem maven_input_mismatch_witness:
  "packageFromInput ''maven'' ''g:n'' ''1'' \<noteq> ri_Package (Identify example_module_lib \<lparr>route_Name = ''m'', route_Ecosystem = ''maven'', route_PathPrefix = ''/m/'',
     route_UpstreamURL = [], route_FileUpstreamURL = [], route_UpstreamTokenEnv = []\<rparr> ''/m/g/n/1/n-1.jar'')"
  by (rule maven_input_mismatch) (simp_all add: Identify_def identifyMaven_def splitPath_def Let_def go_eval)

section \<open>The prewarm command\<close>

text \<open>The configuration the command runs with.\<close>

lemma prewarm_ran:
  assumes "tool_prewarm env w f = Some (None, out)" and "\<not> pf_checkOnly f" and "pf_excludedCoordinates f = []"
  obtains manifest t u p out' where "configuredSecret env (pf_bearerTokenEnv f) = Inr t" "configuredSecret env (pf_basicUsernameEnv f) = Inr u"
    "configuredSecret env (pf_basicPasswordEnv f) = Inr p"
    "DiscoverGradle (pwd_abs w (pf_root f)) (pwd_tree w) (pwd_metadata w) (pf_verificationMetadata f) (pf_activePluginMarkers f) = Inr manifest"
    "Run (pwd_run w) (prewarm_config f t u p) (gm_Artifacts manifest) (pwd_disk w) (pwd_first w) (pwd_second w) = Some (None, out')"
  using assms by (auto simp: tool_prewarm_def ExcludeGradleCoordinates_def split: option.splits sum.splits if_splits)


definition example_flags :: prewarm_flags where
  "example_flags = \<lparr>pf_root = ''.'', pf_verificationMetadata = [], pf_baseURL = ''http://h'', pf_routePrefix = ''/maven/'', pf_pluginRoutePrefix = [],
     pf_concurrency = 1, pf_minRequestInterval = 0, pf_rateLimitRetries = 1, pf_requestTimeout = 600 * nsSecond, pf_stateFile = [], pf_checkOnly = False,
     pf_bearerTokenEnv = [], pf_basicUsernameEnv = [], pf_basicPasswordEnv = [], pf_excludedCoordinates = [], pf_activePluginMarkers = []\<rparr>"

definition example_world :: prewarm_world where
  "example_world = \<lparr>pwd_abs = (\<lambda>_. Inr ''/r''), pwd_tree = example_tree, pwd_metadata = (\<lambda>_. Inr [example_component]), pwd_run = example_run_env,
     pwd_disk = (\<lambda>_. None), pwd_first = example_schedule, pwd_second = example_schedule\<rparr>"

lemma example_tool_config:
  "\<exists>client. normalizeRunConfig example_pw_url (prewarm_config example_flags [] [] []) = Inr (example_config\<lparr>pw_HTTPClient := Some client\<rparr>)"
  by (simp add: normalizeRunConfig_def check_limits_def check_prefixes_def normalizeRoutePrefix_def prewarm_config_def example_flags_def example_config_def
      example_run_def example_pw_url_def go_eval)

lemma example_tool_run:
  "\<exists>out. Run example_run_env (prewarm_config example_flags [] [] []) [example_jar] (\<lambda>_. None) example_schedule example_schedule = Some (None, out)"
proof -
  obtain client where n: "normalizeRunConfig example_pw_url (prewarm_config example_flags [] [] []) = Inr (example_config\<lparr>pw_HTTPClient := Some client\<rparr>)"
    using example_tool_config by blast
  have env: "rv_url example_run_env = example_pw_url" "rv_output example_run_env" "rv_fault example_run_env = (\<lambda>_. None)" "rv_progressErr example_run_env = None"
    "\<not> art_pluginMarker example_jar" "pw_StateFile example_config = []"
    by (simp_all add: example_run_env_def example_jar_def example_config_def)
  show ?thesis
    using n example_pass [of False "''MISS''" None "Some client" "\<lambda>_. None"] example_pass [of True "''HIT''" "Some [''/maven/'']" "Some client" "\<lambda>_. None"]
    by (simp add: Run_def run_passes_def loadCheckpoint_def writePassSummary_def env)
qed


end
