(* ===== verification/Metrics.thy ===== *)
theory Metrics
  imports Proxy "HOL-Library.List_Lexorder" "HOL-Library.Product_Lexorder"
begin

text \<open>
  The counters of the server and their exposition as text (cachemetrics/metrics.go). The mutex
  makes every method one step on the record of maps. Counters are uint64 and the gauge is int64;
  both wrap. \<open>fmt.Fprintf\<close> makes one \<open>Write\<close> call with the formatted bytes; the writer below the
  counting writer is a parameter, which answers with the number of bytes it took and an error.
\<close>

section \<open>Counters\<close>

definition uint64 :: "int \<Rightarrow> int" where
  "uint64 x = x mod 2 ^ 64"

type_synonym pair_key = "string \<times> string"

record Metrics =
  mt_requests :: "(string \<times> int, int) gomap"
  mt_hits :: "(string, int) gomap"
  mt_misses :: "(string, int) gomap"
  mt_storeErrors :: "(string, int) gomap"
  mt_readErrors :: "(string, int) gomap"
  mt_bypasses :: "(pair_key, int) gomap"
  mt_fillLeaders :: "(string, int) gomap"
  mt_fillWaiters :: "(pair_key, int) gomap"
  mt_upstreamRequests :: "(pair_key, int) gomap"
  mt_upstreamInFlight :: "(string, int) gomap"
  mt_upstreamRetries :: "(pair_key, int) gomap"
  mt_upstreamThrottled :: "(pair_key, int) gomap"

definition metrics_New :: Metrics where
  "metrics_New = \<lparr>mt_requests = [], mt_hits = [], mt_misses = [], mt_storeErrors = [], mt_readErrors = [], mt_bypasses = [],
     mt_fillLeaders = [], mt_fillWaiters = [], mt_upstreamRequests = [], mt_upstreamInFlight = [], mt_upstreamRetries = [],
     mt_upstreamThrottled = []\<rparr>"

text \<open>A key that is absent from a Go map has the zero value.\<close>

definition at_key :: "('k, int) gomap \<Rightarrow> 'k \<Rightarrow> int" where
  "at_key m k = (case map_of m k of Some v \<Rightarrow> v | None \<Rightarrow> 0)"

definition bump :: "(int \<Rightarrow> int) \<Rightarrow> int \<Rightarrow> 'k \<Rightarrow> ('k, int) gomap \<Rightarrow> ('k, int) gomap" where
  "bump width d k m = AList.update k (width (at_key m k + d)) m"

definition metrics_Request :: "string \<Rightarrow> int \<Rightarrow> Metrics \<Rightarrow> Metrics" where
  "metrics_Request route status m = m\<lparr>mt_requests := bump uint64 1 (route, status) (mt_requests m)\<rparr>"

definition metrics_Hit :: "string \<Rightarrow> Metrics \<Rightarrow> Metrics" where
  "metrics_Hit route m = m\<lparr>mt_hits := bump uint64 1 route (mt_hits m)\<rparr>"

definition metrics_Miss :: "string \<Rightarrow> Metrics \<Rightarrow> Metrics" where
  "metrics_Miss route m = m\<lparr>mt_misses := bump uint64 1 route (mt_misses m)\<rparr>"

definition metrics_StoreError :: "string \<Rightarrow> Metrics \<Rightarrow> Metrics" where
  "metrics_StoreError route m = m\<lparr>mt_storeErrors := bump uint64 1 route (mt_storeErrors m)\<rparr>"

definition metrics_ReadError :: "string \<Rightarrow> Metrics \<Rightarrow> Metrics" where
  "metrics_ReadError route m = m\<lparr>mt_readErrors := bump uint64 1 route (mt_readErrors m)\<rparr>"

definition metrics_Bypass :: "string \<Rightarrow> string \<Rightarrow> Metrics \<Rightarrow> Metrics" where
  "metrics_Bypass route reason m = m\<lparr>mt_bypasses := bump uint64 1 (route, reason) (mt_bypasses m)\<rparr>"

definition metrics_CacheFillLeader :: "string \<Rightarrow> Metrics \<Rightarrow> Metrics" where
  "metrics_CacheFillLeader route m = m\<lparr>mt_fillLeaders := bump uint64 1 route (mt_fillLeaders m)\<rparr>"

definition metrics_CacheFillWaiter :: "string \<Rightarrow> string \<Rightarrow> Metrics \<Rightarrow> Metrics" where
  "metrics_CacheFillWaiter route scope m = m\<lparr>mt_fillWaiters := bump uint64 1 (route, scope) (mt_fillWaiters m)\<rparr>"

definition metrics_UpstreamRequest :: "string \<Rightarrow> string \<Rightarrow> Metrics \<Rightarrow> Metrics" where
  "metrics_UpstreamRequest route status m = m\<lparr>mt_upstreamRequests := bump uint64 1 (route, status) (mt_upstreamRequests m)\<rparr>"

definition metrics_UpstreamInFlight :: "string \<Rightarrow> int \<Rightarrow> Metrics \<Rightarrow> Metrics" where
  "metrics_UpstreamInFlight route delta m = m\<lparr>mt_upstreamInFlight := bump int64 delta route (mt_upstreamInFlight m)\<rparr>"

definition metrics_UpstreamRetry :: "string \<Rightarrow> string \<Rightarrow> Metrics \<Rightarrow> Metrics" where
  "metrics_UpstreamRetry route reason m = m\<lparr>mt_upstreamRetries := bump uint64 1 (route, reason) (mt_upstreamRetries m)\<rparr>"

definition metrics_UpstreamThrottled :: "string \<Rightarrow> string \<Rightarrow> Metrics \<Rightarrow> Metrics" where
  "metrics_UpstreamThrottled route reason m = m\<lparr>mt_upstreamThrottled := bump uint64 1 (route, reason) (mt_upstreamThrottled m)\<rparr>"

lemmas metrics_ops = metrics_Request_def metrics_Hit_def metrics_Miss_def metrics_StoreError_def metrics_ReadError_def
  metrics_Bypass_def metrics_CacheFillLeader_def metrics_CacheFillWaiter_def metrics_UpstreamRequest_def
  metrics_UpstreamInFlight_def metrics_UpstreamRetry_def metrics_UpstreamThrottled_def

section \<open>The counting writer\<close>

type_synonym 'w io_writer = "'w \<Rightarrow> string \<Rightarrow> (int \<times> string option) \<times> 'w"

record 'w countingWriter =
  cw_writer :: 'w
  cw_written :: int
  cw_err :: "string option"

definition countingWriter_Write :: "'w io_writer \<Rightarrow> string \<Rightarrow> 'w countingWriter \<Rightarrow> (int \<times> string option) \<times> 'w countingWriter" where
  "countingWriter_Write write body c =
     (if cw_err c \<noteq> None then ((0, cw_err c), c)
      else case write (cw_writer c) body of
        ((written, err), w) \<Rightarrow>
          ((written, err), c\<lparr>cw_writer := w, cw_written := int64 (cw_written c + written), cw_err := err\<rparr>))"

text \<open>The results of \<open>Fprintf\<close> are ignored.\<close>

definition Fprintf :: "'w io_writer \<Rightarrow> string \<Rightarrow> 'w countingWriter \<Rightarrow> 'w countingWriter" where
  "Fprintf write body c = snd (countingWriter_Write write body c)"

section \<open>Exposition\<close>

text \<open>\<open>strings.ReplaceAll\<close> for an old string of one byte.\<close>

definition ReplaceAll :: "string \<Rightarrow> char \<Rightarrow> string \<Rightarrow> string" where
  "ReplaceAll s old new = concat (map (\<lambda>c. if c = old then new else [c]) s)"

abbreviation (input) backslash :: char where "backslash \<equiv> CHR 0x5C"
abbreviation (input) newline :: char where "newline \<equiv> CHR 0x0A"
abbreviation (input) quote :: char where "quote \<equiv> CHR 0x22"

definition escapeLabel :: "string \<Rightarrow> string" where
  "escapeLabel s =
     (let s = ReplaceAll s backslash [backslash, backslash];
          s = ReplaceAll s newline [backslash, CHR ''n'']
      in ReplaceAll s quote [backslash, quote])"

definition label_text :: "string \<Rightarrow> string \<Rightarrow> string" where
  "label_text name text = name @ CHR ''='' # quote # text @ [quote]"

definition help_text :: "string \<Rightarrow> string \<Rightarrow> string \<Rightarrow> string" where
  "help_text name help kind = ''# HELP '' @ name @ '' '' @ help @ [newline] @ ''# TYPE '' @ name @ '' '' @ kind @ [newline]"

definition one_label :: "string \<Rightarrow> string \<Rightarrow> int \<Rightarrow> string" where
  "one_label name route v = name @ ''{'' @ label_text ''route'' (escapeLabel route) @ ''} '' @ FormatInt v @ [newline]"

definition two_labels :: "string \<Rightarrow> string \<Rightarrow> string \<Rightarrow> string \<Rightarrow> int \<Rightarrow> string" where
  "two_labels name route label text v =
     name @ ''{'' @ label_text ''route'' (escapeLabel route) @ '','' @ label_text label text @ ''} '' @ FormatInt v @ [newline]"

text \<open>Keys are sorted by the route and then the second label, strings bytewise.\<close>

definition sorted_routes :: "(string, int) gomap \<Rightarrow> string list" where
  "sorted_routes values = sort_key (map byte) (map fst values)"

definition sorted_pairs :: "(pair_key, int) gomap \<Rightarrow> pair_key list" where
  "sorted_pairs values = sort_key (\<lambda>(route, second). (map byte route, map byte second)) (map fst values)"

definition writeRequests :: "'w io_writer \<Rightarrow> (string \<times> int, int) gomap \<Rightarrow> 'w countingWriter \<Rightarrow> 'w countingWriter" where
  "writeRequests write values c =
     (let name = ''package_firewall_http_requests_total'';
          c = Fprintf write (help_text name ''Tidewaiter responses by route and HTTP status.'' ''counter'') c;
          keys = sort_key (\<lambda>(route, status). (map byte route, status)) (map fst values)
      in fold (\<lambda>(route, status). Fprintf write (two_labels name route ''status'' (FormatInt status) (at_key values (route, status)))) keys c)"

definition writeGauge :: "'w io_writer \<Rightarrow> string \<Rightarrow> string \<Rightarrow> (string, int) gomap \<Rightarrow> 'w countingWriter \<Rightarrow> 'w countingWriter" where
  "writeGauge write name help values c =
     (let c = Fprintf write (help_text name help ''gauge'') c
      in fold (\<lambda>route. Fprintf write (one_label name route (at_key values route))) (sorted_routes values) c)"

definition writeUpstreamStatuses :: "'w io_writer \<Rightarrow> string \<Rightarrow> string \<Rightarrow> (pair_key, int) gomap \<Rightarrow> 'w countingWriter \<Rightarrow> 'w countingWriter" where
  "writeUpstreamStatuses write name help values c =
     (let c = Fprintf write (help_text name help ''counter'') c
      in fold (\<lambda>(route, status). Fprintf write (two_labels name route ''status'' (escapeLabel status) (at_key values (route, status))))
           (sorted_pairs values) c)"

definition writeUpstreamReasons :: "'w io_writer \<Rightarrow> string \<Rightarrow> string \<Rightarrow> (pair_key, int) gomap \<Rightarrow> 'w countingWriter \<Rightarrow> 'w countingWriter" where
  "writeUpstreamReasons write name help values c =
     (let c = Fprintf write (help_text name help ''counter'') c
      in fold (\<lambda>(route, reason). Fprintf write (two_labels name route ''reason'' (escapeLabel reason) (at_key values (route, reason))))
           (sorted_pairs values) c)"

definition writeFillWaiters :: "'w io_writer \<Rightarrow> (pair_key, int) gomap \<Rightarrow> 'w countingWriter \<Rightarrow> 'w countingWriter" where
  "writeFillWaiters write values c =
     (let name = ''package_firewall_cache_fill_waiters_total'';
          c = Fprintf write (help_text name ''Artifact cache misses coalesced behind another fill.'' ''counter'') c
      in fold (\<lambda>(route, scope). Fprintf write (two_labels name route ''scope'' (escapeLabel scope) (at_key values (route, scope))))
           (sorted_pairs values) c)"

definition writeCounter :: "'w io_writer \<Rightarrow> string \<Rightarrow> string \<Rightarrow> (string, int) gomap \<Rightarrow> 'w countingWriter \<Rightarrow> 'w countingWriter" where
  "writeCounter write name help values c =
     (let c = Fprintf write (help_text name help ''counter'') c
      in fold (\<lambda>route. Fprintf write (one_label name route (at_key values route))) (sorted_routes values) c)"

definition writeBypasses :: "'w io_writer \<Rightarrow> (pair_key, int) gomap \<Rightarrow> 'w countingWriter \<Rightarrow> 'w countingWriter" where
  "writeBypasses write values c =
     (let name = ''package_firewall_cache_bypasses_total'';
          c = Fprintf write (help_text name ''Artifact cache bypasses labeled by bounded reason.'' ''counter'') c
      in fold (\<lambda>(route, reason). Fprintf write (two_labels name route ''reason'' (escapeLabel reason) (at_key values (route, reason))))
           (sorted_pairs values) c)"

text \<open>The clones taken under the read lock are the maps as they are.\<close>

definition metrics_WriteTo :: "'w io_writer \<Rightarrow> Metrics \<Rightarrow> 'w \<Rightarrow> (int \<times> string option) \<times> 'w" where
  "metrics_WriteTo write m w =
     (let c = \<lparr>cw_writer = w, cw_written = 0, cw_err = None\<rparr>;
          c = writeRequests write (mt_requests m) c;
          c = writeCounter write ''package_firewall_cache_hits_total'' ''Artifact cache hits after a complete integrity-checked read.'' (mt_hits m) c;
          c = writeCounter write ''package_firewall_cache_misses_total'' ''Artifact cache misses, including cache read failures that fell back to upstream.'' (mt_misses m) c;
          c = writeCounter write ''package_firewall_cache_store_errors_total'' ''Artifact cache staging or backend store errors.'' (mt_storeErrors m) c;
          c = writeCounter write ''package_firewall_cache_read_errors_total'' ''Artifact cache lookup, staging, or integrity errors.'' (mt_readErrors m) c;
          c = writeCounter write ''package_firewall_cache_fill_leaders_total'' ''Artifact cache misses elected to download from an upstream registry.'' (mt_fillLeaders m) c;
          c = writeFillWaiters write (mt_fillWaiters m) c;
          c = writeUpstreamStatuses write ''package_firewall_upstream_requests_total'' ''Request attempts sent to upstream registries by response status.'' (mt_upstreamRequests m) c;
          c = writeGauge write ''package_firewall_upstream_in_flight'' ''Upstream response bodies currently in flight.'' (mt_upstreamInFlight m) c;
          c = writeUpstreamReasons write ''package_firewall_upstream_retries_total'' ''Upstream request retries by bounded reason.'' (mt_upstreamRetries m) c;
          c = writeUpstreamReasons write ''package_firewall_upstream_throttled_total'' ''Requests delayed or rejected by upstream protection.'' (mt_upstreamThrottled m) c;
          c = writeBypasses write (mt_bypasses m) c
      in ((cw_written c, cw_err c), cw_writer c))"

text \<open>A response writer as an \<open>io.Writer\<close>: a failing client takes nothing.\<close>

definition response_write :: "client \<Rightarrow> rw io_writer" where
  "response_write client w body =
     (case client_write client w body of Inl e \<Rightarrow> ((0, Some e), w) | Inr w' \<Rightarrow> ((int (length body), None), w'))"

definition metrics_Handler :: "client \<Rightarrow> Metrics \<Rightarrow> rw \<Rightarrow> rw" where
  "metrics_Handler client m w =
     (let w = w\<lparr>rw_Header := header_Set ''Content-Type'' ''text/plain; version=0.0.4; charset=utf-8'' (rw_Header w)\<rparr>;
          w = WriteHeader 200 w
      in snd (metrics_WriteTo (response_write client) m w))"

section \<open>Events and the series they belong to\<close>

datatype metric_event = MeRequest string int | MeHit string | MeMiss string | MeStoreError string | MeReadError string
  | MeBypass string string | MeFillLeader string | MeFillWaiter string string | MeUpstreamRequest string string
  | MeInFlight string int | MeRetry string string | MeThrottled string string

fun metrics_step :: "metric_event \<Rightarrow> Metrics \<Rightarrow> Metrics" where
  "metrics_step (MeRequest route status) m = metrics_Request route status m"
| "metrics_step (MeHit route) m = metrics_Hit route m"
| "metrics_step (MeMiss route) m = metrics_Miss route m"
| "metrics_step (MeStoreError route) m = metrics_StoreError route m"
| "metrics_step (MeReadError route) m = metrics_ReadError route m"
| "metrics_step (MeBypass route reason) m = metrics_Bypass route reason m"
| "metrics_step (MeFillLeader route) m = metrics_CacheFillLeader route m"
| "metrics_step (MeFillWaiter route scope) m = metrics_CacheFillWaiter route scope m"
| "metrics_step (MeUpstreamRequest route status) m = metrics_UpstreamRequest route status m"
| "metrics_step (MeInFlight route delta) m = metrics_UpstreamInFlight route delta m"
| "metrics_step (MeRetry route reason) m = metrics_UpstreamRetry route reason m"
| "metrics_step (MeThrottled route reason) m = metrics_UpstreamThrottled route reason m"

definition metrics_run :: "metric_event list \<Rightarrow> Metrics" where
  "metrics_run es = fold metrics_step es metrics_New"

type_synonym metric_labels = "(string \<times> string) list"
type_synonym sample = "(string \<times> metric_labels) \<times> int"

abbreviation route_label :: "string \<Rightarrow> metric_labels" where
  "route_label route \<equiv> [(''route'', route)]"

abbreviation pair_labels :: "string \<Rightarrow> pair_key \<Rightarrow> metric_labels" where
  "pair_labels label k \<equiv> [(''route'', fst k), (label, snd k)]"

abbreviation status_labels :: "string \<times> int \<Rightarrow> metric_labels" where
  "status_labels k \<equiv> [(''route'', fst k), (''status'', FormatInt (snd k))]"

fun series :: "metric_event \<Rightarrow> string \<times> metric_labels" where
  "series (MeRequest route status) = (''package_firewall_http_requests_total'', status_labels (route, status))"
| "series (MeHit route) = (''package_firewall_cache_hits_total'', route_label route)"
| "series (MeMiss route) = (''package_firewall_cache_misses_total'', route_label route)"
| "series (MeStoreError route) = (''package_firewall_cache_store_errors_total'', route_label route)"
| "series (MeReadError route) = (''package_firewall_cache_read_errors_total'', route_label route)"
| "series (MeBypass route reason) = (''package_firewall_cache_bypasses_total'', pair_labels ''reason'' (route, reason))"
| "series (MeFillLeader route) = (''package_firewall_cache_fill_leaders_total'', route_label route)"
| "series (MeFillWaiter route scope) = (''package_firewall_cache_fill_waiters_total'', pair_labels ''scope'' (route, scope))"
| "series (MeUpstreamRequest route status) = (''package_firewall_upstream_requests_total'', pair_labels ''status'' (route, status))"
| "series (MeInFlight route delta) = (''package_firewall_upstream_in_flight'', route_label route)"
| "series (MeRetry route reason) = (''package_firewall_upstream_retries_total'', pair_labels ''reason'' (route, reason))"
| "series (MeThrottled route reason) = (''package_firewall_upstream_throttled_total'', pair_labels ''reason'' (route, reason))"

fun amount :: "metric_event \<Rightarrow> int" where
  "amount (MeInFlight route delta) = delta"
| "amount _ = 1"

definition width_of :: "string \<Rightarrow> int \<Rightarrow> int" where
  "width_of name = (if name = ''package_firewall_upstream_in_flight'' then int64 else uint64)"

text \<open>What a series must report: nothing if no event belongs to it, else the sum of their amounts
  at the width of the metric.\<close>

definition tally :: "metric_event list \<Rightarrow> string \<times> metric_labels \<Rightarrow> int option" where
  "tally es k =
     (let own = filter (\<lambda>e. series e = k) es in
      if own = [] then None else Some (width_of (fst k) (sum_list (map amount own))))"

section \<open>Reading the text format\<close>

text \<open>A label value ends at the first quote that no backslash escapes.\<close>

fun read_value :: "string \<Rightarrow> (string \<times> string) option" where
  "read_value [] = None"
| "read_value (c # s) =
     (if c = quote then Some ([], s)
      else if c = backslash then
        (case s of
           [] \<Rightarrow> None
         | d # t \<Rightarrow> map_option (\<lambda>(v, rest). ((if d = CHR ''n'' then newline else d) # v, rest)) (read_value t))
      else map_option (\<lambda>(v, rest). (c # v, rest)) (read_value s))"

lemma read_value_shorter: "read_value s = Some (v, rest) \<Longrightarrow> length rest < length s"
  by (induction s arbitrary: v rule: read_value.induct) (fastforce split: if_splits list.splits)+

definition read_label :: "string \<Rightarrow> ((string \<times> string) \<times> string) option" where
  "read_label s =
     (case Cut s (CHR ''='') of
        (name, q # t, True) \<Rightarrow> if q = quote then map_option (\<lambda>(v, rest). ((name, v), rest)) (read_value t) else None
      | _ \<Rightarrow> None)"

lemma read_label_shorter:
  assumes "read_label s = Some (l, rest)"
  shows "length rest < length s"
proof -
  obtain name q t v where c: "Cut s (CHR ''='') = (name, q # t, True)" and v: "read_value t = Some (v, rest)"
    using assms by (auto simp: read_label_def split: prod.splits list.splits bool.splits if_splits)
  have "length (dropWhile (\<lambda>x. x \<noteq> CHR ''='') s) \<le> length s" by (rule length_dropWhile_le)
  moreover have "dropWhile (\<lambda>x. x \<noteq> CHR ''='') s = CHR ''='' # q # t \<or> (\<exists>x. dropWhile (\<lambda>x. x \<noteq> CHR ''='') s = x # q # t)"
    using c by (auto simp: Cut_def split: list.splits)
  ultimately show ?thesis using read_value_shorter [OF v] by auto
qed

function read_labels :: "string \<Rightarrow> (metric_labels \<times> string) option" where
  "read_labels s =
     (case read_label s of
        Some (l, c # rest) \<Rightarrow>
          if c = CHR '','' then map_option (\<lambda>(ls, rest). (l # ls, rest)) (read_labels rest)
          else if c = CHR ''}'' then Some ([l], rest) else None
      | _ \<Rightarrow> None)"
  by pat_completeness auto
termination
  by (relation "measure length") (auto dest: read_label_shorter)

declare read_labels.simps [simp del]

definition read_int :: "string \<Rightarrow> int option" where
  "read_int s = (case s of
     c # t \<Rightarrow> if c = CHR ''-'' then map_option (\<lambda>n. - int n) (parse_nat t) else map_option int (parse_nat s)
   | [] \<Rightarrow> None)"

definition read_sample :: "string \<Rightarrow> sample option" where
  "read_sample line =
     (case Cut line (CHR ''{'') of
        (name, rest, True) \<Rightarrow>
          (case read_labels rest of
             Some (labels, c # t) \<Rightarrow> if c = CHR '' '' then map_option (\<lambda>v. ((name, labels), v)) (read_int t) else None
           | _ \<Rightarrow> None)
      | _ \<Rightarrow> None)"

fun read_lines :: "string list \<Rightarrow> sample list option" where
  "read_lines [] = Some []"
| "read_lines (line # lines) =
     (if line = [] \<or> HasPrefix line ''#'' then read_lines lines
      else case read_sample line of
        None \<Rightarrow> None
      | Some x \<Rightarrow> map_option (Cons x) (read_lines lines))"

definition read_metrics :: "string \<Rightarrow> sample list option" where
  "read_metrics text = read_lines (Split text newline)"

section \<open>A metric family, from its events to its samples\<close>

lemma uint64_wrap [simp]: "uint64 0 = 0" "uint64 (uint64 x + d) = uint64 (x + d)"
  by (simp_all add: uint64_def mod_add_left_eq)

lemma int64_wrap [simp]: "int64 0 = 0" "int64 (int64 x + d) = int64 (x + d)"
proof -
  have "(int64 x + d + 2 ^ 63) mod 2 ^ 64 = ((x + 2 ^ 63) mod 2 ^ 64 + d) mod 2 ^ 64" by (simp add: int64_def algebra_simps)
  also have "\<dots> = (x + d + 2 ^ 63) mod 2 ^ 64" by (subst mod_add_left_eq) (simp add: ac_simps)
  finally show "int64 (int64 x + d) = int64 (x + d)" by (simp add: int64_def)
qed (simp add: int64_def)

definition samples_of :: "string \<Rightarrow> ('k \<Rightarrow> metric_labels) \<Rightarrow> ('k, int) gomap \<Rightarrow> 'k list \<Rightarrow> sample list" where
  "samples_of name labels values keys = map (\<lambda>k. ((name, labels k), at_key values k)) keys"

lemma map_of_samples:
  assumes "inj labels"
  shows "map_of (samples_of name labels values keys) (n, ls) =
    (if n = name \<and> ls \<in> labels ` set keys then Some (at_key values (the_inv labels ls)) else None)"
  using the_inv_f_f [OF assms] by (induction keys) (auto simp: samples_of_def)

text \<open>The maps of the record have one contract: an event either leaves the map as it is or adds its
  amount to one key, at the width of the metric, and the keys stand for the series of the metric.\<close>

locale metric_family =
  fixes values_of :: "Metrics \<Rightarrow> ('k, int) gomap" and key :: "metric_event \<Rightarrow> 'k option"
    and name :: string and labels :: "'k \<Rightarrow> metric_labels" and sorted_keys :: "('k, int) gomap \<Rightarrow> 'k list"
  assumes empty_at_first: "values_of metrics_New = []"
    and adds_amount: "values_of (metrics_step e m) =
      (case key e of None \<Rightarrow> values_of m | Some k \<Rightarrow> bump (width_of name) (amount e) k (values_of m))"
    and series_of_key: "key e = Some k \<longleftrightarrow> series e = (name, labels k)"
    and key_of_series: "fst (series e) = name \<Longrightarrow> key e \<noteq> None"
    and labels_inj: "inj labels"
    and sorted_keys_perm: "mset (sorted_keys values) = mset (map fst values)"
begin

lemma width: "width_of name 0 = 0" "width_of name (width_of name x + d) = width_of name (x + d)"
  by (simp_all add: width_of_def)

lemma distinct_run: "distinct (map fst (values_of m)) \<Longrightarrow> distinct (map fst (values_of (fold metrics_step es m)))"
  by (induction es arbitrary: m) (auto simp: adds_amount bump_def distinct_update split: option.splits)

lemma run_value:
  "map_of (values_of (fold metrics_step es m)) k =
     (let own = filter (\<lambda>e. key e = Some k) es in
      if own = [] then map_of (values_of m) k
      else Some (width_of name (at_key (values_of m) k + sum_list (map amount own))))"
proof (induction es arbitrary: m)
  case (Cons e es)
  show ?case
    unfolding fold_Cons comp_def Cons.IH
    by (auto simp: adds_amount bump_def at_key_def Let_def width add.assoc split: option.split)
qed simp

lemma samples_tally:
  "map_of (samples_of name labels (values_of (metrics_run es)) (sorted_keys (values_of (metrics_run es)))) (n, ls) =
     (if n = name then tally es (n, ls) else None)"
proof -
  let ?v = "values_of (metrics_run es)"
  have run: "map_of ?v k = tally es (name, labels k)" for k
    using run_value [of es metrics_New k]
    by (simp add: metrics_run_def tally_def empty_at_first at_key_def series_of_key Let_def)
  have keys: "set (sorted_keys ?v) = fst ` set ?v" by (metis sorted_keys_perm set_map set_mset_mset)
  have "tally es (name, ls) = None" if "ls \<notin> labels ` set (sorted_keys ?v)"
  proof -
    have "series e \<noteq> (name, ls)" if "e \<in> set es" for e
    proof
      assume s: "series e = (name, ls)"
      then obtain k where "key e = Some k" using key_of_series [of e] by auto
      then have "ls = labels k" using s series_of_key [of e k] by simp
      then have "map_of ?v k \<noteq> None" using s \<open>e \<in> set es\<close> by (auto simp: run tally_def Let_def filter_empty_conv)
      with \<open>ls = labels k\<close> show False using \<open>ls \<notin> _\<close> by (auto simp: keys map_of_eq_None_iff)
    qed
    then show ?thesis by (auto simp: tally_def Let_def filter_empty_conv)
  qed
  moreover have "tally es (name, labels k) = Some (at_key ?v k)" if "k \<in> set (sorted_keys ?v)" for k
    using that by (auto simp: keys at_key_def run [symmetric] map_of_eq_None_iff split: option.split)
  ultimately show ?thesis using the_inv_f_f [OF labels_inj] by (auto simp: map_of_samples [OF labels_inj])
qed

lemma samples_untouched:
  "tally es k = None \<Longrightarrow>
     map_of (samples_of name labels (values_of (metrics_run es)) (sorted_keys (values_of (metrics_run es)))) k = None"
  by (cases k) (auto simp: samples_tally)

lemma samples_distinct:
  "distinct (map fst (samples_of name labels (values_of (metrics_run es)) (sorted_keys (values_of (metrics_run es)))))"
proof -
  have "distinct (map fst (values_of (metrics_run es)))"
    unfolding metrics_run_def by (rule distinct_run) (simp add: empty_at_first)
  then have "distinct (sorted_keys (values_of (metrics_run es)))"
    by (metis sorted_keys_perm mset_eq_imp_distinct_iff)
  then show ?thesis using labels_inj by (auto simp: samples_of_def comp_def distinct_map inj_on_def)
qed

end

lemma digits_neq_Nil: "digits_of n \<noteq> []"
  by (subst digits_of.simps) simp

lemma read_int_FormatInt: "read_int (FormatInt i) = Some i"
proof (cases "i < 0")
  case False
  obtain c s where d: "digits_of (nat i) = c # s" using digits_neq_Nil by (cases "digits_of (nat i)") auto
  then have "is_digit c" using digits_of_digits [of "nat i"] by simp
  with False d parse_nat_digits [of "nat i"] digit_first [of c] show ?thesis by (simp add: read_int_def FormatInt_def)
qed (simp add: read_int_def FormatInt_def parse_nat_digits)

lemma FormatInt_inject: "FormatInt i = FormatInt j \<Longrightarrow> i = j"
  by (metis read_int_FormatInt option.inject)

lemma inj_labels: "inj route_label" "inj (pair_labels label)" "inj status_labels"
  by (auto intro!: injI dest: FormatInt_inject simp: prod_eq_iff)

lemma sorted_perm: "mset (sorted_routes values) = mset (map fst values)" "mset (sorted_pairs values') = mset (map fst values')"
  by (simp_all add: sorted_routes_def sorted_pairs_def)

lemmas family_laws = metrics_ops metrics_New_def width_of_def inj_labels sorted_perm

interpretation requests: metric_family mt_requests "\<lambda>e. case e of MeRequest r s \<Rightarrow> Some (r, s) | _ \<Rightarrow> None"
  "''package_firewall_http_requests_total''" status_labels "\<lambda>v. sort_key (\<lambda>(route, status). (map byte route, status)) (map fst v)"
  by unfold_locales (auto simp: family_laws dest: FormatInt_inject split: metric_event.splits)

interpretation hits: metric_family mt_hits "\<lambda>e. case e of MeHit r \<Rightarrow> Some r | _ \<Rightarrow> None"
  "''package_firewall_cache_hits_total''" route_label sorted_routes
  by unfold_locales (auto simp: family_laws split: metric_event.splits)

interpretation misses: metric_family mt_misses "\<lambda>e. case e of MeMiss r \<Rightarrow> Some r | _ \<Rightarrow> None"
  "''package_firewall_cache_misses_total''" route_label sorted_routes
  by unfold_locales (auto simp: family_laws split: metric_event.splits)

interpretation storeErrors: metric_family mt_storeErrors "\<lambda>e. case e of MeStoreError r \<Rightarrow> Some r | _ \<Rightarrow> None"
  "''package_firewall_cache_store_errors_total''" route_label sorted_routes
  by unfold_locales (auto simp: family_laws split: metric_event.splits)

interpretation readErrors: metric_family mt_readErrors "\<lambda>e. case e of MeReadError r \<Rightarrow> Some r | _ \<Rightarrow> None"
  "''package_firewall_cache_read_errors_total''" route_label sorted_routes
  by unfold_locales (auto simp: family_laws split: metric_event.splits)

interpretation fillLeaders: metric_family mt_fillLeaders "\<lambda>e. case e of MeFillLeader r \<Rightarrow> Some r | _ \<Rightarrow> None"
  "''package_firewall_cache_fill_leaders_total''" route_label sorted_routes
  by unfold_locales (auto simp: family_laws split: metric_event.splits)

interpretation inFlight: metric_family mt_upstreamInFlight "\<lambda>e. case e of MeInFlight r d \<Rightarrow> Some r | _ \<Rightarrow> None"
  "''package_firewall_upstream_in_flight''" route_label sorted_routes
  by unfold_locales (auto simp: family_laws split: metric_event.splits)

interpretation bypasses: metric_family mt_bypasses "\<lambda>e. case e of MeBypass r s \<Rightarrow> Some (r, s) | _ \<Rightarrow> None"
  "''package_firewall_cache_bypasses_total''" "pair_labels ''reason''" sorted_pairs
  by unfold_locales (auto simp: family_laws split: metric_event.splits)

interpretation fillWaiters: metric_family mt_fillWaiters "\<lambda>e. case e of MeFillWaiter r s \<Rightarrow> Some (r, s) | _ \<Rightarrow> None"
  "''package_firewall_cache_fill_waiters_total''" "pair_labels ''scope''" sorted_pairs
  by unfold_locales (auto simp: family_laws split: metric_event.splits)

interpretation upstreamRequests: metric_family mt_upstreamRequests "\<lambda>e. case e of MeUpstreamRequest r s \<Rightarrow> Some (r, s) | _ \<Rightarrow> None"
  "''package_firewall_upstream_requests_total''" "pair_labels ''status''" sorted_pairs
  by unfold_locales (auto simp: family_laws split: metric_event.splits)

interpretation retries: metric_family mt_upstreamRetries "\<lambda>e. case e of MeRetry r s \<Rightarrow> Some (r, s) | _ \<Rightarrow> None"
  "''package_firewall_upstream_retries_total''" "pair_labels ''reason''" sorted_pairs
  by unfold_locales (auto simp: family_laws split: metric_event.splits)

interpretation throttled: metric_family mt_upstreamThrottled "\<lambda>e. case e of MeThrottled r s \<Rightarrow> Some (r, s) | _ \<Rightarrow> None"
  "''package_firewall_upstream_throttled_total''" "pair_labels ''reason''" sorted_pairs
  by unfold_locales (auto simp: family_laws split: metric_event.splits)

end
