(* ===== verification/Exposition.thy ===== *)
theory Exposition
  imports Metrics
begin

text \<open>
  The text of the metrics endpoint read back: whatever bytes the labels hold, a reader of the text
  format finds one sample for each series that some event belongs to, with the sum of the events,
  and no other sample.
\<close>

section \<open>Reading a line\<close>

definition escape_char :: "char \<Rightarrow> string" where
  "escape_char c =
     (if c = backslash then [backslash, backslash] else if c = newline then [backslash, CHR ''n'']
      else if c = quote then [backslash, quote] else [c])"

lemma escapeLabel_chars: "escapeLabel s = concat (map escape_char s)"
  by (induction s) (simp_all add: escapeLabel_def ReplaceAll_def escape_char_def Let_def)

lemma read_value_escaped: "read_value (escapeLabel s @ quote # rest) = Some (s, rest)"
  by (induction s) (simp_all add: escapeLabel_chars escape_char_def)

lemma newline_escaped: "newline \<notin> set (escapeLabel s)"
  by (auto simp: escapeLabel_chars escape_char_def split: if_splits)

lemma read_value_plain:
  "quote \<notin> set s \<Longrightarrow> backslash \<notin> set s \<Longrightarrow> read_value (s @ quote # rest) = Some (s, rest)"
  by (induction s) auto

lemma FormatInt_chars: "c \<in> set (FormatInt i) \<Longrightarrow> c = CHR ''-'' \<or> is_digit c"
  using digits_of_digits [of "nat i"] digits_of_digits [of "nat (- i)"]
  by (auto simp: FormatInt_def list_all_iff split: if_splits)

lemma FormatInt_plain: "quote \<notin> set (FormatInt i)" "backslash \<notin> set (FormatInt i)" "newline \<notin> set (FormatInt i)"
  using FormatInt_chars [of _ i] by (auto simp: is_digit_def decimal_digits_def)

lemma read_label_text:
  assumes "CHR ''='' \<notin> set name" and "read_value (text @ quote # rest) = Some (v, rest)"
  shows "read_label (label_text name text @ rest) = Some ((name, v), rest)"
  using assms by (simp add: read_label_def label_text_def Cut_found)

definition plain_name :: "string \<Rightarrow> bool" where
  "plain_name name \<longleftrightarrow> name \<noteq> [] \<and> hd name \<noteq> CHR ''#'' \<and> CHR ''{'' \<notin> set name \<and> newline \<notin> set name"

lemma read_metrics_line:
  assumes "newline \<notin> set line"
  shows "read_metrics (line @ newline # rest) =
    (if line = [] \<or> HasPrefix line ''#'' then read_metrics rest
     else case read_sample line of None \<Rightarrow> None | Some x \<Rightarrow> map_option (Cons x) (read_metrics rest))"
  using assms by (simp add: read_metrics_def Split_append split: option.split)

lemma read_help:
  assumes "newline \<notin> set name" "newline \<notin> set help" "newline \<notin> set kind"
  shows "read_metrics (help_text name help kind @ rest) = read_metrics rest"
  using assms read_metrics_line [of "''# HELP '' @ name @ '' '' @ help" "''# TYPE '' @ name @ '' '' @ kind @ newline # rest"]
    read_metrics_line [of "''# TYPE '' @ name @ '' '' @ kind" rest]
  by (simp add: help_text_def HasPrefix_def)

lemma read_series:
  assumes "plain_name name" and "newline \<notin> set body" and "read_labels (body @ ''} '' @ FormatInt v) = Some (labels, '' '' @ FormatInt v)"
  shows "read_metrics (name @ ''{'' @ body @ ''} '' @ FormatInt v @ newline # rest) =
    map_option (Cons ((name, labels), v)) (read_metrics rest)"
proof -
  obtain c s where name: "name = c # s" and "c \<noteq> CHR ''#''" using assms(1) by (cases name) (auto simp: plain_name_def)
  have "read_sample (name @ ''{'' @ body @ ''} '' @ FormatInt v) = Some ((name, labels), v)"
    using assms by (simp add: read_sample_def plain_name_def Cut_found read_int_FormatInt)
  then show ?thesis
    using read_metrics_line [of "name @ ''{'' @ body @ ''} '' @ FormatInt v" rest] assms name \<open>c \<noteq> _\<close>
    by (simp add: plain_name_def FormatInt_plain HasPrefix_def)
qed

lemma read_one_label:
  assumes "plain_name name"
  shows "read_metrics (one_label name route v @ rest) = map_option (Cons ((name, route_label route), v)) (read_metrics rest)"
proof -
  have "read_labels (label_text ''route'' (escapeLabel route) @ ''} '' @ FormatInt v) = Some (route_label route, '' '' @ FormatInt v)"
    by (simp add: read_labels.simps read_label_text read_value_escaped)
  from read_series [OF assms _ this, of rest] show ?thesis
    by (simp add: one_label_def label_text_def newline_escaped)
qed

lemma read_two_labels:
  assumes "plain_name name" and label: "CHR ''='' \<notin> set label" "newline \<notin> set label" and plain: "newline \<notin> set text"
    and v: "\<And>rest. read_value (text @ quote # rest) = Some (second, rest)"
  shows "read_metrics (two_labels name route label text v @ rest) =
    map_option (Cons ((name, [(''route'', route), (label, second)]), v)) (read_metrics rest)"
proof -
  have "read_labels (label_text label text @ ''} '' @ FormatInt v) = Some ([(label, second)], '' '' @ FormatInt v)"
    using label v by (simp add: read_labels.simps read_label_text)
  then have "read_labels ((label_text ''route'' (escapeLabel route) @ '','' @ label_text label text) @ ''} '' @ FormatInt v) =
      Some ([(''route'', route), (label, second)], '' '' @ FormatInt v)"
    by (subst read_labels.simps) (simp add: read_label_text read_value_escaped)
  from read_series [OF assms(1) _ this, of rest] show ?thesis
    using label plain by (simp add: two_labels_def label_text_def newline_escaped)
qed

section \<open>Reading a family\<close>

definition family_text :: "string \<Rightarrow> ('k \<Rightarrow> string) \<Rightarrow> 'k list \<Rightarrow> string" where
  "family_text help line keys = help @ concat (map line keys)"

lemma read_family:
  assumes "\<And>k rest. read_metrics (line k @ rest) = map_option (Cons ((name, labels k), at_key values k)) (read_metrics rest)"
    and "newline \<notin> set name" "newline \<notin> set help" "newline \<notin> set kind"
  shows "read_metrics (family_text (help_text name help kind) line keys @ rest) =
    map_option ((@) (samples_of name labels values keys)) (read_metrics rest)"
proof -
  have "read_metrics (concat (map line keys) @ rest) = map_option ((@) (samples_of name labels values keys)) (read_metrics rest)"
    by (induction keys) (simp_all add: assms(1) samples_of_def option.map_comp option.map_ident comp_def)
  with assms(2-4) show ?thesis by (simp add: family_text_def read_help)
qed

lemma read_routes:
  assumes "plain_name name" "newline \<notin> set help" "newline \<notin> set kind"
  shows "read_metrics (family_text (help_text name help kind) (\<lambda>k. one_label name k (at_key values k)) keys @ rest) =
    map_option ((@) (samples_of name route_label values keys)) (read_metrics rest)"
  using assms by (intro read_family) (simp_all add: read_one_label plain_name_def)

lemma read_pairs:
  assumes "plain_name name" "newline \<notin> set help" "newline \<notin> set kind" "CHR ''='' \<notin> set label" "newline \<notin> set label"
  shows "read_metrics (family_text (help_text name help kind)
      (\<lambda>k. two_labels name (fst k) label (escapeLabel (snd k)) (at_key values k)) keys @ rest) =
    map_option ((@) (samples_of name (pair_labels label) values keys)) (read_metrics rest)"
  using assms by (intro read_family read_two_labels) (simp_all add: read_value_escaped newline_escaped plain_name_def)

lemma read_statuses:
  assumes "plain_name name" "newline \<notin> set help" "newline \<notin> set kind"
  shows "read_metrics (family_text (help_text name help kind)
      (\<lambda>k. two_labels name (fst k) ''status'' (FormatInt (snd k)) (at_key values k)) keys @ rest) =
    map_option ((@) (samples_of name status_labels values keys)) (read_metrics rest)"
  using assms by (intro read_family read_two_labels) (simp_all add: read_value_plain FormatInt_plain plain_name_def)

section \<open>The whole text\<close>

definition routes_text :: "string \<Rightarrow> string \<Rightarrow> string \<Rightarrow> (string, int) gomap \<Rightarrow> string" where
  "routes_text name help kind values =
     family_text (help_text name help kind) (\<lambda>k. one_label name k (at_key values k)) (sorted_routes values)"

definition pairs_text :: "string \<Rightarrow> string \<Rightarrow> string \<Rightarrow> (pair_key, int) gomap \<Rightarrow> string" where
  "pairs_text name help label values = family_text (help_text name help ''counter'')
     (\<lambda>k. two_labels name (fst k) label (escapeLabel (snd k)) (at_key values k)) (sorted_pairs values)"

definition statuses_text :: "string \<Rightarrow> string \<Rightarrow> (string \<times> int, int) gomap \<Rightarrow> string" where
  "statuses_text name help values = family_text (help_text name help ''counter'')
     (\<lambda>k. two_labels name (fst k) ''status'' (FormatInt (snd k)) (at_key values k))
     (sort_key (\<lambda>(route, status). (map byte route, status)) (map fst values))"

definition metrics_text :: "Metrics \<Rightarrow> string" where
  "metrics_text m =
     statuses_text ''package_firewall_http_requests_total''
       ''Tidewaiter responses by route and HTTP status.'' (mt_requests m) @
     routes_text ''package_firewall_cache_hits_total''
       ''Artifact cache hits after a complete integrity-checked read.'' ''counter'' (mt_hits m) @
     routes_text ''package_firewall_cache_misses_total''
       ''Artifact cache misses, including cache read failures that fell back to upstream.'' ''counter'' (mt_misses m) @
     routes_text ''package_firewall_cache_store_errors_total''
       ''Artifact cache staging or backend store errors.'' ''counter'' (mt_storeErrors m) @
     routes_text ''package_firewall_cache_read_errors_total''
       ''Artifact cache lookup, staging, or integrity errors.'' ''counter'' (mt_readErrors m) @
     routes_text ''package_firewall_cache_fill_leaders_total''
       ''Artifact cache misses elected to download from an upstream registry.'' ''counter'' (mt_fillLeaders m) @
     pairs_text ''package_firewall_cache_fill_waiters_total''
       ''Artifact cache misses coalesced behind another fill.'' ''scope'' (mt_fillWaiters m) @
     pairs_text ''package_firewall_upstream_requests_total''
       ''Request attempts sent to upstream registries by response status.'' ''status'' (mt_upstreamRequests m) @
     routes_text ''package_firewall_upstream_in_flight''
       ''Upstream response bodies currently in flight.'' ''gauge'' (mt_upstreamInFlight m) @
     pairs_text ''package_firewall_upstream_retries_total''
       ''Upstream request retries by bounded reason.'' ''reason'' (mt_upstreamRetries m) @
     pairs_text ''package_firewall_upstream_throttled_total''
       ''Requests delayed or rejected by upstream protection.'' ''reason'' (mt_upstreamThrottled m) @
     pairs_text ''package_firewall_cache_bypasses_total''
       ''Artifact cache bypasses labeled by bounded reason.'' ''reason'' (mt_bypasses m)"

definition metrics_samples :: "Metrics \<Rightarrow> sample list" where
  "metrics_samples m =
     samples_of ''package_firewall_http_requests_total'' status_labels (mt_requests m) (sort_key (\<lambda>(route, status). (map byte route, status)) (map fst (mt_requests m))) @
     samples_of ''package_firewall_cache_hits_total'' route_label (mt_hits m) (sorted_routes (mt_hits m)) @
     samples_of ''package_firewall_cache_misses_total'' route_label (mt_misses m) (sorted_routes (mt_misses m)) @
     samples_of ''package_firewall_cache_store_errors_total'' route_label (mt_storeErrors m) (sorted_routes (mt_storeErrors m)) @
     samples_of ''package_firewall_cache_read_errors_total'' route_label (mt_readErrors m) (sorted_routes (mt_readErrors m)) @
     samples_of ''package_firewall_cache_fill_leaders_total'' route_label (mt_fillLeaders m) (sorted_routes (mt_fillLeaders m)) @
     samples_of ''package_firewall_cache_fill_waiters_total'' (pair_labels ''scope'') (mt_fillWaiters m) (sorted_pairs (mt_fillWaiters m)) @
     samples_of ''package_firewall_upstream_requests_total'' (pair_labels ''status'') (mt_upstreamRequests m) (sorted_pairs (mt_upstreamRequests m)) @
     samples_of ''package_firewall_upstream_in_flight'' route_label (mt_upstreamInFlight m) (sorted_routes (mt_upstreamInFlight m)) @
     samples_of ''package_firewall_upstream_retries_total'' (pair_labels ''reason'') (mt_upstreamRetries m) (sorted_pairs (mt_upstreamRetries m)) @
     samples_of ''package_firewall_upstream_throttled_total'' (pair_labels ''reason'') (mt_upstreamThrottled m) (sorted_pairs (mt_upstreamThrottled m)) @
     samples_of ''package_firewall_cache_bypasses_total'' (pair_labels ''reason'') (mt_bypasses m) (sorted_pairs (mt_bypasses m))"

lemma read_metrics_text: "read_metrics (metrics_text m) = Some (metrics_samples m)"
proof -
  have tail: "read_metrics (pairs_text name h label vs) = Some (samples_of name (pair_labels label) vs (sorted_pairs vs))"
    if "plain_name name" "newline \<notin> set h" "CHR ''='' \<notin> set label" "newline \<notin> set label" for name h label vs
    using read_pairs [OF that(1,2) _ that(3,4), of "''counter''" vs "sorted_pairs vs" "[]"]
    by (simp add: pairs_text_def read_metrics_def)
  show ?thesis
    unfolding metrics_text_def metrics_samples_def
    by (simp add: routes_text_def statuses_text_def pairs_text_def read_routes read_pairs read_statuses tail [unfolded pairs_text_def]
        plain_name_def del: append_Cons)
qed

section \<open>A writer that takes everything\<close>

locale text_sink =
  fixes sink :: "'w io_writer" and contents :: "'w \<Rightarrow> string"
  assumes takes_all: "fst (sink w body) = (int (length body), None)"
    and appends: "contents (snd (sink w body)) = contents w @ body"
begin

definition has_written :: "string \<Rightarrow> string \<Rightarrow> 'w countingWriter \<Rightarrow> bool" where
  "has_written before t c \<longleftrightarrow>
     cw_err c = None \<and> contents (cw_writer c) = before @ t \<and> cw_written c = int64 (int (length t))"

lemma Fprintf_written: "has_written before t c \<Longrightarrow> has_written before (t @ body) (Fprintf sink body c)"
  using takes_all [of "cw_writer c" body] appends [of "cw_writer c" body]
  by (auto simp: has_written_def Fprintf_def countingWriter_Write_def split: prod.splits)

lemma family_written:
  assumes "has_written before t c"
  shows "has_written before (t @ family_text help line keys) (fold (\<lambda>k. Fprintf sink (line k)) keys (Fprintf sink help c))"
proof -
  have "has_written before (t @ concat (map line keys)) (fold (\<lambda>k. Fprintf sink (line k)) keys c)"
    if "has_written before t c" for t c
    using that
  proof (induction keys arbitrary: t c)
    case (Cons k keys)
    from Cons.IH [OF Fprintf_written [OF Cons.prems, of "line k"]] show ?case by simp
  qed simp
  from this [OF Fprintf_written [OF assms, of "help"]] show ?thesis by (simp add: family_text_def)
qed

lemma writers_written:
  assumes "has_written before t c"
  shows "has_written before (t @ routes_text name help ''counter'' routes) (writeCounter sink name help routes c)"
    and "has_written before (t @ routes_text name help ''gauge'' routes) (writeGauge sink name help routes c)"
    and "has_written before (t @ pairs_text name help ''status'' pairs) (writeUpstreamStatuses sink name help pairs c)"
    and "has_written before (t @ pairs_text name help ''reason'' pairs) (writeUpstreamReasons sink name help pairs c)"
    and "has_written before (t @ pairs_text ''package_firewall_cache_fill_waiters_total''
      ''Artifact cache misses coalesced behind another fill.'' ''scope'' pairs) (writeFillWaiters sink pairs c)"
    and "has_written before (t @ pairs_text ''package_firewall_cache_bypasses_total''
      ''Artifact cache bypasses labeled by bounded reason.'' ''reason'' pairs) (writeBypasses sink pairs c)"
    and "has_written before (t @ statuses_text ''package_firewall_http_requests_total''
      ''Tidewaiter responses by route and HTTP status.'' statuses) (writeRequests sink statuses c)"
  unfolding writeCounter_def writeGauge_def writeUpstreamStatuses_def writeUpstreamReasons_def writeFillWaiters_def
    writeBypasses_def writeRequests_def routes_text_def pairs_text_def statuses_text_def Let_def case_prod_unfold
  by (simp_all only: family_written [OF assms] prod.collapse)

lemma WriteTo_text:
  "fst (metrics_WriteTo sink m w) = (int64 (int (length (metrics_text m))), None) \<and>
   contents (snd (metrics_WriteTo sink m w)) = contents w @ metrics_text m"
proof -
  have start: "has_written (contents w) [] \<lparr>cw_writer = w, cw_written = 0, cw_err = None\<rparr>"
    by (simp add: has_written_def)
  have "\<exists>c. metrics_WriteTo sink m w = ((cw_written c, cw_err c), cw_writer c) \<and> has_written (contents w) (metrics_text m) c"
    unfolding metrics_WriteTo_def metrics_text_def Let_def append_assoc [symmetric]
    by (intro exI conjI, rule refl) (rule writers_written writers_written(7) [OF start, unfolded append_Nil])+
  then show ?thesis by (auto simp: has_written_def)
qed

end

interpretation response_sink: text_sink "response_write (\<lambda>_ _. None)" rw_Body
  by unfold_locales (simp_all add: response_write_def client_write_def)

section \<open>Samples and events\<close>

lemmas families = requests.samples_tally hits.samples_tally misses.samples_tally storeErrors.samples_tally readErrors.samples_tally
  fillLeaders.samples_tally fillWaiters.samples_tally upstreamRequests.samples_tally inFlight.samples_tally
  retries.samples_tally throttled.samples_tally bypasses.samples_tally

lemmas families_untouched = requests.samples_untouched hits.samples_untouched misses.samples_untouched storeErrors.samples_untouched
  readErrors.samples_untouched fillLeaders.samples_untouched fillWaiters.samples_untouched upstreamRequests.samples_untouched
  inFlight.samples_untouched retries.samples_untouched throttled.samples_untouched bypasses.samples_untouched

lemmas families_distinct = requests.samples_distinct hits.samples_distinct misses.samples_distinct storeErrors.samples_distinct
  readErrors.samples_distinct fillLeaders.samples_distinct fillWaiters.samples_distinct upstreamRequests.samples_distinct
  inFlight.samples_distinct retries.samples_distinct throttled.samples_distinct bypasses.samples_distinct

definition separate :: "string list \<Rightarrow> sample list \<Rightarrow> bool" where
  "separate names xs \<longleftrightarrow> distinct (map fst xs) \<and> (\<forall>x\<in>set xs. fst (fst x) \<in> set names)"

lemma separate_family: "distinct (map fst (samples_of name labels vs keys)) \<Longrightarrow> separate [name] (samples_of name labels vs keys)"
  by (auto simp: separate_def samples_of_def)

lemma separate_append:
  assumes "separate names xs" and "distinct (map fst (samples_of name labels vs keys))" and "name \<notin> set names"
  shows "separate (name # names) (samples_of name labels vs keys @ xs)"
proof -
  have "fst (fst x) = name" if "x \<in> set (samples_of name labels vs keys)" for x
    using that by (auto simp: samples_of_def)
  then show ?thesis using assms by (fastforce simp: separate_def)
qed

lemma tally_name:
  assumes "tally es (n, ls) \<noteq> None"
  obtains e where "e \<in> set es" "n = fst (series e)"
  using assms by (force simp: tally_def Let_def filter_empty_conv split: if_splits)

lemma metrics_samples_tally: "map_of (metrics_samples (metrics_run es)) (n, ls) = tally es (n, ls)"
proof (cases "tally es (n, ls)")
  case None
  then show ?thesis unfolding metrics_samples_def map_of_append by (simp only: map_add_None families_untouched simp_thms)
next
  case (Some v)
  then obtain e where n: "n = fst (series e)" using tally_name [of es n ls] by auto
  then show ?thesis by (cases e) (simp_all add: metrics_samples_def families map_add_def option.case_eq_if)
qed

lemma distinct_samples: "distinct (map fst (metrics_samples (metrics_run es)))"
proof -
  have "\<exists>names. separate names (metrics_samples (metrics_run es))"
    unfolding metrics_samples_def by (rule exI) (rule separate_append separate_family families_distinct | simp)+
  then show ?thesis by (auto simp: separate_def)
qed

section \<open>The endpoint\<close>

text \<open>What every write keeps, the whole exposition keeps, also when the client fails.\<close>

lemma Fprintf_keeps:
  assumes "\<And>w body. P w \<Longrightarrow> P (snd (sink w body))" and "P (cw_writer c)"
  shows "P (cw_writer (Fprintf sink body c))"
  using assms(1) [OF assms(2), of body] assms(2) by (auto simp: Fprintf_def countingWriter_Write_def split: prod.split)

lemma fold_keeps:
  assumes "\<And>w body. P w \<Longrightarrow> P (snd (sink w body))" and "P (cw_writer c)"
  shows "P (cw_writer (fold (\<lambda>k. Fprintf sink (line k)) keys c))"
  using assms(2) by (induction keys arbitrary: c) (simp_all add: Fprintf_keeps [of P, OF assms(1)])

lemma WriteTo_keeps:
  assumes "\<And>w body. P w \<Longrightarrow> P (snd (sink w body))" and "P w"
  shows "P (snd (metrics_WriteTo sink m w))"
  unfolding metrics_WriteTo_def Let_def snd_conv writeCounter_def writeGauge_def writeUpstreamStatuses_def writeUpstreamReasons_def
    writeFillWaiters_def writeBypasses_def writeRequests_def case_prod_unfold
  by (intro fold_keeps [of P, OF assms(1)] Fprintf_keeps [of P, OF assms(1)]) (simp_all add: assms)

lemma Handler_answer:
  "\<exists>w. metrics_Handler (\<lambda>_ _. None) m \<lparr>rw_Header = h, rw_Status = None, rw_Body = []\<rparr> = w \<and> rw_Status w = Some 200 \<and>
     header_Get (rw_Header w) ''Content-Type'' = ''text/plain; version=0.0.4; charset=utf-8'' \<and>
     read_metrics (rw_Body w) = Some (metrics_samples m)"
proof -
  define h' where "h' = header_Set ''Content-Type'' ''text/plain; version=0.0.4; charset=utf-8'' h"
  let ?start = "WriteHeader 200 \<lparr>rw_Header = h', rw_Status = None, rw_Body = []\<rparr>"
  let ?w = "snd (metrics_WriteTo (response_write (\<lambda>_ _. None)) m ?start)"
  have "rw_Status ?w = Some 200 \<and> rw_Header ?w = h'"
    by (rule WriteTo_keeps) (auto simp: response_write_def client_write_def WriteHeader_def)
  moreover have "rw_Body ?w = metrics_text m"
    using response_sink.WriteTo_text [of m ?start] by (simp add: WriteHeader_def)
  moreover have "metrics_Handler (\<lambda>_ _. None) m \<lparr>rw_Header = h, rw_Status = None, rw_Body = []\<rparr> = ?w"
    by (simp add: metrics_Handler_def h'_def)
  ultimately show ?thesis by (simp add: read_metrics_text h'_def header_Get_Set)
qed

text \<open>C39: The metrics endpoint reports what happened, and only that. After any sequence of events,
  whatever bytes the route, status, reason and scope strings hold (quotes, backslashes and
  newlines included), the handler answers 200 with the text content type, and a reader of the
  text format finds in the body one sample for each series that some event belongs to and none
  for any other. A counter's sample is the number of its events modulo 2^64; the in-flight
  gauge's is the sum of its deltas in int64. So no label value can forge a line or another
  series, and two routes never share one.\<close>

theorem metrics_reported:
  "\<exists>samples w. metrics_Handler (\<lambda>_ _. None) (metrics_run es) \<lparr>rw_Header = h, rw_Status = None, rw_Body = []\<rparr> = w \<and>
     rw_Status w = Some 200 \<and> header_Get (rw_Header w) ''Content-Type'' = ''text/plain; version=0.0.4; charset=utf-8'' \<and>
     read_metrics (rw_Body w) = Some samples \<and> distinct (map fst samples) \<and>
     (\<forall>name labels. map_of samples (name, labels) = tally es (name, labels))"
  using Handler_answer [of "metrics_run es" h] distinct_samples metrics_samples_tally by blast

end
