(* ===== verification/Spec2Isabelle.thy ===== *)
theory Spec2Isabelle
  imports Policy Cache Intel Registry Config GoIO Rewrite Explain Server Artifactcache Headers Redirect Coordination Upstream
    NpmCache Fill Release Gradle Checkpoint Progress Prewarm Cli Exposition
begin

text \<open>
  Verification of tidewaiter (package-firewall), a proxy in front of package registries that
  decides about every artifact before it is served, keeps artifacts in a cache, and fills that cache
  ahead of a build.

  \<^bold>\<open>The program.\<close> A request comes to \<open>internal/server\<close>. The server finds the route, authenticates, lets
  \<open>internal/registry\<close> name the package, evaluates the policy (\<open>internal/policy\<close>), asks for the release date
  (\<open>internal/release\<close>) when a cooldown is configured and asks the intelligence provider (\<open>internal/intel\<close>, with
  \<open>internal/cache\<close>) about malware and vulnerabilities. A blocked request is answered 403 with an explanation
  (\<open>internal/explain\<close>) and an audit event (\<open>internal/audit\<close>). Any other goes to \<open>internal/proxy\<close>, which serves it from
  the artifact cache (\<open>internal/artifactcache\<close>: file system or S3) or fetches it under redirect, concurrency and rate limits,
  rewrites URLs in metadata, and stores what may be shared; one request per key fills the cache, across
  processes by a lease in DynamoDB (\<open>internal/coordination\<close>). \<open>internal/cachemetrics\<close> counts what happens.
  \<open>internal/prewarm\<close> runs as a client of the proxy: it computes the artifacts of a Gradle build and fetches each
  twice. \<open>internal/config\<close> and \<open>internal/cli\<close> put the parts together.

  \<^bold>\<open>Theories and sources.\<close>
  \<^item> \<open>Prelude\<close>: strings as byte lists, time, maps as association lists, UTF-8; \<open>GoRegexp\<close>, \<open>GoFloat\<close>, \<open>GoIO\<close>: the
    parts of regexp, float64, io, net/http headers and path that the program uses, each with its laws.
  \<^item> \<open>Policy\<close> (policy/policy.go): rules, compiled globs, \<open>policy_New\<close>, \<open>Load\<close>, \<open>Evaluate\<close>, exemption. The engine equals a
    declarative reading of the configuration, the regular expression of a pattern equals glob matching, deny wins.
  \<^item> \<open>Cache\<close> (cache/cache.go): the bounded cache with expiry; invariant and the locale \<open>ttl_cache\<close>.
  \<^item> \<open>Intel\<close> (intel/*.go): decisions from findings, reading OSV records, the OSV provider and its two caches. Malware always
    blocks, the threshold decides as stated, a malicious answer outlives an outage.
  \<^item> \<open>Registry\<close> (registry/*.go): identification for npm, PyPI, Maven, Go and static routes, package URLs and their round trip.
  \<^item> \<open>Config\<close> (config/*.go): defaults, environment, validation and what it guarantees.
  \<^item> \<open>Explain\<close> (explain, audit): messages and safe header values. \<open>Server\<close> (server/server.go): \<open>routed\<close>, \<open>authorized\<close>,
    \<open>decide\<close>, \<open>handle\<close>, \<open>handleExplain\<close>, the token bucket. What is served, what is blocked, what an unauthenticated caller learns.
  \<^item> \<open>Release\<close> (release/release.go): publication times of four registries; the streaming reader of an npm packument equals
    looking up its last \<open>time\<close> member.
  \<^item> \<open>Artifactcache\<close> (artifactcache/*.go): keys, records, the two stores; the locale \<open>artifact_store\<close> states the contract both meet.
  \<^item> \<open>Headers\<close>, \<open>Redirect\<close>, \<open>Rewrite\<close>, \<open>NpmCache\<close>, \<open>Upstream\<close>, \<open>Proxy\<close>, \<open>Fill\<close> (proxy/*.go): headers forwarded and stored,
    URLs and redirects, the streaming rewriter as one substitution on the whole body, npm freshness, the retry loop with cooldowns
    and limiter, capturing and verifying bodies, and fills with leaders and waiters as a step relation.
  \<^item> \<open>Coordination\<close> (coordination/*.go): leases and cooldowns over conditional writes, mutual exclusion by rule induction; the locale
    \<open>cooldown_store\<close> is the contract of local and shared cooldowns.
  \<^item> \<open>Metrics\<close>, \<open>Exposition\<close> (cachemetrics/metrics.go): the counters, the text they are written as, and that reading the text gives
    back the events; the locale \<open>metric_family\<close> holds for each of the twelve maps, \<open>text_sink\<close> is the writer's contract.
  \<^item> \<open>Gradle\<close>, \<open>Checkpoint\<close>, \<open>Progress\<close>, \<open>Prewarm\<close> (prewarm/*.go): the manifest of a build, run configuration, the checkpoint
    file, the progress log, and passes as a system of workers under every schedule.
  \<^item> \<open>Cli\<close> (cli/*.go): wiring, tools and commands, with the theorems that join Gradle, Prewarm, Policy, Intel and Server.
  \<^item> This theory: properties that span the provider, the policy and the server, and the proxy and the metrics.

  \<^bold>\<open>How the code is modelled.\<close> State is passed explicitly; a Go error is an option or the left side of a sum; a panic or an
  endless wait is \<open>None\<close>. A critical section is one step. Where the program is concurrent (fills, leases, limiter, prewarm passes)
  the theorems quantify over all interleavings: an inductive step relation, or a schedule given as a list of
  actions. Durations and counters are integers with the 64-bit wrap-around of Go written out (\<open>int64\<close>, \<open>uint64\<close>), and
  \<open>time_Sub\<close> saturates. Loops that end have termination proofs: the redirect chain by its limit of hops, the retry loop by the
  retries left, a prewarm pass by the work left. A list of rounds stands for what a waiting request meets; it may be too short, and
  then the request is still waiting. Code outside the repository is a parameter: clocks, jitter, transports and
  services give one answer per call, and the libraries (encoding/json, crypto/sha256, net/url, yaml, x/mod, CVSS and semver
  parsers, the AWS clients, the file system) are functions in records such as \<open>osv_lib\<close>, \<open>http_lib\<close>, \<open>proxy_lib\<close>, \<open>rel_lib\<close>. A theorem
  that needs a law of them, for example that decoding inverts encoding or that a conditional write is atomic, names it as a
  hypothesis, and its witness instantiates the parameter.

  \<^bold>\<open>What the theorems say together.\<close> A request is served exactly if it is routed, authorized and not decided as blocked; malware
  and denied packages are blocked, also while OSV is down; with fail-open off nothing unchecked is served. What is stored is complete and
  shareable, what is served from the cache is verified and unchanged, keys do not collide, redirects and credentials stay
  confined. Fills elect one leader, leases exclude each other, requests release what they take and settle the gauge. A prewarm run that
  succeeds has put every locked artifact into the cache with a checksum of the build's own metadata.

  \<^bold>\<open>Divergences proved.\<close> \<open>release_lookup_failure_skips_malware_check\<close> (Server), \<open>far_retry_after_wraps\<close> (Upstream),
  \<open>npm_prerelease_misread\<close> (Registry) and \<open>maven_input_mismatch\<close> (Cli) show where the code does not do what its documentation or
  its other parts intend.

  \<^bold>\<open>Not modelled.\<close> Listening, shutdown, timeouts of net/http and the path cleaning of its multiplexer (\<open>Run\<close>, \<open>HTTPServer\<close>,
  \<open>routesHandler\<close>); the construction of the HTTP client; structured logging; parsing of command-line flags, signals and exit codes; temporary file
  names and permissions; the moments at which goroutines are scheduled inside one critical section; the progress events of a pass as
  part of its state; the decoders and clients named above. Interfaces and option functions of Go have no definition of their own: the
  records of parameters play their part. Storing an artifact runs after the response (\<open>startStore\<close>) and is modelled in the order of its effects.
\<close>

section \<open>Intelligence, policy and server together\<close>

lemma handle_blocks:
  assumes "routed s (req_Path r) = Some route" and "rc_AllowAnonymous route \<or> authorized s r"
    and "dec_Action (fst (decide d s now now' route (Identify (dep_module d) (toRegistryRoute route) (req_Path r)) st)) = ActionBlock"
  shows "\<not> oc_Served (fst (handle d s serve now now' r st)) \<and>
    map_option rsp_Status (oc_Response (fst (handle d s serve now now' r st))) = Some 403 \<and>
    oc_Metrics (fst (handle d s serve now now' r st)) = [(rc_Name route, 403)]"
proof (cases rule: handle_cases [of s r d serve now now' st])
  case (decided route' info decision st' event)
  then show ?thesis using assms by (simp add: wrote_def writeBlocked_def writeJSON_def)
qed (use assms in auto)

lemma provider_Query_answer:
  assumes "fst (OSVProvider_Query (oe_lib e) (oe_post e) (oe_now e) (oe_fetched e) pkg p) = Inr result"
  shows "\<exists>st. provider_Query e pkg (OSV p) = (Inr result, st)"
  using assms by (auto simp: provider_Query_def split: prod.split)


text \<open>A jar that OSV called malicious at time 2 and that is asked for while the transport fails.\<close>

definition example_outage_env :: osv_env where
  "example_outage_env = \<lparr>oe_lib = example_lib, oe_post = (\<lambda>_ _. Inl ''down''), oe_message = (\<lambda>_. ''down''), oe_now = 1000, oe_fetched = 1000\<rparr>"

abbreviation example_jar :: Package where
  "example_jar \<equiv> purl_package ''maven'' ''org.acme:lib'' ''org.acme/lib'' ''1.0''"


section \<open>Upstream requests and the metrics\<close>

text \<open>The record functions of the proxy hand the events of a request to the metrics.\<close>

fun recordUpstream :: "string \<Rightarrow> upstream_event \<Rightarrow> metric_event list" where
  "recordUpstream route (EvRequest status) = [MeUpstreamRequest route status]"
| "recordUpstream route (EvInFlight delta) = [MeInFlight route delta]"
| "recordUpstream route (EvRetry reason) = [MeRetry route reason]"
| "recordUpstream route (EvThrottled reason) = [MeThrottled route reason]"
| "recordUpstream route _ = []"

record upstream_run =
  ur_lib :: do_lib
  ur_cfg :: UpstreamProtectionConfig
  ur_env :: "nat \<Rightarrow> attempt_env"
  ur_route :: RouteConfig
  ur_request :: upstream_request
  ur_cooldowns :: routeCooldowns

definition run_metrics :: "upstream_run \<Rightarrow> metric_event list" where
  "run_metrics u =
     (case proxy_do (ur_lib u) (ur_cfg u) (ur_env u) (ur_route u) (ur_request u) (ur_cooldowns u) of
        None \<Rightarrow> []
      | Some (r, _, evs) \<Rightarrow> concat (map (recordUpstream (rc_Name (ur_route u))) (evs @ closing r)))"

definition gauge :: "string \<Rightarrow> metric_event list \<Rightarrow> int" where
  "gauge route es = sum_list (map amount (filter (\<lambda>e. series e = series (MeInFlight route 0)) es))"

lemma gauge_simps [simp]:
  "gauge route [] = 0" "gauge route (e # es) = (if series e = series (MeInFlight route 0) then amount e else 0) + gauge route es"
  "gauge route (es @ ds) = gauge route es + gauge route ds"
  by (simp_all add: gauge_def)

lemma gauge_perm: "mset es = mset ds \<Longrightarrow> gauge route es = gauge route ds"
proof -
  have "gauge route xs = sum_mset (image_mset amount (filter_mset (\<lambda>e. series e = series (MeInFlight route 0)) (mset xs)))" for xs
    by (simp add: gauge_def flip: mset_map mset_filter sum_mset_sum_list)
  then show "mset es = mset ds \<Longrightarrow> gauge route es = gauge route ds" by simp
qed

lemma gauge_recorded: "gauge route (concat (map (recordUpstream n) evs)) = (if n = route then inflight evs else 0)"
proof (induction evs)
  case (Cons e evs)
  then show ?case by (cases e) (auto simp: inflight_def)
qed (simp add: inflight_def)

lemma gauge_run: "gauge route (run_metrics u) = 0"
  using do_loop_accounts [of "ur_lib u" "ur_cfg u" "ur_env u" "ur_route u" "ur_request u"
      "upstreamRegistryKey (ul_conf (dol_url (ur_lib u))) (ur_request u)" 0 "ur_cooldowns u"]
  unfolding run_metrics_def proxy_do_def by (auto simp: gauge_recorded simp del: map_append concat_append)

lemma gauge_runs: "gauge route (concat (map run_metrics us)) = 0"
  by (induction us) (simp_all add: gauge_run)

lemma gauge_others: "\<forall>e\<in>set es. \<forall>n delta. e \<noteq> MeInFlight n delta \<Longrightarrow> gauge route es = 0"
proof (induction es)
  case (Cons e es)
  then show ?case by (cases e) auto
qed simp

text \<open>C38: The in-flight gauge settles. Take any number of requests to upstream registries, each run to its
  end with any answers, rate limits, retries, waits, timeouts and cancellations and its response body closed, and
  let their metric events reach the counters in any interleaving, mixed with any other events. The metrics
  endpoint then reports zero requests in flight for every route that it has a gauge for: no path through the retry loop
  leaks an increment or counts a release twice.\<close>

theorem inflight_settles:
  assumes "mset es = mset (concat (map run_metrics us) @ others)"
    and "\<forall>e\<in>set others. \<forall>n delta. e \<noteq> MeInFlight n delta"
  shows "\<exists>samples. read_metrics (rw_Body (metrics_Handler (\<lambda>_ _. None) (metrics_run es) \<lparr>rw_Header = h, rw_Status = None, rw_Body = []\<rparr>)) = Some samples \<and>
    (\<forall>route. map_of samples (''package_firewall_upstream_in_flight'', route_label route) =
       (if \<exists>delta. MeInFlight route delta \<in> set es then Some 0 else None))"
proof -
  have zero: "gauge route es = 0" for route
    using gauge_perm [OF assms(1), of route] by (simp add: gauge_runs gauge_others [OF assms(2)])
  have own: "series e = (''package_firewall_upstream_in_flight'', route_label route) \<longleftrightarrow> (\<exists>delta. e = MeInFlight route delta)" for e route
    by (cases e) auto
  have "tally es (''package_firewall_upstream_in_flight'', route_label route) =
      (if \<exists>delta. MeInFlight route delta \<in> set es then Some 0 else None)" for route
    using zero [of route] by (auto simp: tally_def gauge_def Let_def filter_empty_conv own width_of_def)
  then show ?thesis using Handler_answer [of "metrics_run es" h] by (auto simp: metrics_samples_tally)
qed

theorem inflight_settles_witness:
  "\<exists>samples. read_metrics (rw_Body (metrics_Handler (\<lambda>_ _. None)
      (metrics_run (run_metrics \<lparr>ur_lib = example_do_lib, ur_cfg = example_limits, ur_env = \<lambda>_. example_attempt 0, ur_route = Redirect.example_route,
         ur_request = example_upstream_request, ur_cooldowns = []\<rparr> @ [MeHit ''npm'']))
      \<lparr>rw_Header = [], rw_Status = None, rw_Body = []\<rparr>)) = Some samples \<and>
    map_of samples (''package_firewall_upstream_in_flight'', route_label (rc_Name Redirect.example_route)) = Some 0"
proof -
  let ?u = "\<lparr>ur_lib = example_do_lib, ur_cfg = example_limits, ur_env = \<lambda>_. example_attempt 0, ur_route = Redirect.example_route,
     ur_request = example_upstream_request, ur_cooldowns = []\<rparr>"
  let ?es = "run_metrics ?u @ [MeHit ''npm'']"
  obtain cd evs where "proxy_do example_do_lib example_limits (\<lambda>_. example_attempt 0) Redirect.example_route example_upstream_request [] =
      Some (Inr (example_429, [EvRelease, EvInFlight (-1), EvCancel]), cd, evs)"
    using example_limited by blast
  then have "MeInFlight (rc_Name Redirect.example_route) (-1) \<in> set ?es" by (simp add: run_metrics_def closing_def)
  then have "\<exists>delta. MeInFlight (rc_Name Redirect.example_route) delta \<in> set ?es" by blast
  moreover have "mset ?es = mset (concat (map run_metrics [?u]) @ [MeHit ''npm''])" by simp
  ultimately show ?thesis using inflight_settles [of ?es "[?u]" "[MeHit ''npm'']" "[]"] by auto
qed

end
